(* ===== verification/Prelude.thy ===== *)
theory Prelude
  imports Main "HOL-Library.List_Lexorder" "HOL-Library.Char_ord"
begin

text \<open>
  What every component shares: Go's error values, results, the environment a run meets
  (which statements and calls fail, what the clock says, when a context is cancelled),
  integer conversions, and list lemmas.

  Strings are byte strings (\<open>char list\<close>), compared byte by byte as Go and SQLite's
  BINARY collation compare them (\<open>HOL-Library.List_Lexorder\<close> and \<open>Char_ord\<close>).
\<close>

named_theorems table_simps \<open>how table operations act on the rows of a table\<close>

section \<open>Errors and results\<close>

text \<open>
  An error value: a message, a message wrapped around another error
  (\<open>fmt.Errorf("p: %w", e)\<close>), an error with text after it, or one of the two errors of the
  context package.
\<close>

datatype go_error = Msg string | Wrap string go_error | Annot go_error string | Canceled | DeadlineExceeded

type_synonym 'a result = "go_error + 'a"

fun error_text :: "go_error \<Rightarrow> string" where
  "error_text (Msg s) = s"
| "error_text (Wrap p e) = p @ '': '' @ error_text e"
| "error_text (Annot e s) = error_text e @ s"
| "error_text Canceled = ''context canceled''"
| "error_text DeadlineExceeded = ''context deadline exceeded''"

text \<open>\<open>errors.Is(err, context.Canceled)\<close> follows the chain of wrapped errors.\<close>

fun is_canceled :: "go_error \<Rightarrow> bool" where
  "is_canceled Canceled = True"
| "is_canceled (Wrap p e) = is_canceled e"
| "is_canceled (Annot e s) = is_canceled e"
| "is_canceled _ = False"

section \<open>The environment of a run\<close>

text \<open>
  Time is counted in ticks: every statement, remote call and sleep takes the tick it
  happens at and moves to the next one. A context is a function from ticks to what
  \<open>ctx.Err()\<close> returns at that tick. The environment says which SQL statement fails
  (\<open>env_fault\<close>), what a remote call returns (\<open>env_rpc\<close>) and what the clock of the database
  says (\<open>env_now\<close>), each as a function of the tick, so a theorem over all
  environments covers every pattern of failures.
\<close>

type_synonym ctx = "nat \<Rightarrow> go_error option"

record env =
  env_fault :: "nat \<Rightarrow> go_error option"
  env_rpc :: "nat \<Rightarrow> go_error option"
  env_now :: "nat \<Rightarrow> string"

definition background :: ctx where
  "background = (\<lambda>_. None)"

text \<open>A statement run under a context that is already done returns the context's error.\<close>

definition sql_outcome :: "env \<Rightarrow> ctx \<Rightarrow> nat \<Rightarrow> go_error option" where
  "sql_outcome e c t = (case c t of Some er \<Rightarrow> Some er | None \<Rightarrow> env_fault e t)"

definition fault_free :: "env \<Rightarrow> bool" where
  "fault_free e \<longleftrightarrow> (\<forall>t. env_fault e t = None)"

lemma sql_outcome_fault_free [simp]:
  "fault_free e \<Longrightarrow> sql_outcome e background t = None"
  by (simp add: sql_outcome_def background_def fault_free_def)

text \<open>
  Running one operation after another: the first error stops the sequence, and the state
  it left is kept. This is the shape \<open>x, err := f(); if err != nil { return err }\<close>.
\<close>

definition res_bind ::
  "'a result \<times> 's \<Rightarrow> ('a \<Rightarrow> 's \<Rightarrow> 'b result \<times> 's) \<Rightarrow> 'b result \<times> 's" where
  "res_bind m k = (case m of (Inl er, s) \<Rightarrow> (Inl er, s) | (Inr x, s) \<Rightarrow> k x s)"

lemma res_bind_simps [simp]:
  "res_bind (Inl er, s) k = (Inl er, s)"
  "res_bind (Inr x, s) k = k x s"
  by (simp_all add: res_bind_def)

section \<open>Integer conversions\<close>

text \<open>
  Go's conversion to a signed type of \<open>w\<close> bits keeps the low bits, read as two's complement;
  signed arithmetic wraps the same way.
\<close>

definition to_signed :: "nat \<Rightarrow> int \<Rightarrow> int" where
  "to_signed w x = (x + 2 ^ (w - 1)) mod 2 ^ w - 2 ^ (w - 1)"

abbreviation to_int32 :: "int \<Rightarrow> int" where
  "to_int32 \<equiv> to_signed 32"

abbreviation to_int64 :: "int \<Rightarrow> int" where
  "to_int64 \<equiv> to_signed 64"

lemma to_int32_id: "- (2 ^ 31) \<le> x \<Longrightarrow> x < 2 ^ 31 \<Longrightarrow> to_int32 x = x"
  by (simp add: to_signed_def)

lemma to_int64_id: "- (2 ^ 63) \<le> x \<Longrightarrow> x < 2 ^ 63 \<Longrightarrow> to_int64 x = x"
  by (simp add: to_signed_def)

lemma to_int32_range: "- (2 ^ 31) \<le> to_int32 x \<and> to_int32 x < 2 ^ 31"
proof -
  have "0 \<le> (x + 2 ^ 31) mod 2 ^ 32" and "(x + 2 ^ 31) mod 2 ^ 32 < 2 ^ 32" by simp_all
  then show ?thesis by (simp add: to_signed_def)
qed

section \<open>Lists\<close>

text \<open>The last \<open>n\<close> elements, what a bounded tail of a stream keeps.\<close>

definition last_n :: "nat \<Rightarrow> 'a list \<Rightarrow> 'a list" where
  "last_n n xs = drop (length xs - n) xs"

lemma last_n_short: "length xs \<le> n \<Longrightarrow> last_n n xs = xs"
  by (simp add: last_n_def)

lemma length_last_n [simp]: "length (last_n n xs) = min n (length xs)"
  by (simp add: last_n_def)

lemma last_n_append_long: "n \<le> length ys \<Longrightarrow> last_n n (xs @ ys) = last_n n ys"
  by (simp add: last_n_def)

lemma last_n_append: "last_n n (last_n n xs @ ys) = last_n n (xs @ ys)"
proof (cases "n \<le> length ys")
  case True
  then show ?thesis by (simp add: last_n_append_long)
next
  case False
  then show ?thesis
    by (cases "length xs \<le> n") (auto simp: last_n_def min_def add.commute)
qed

lemma set_last_n: "set (last_n n xs) \<subseteq> set xs"
  by (auto simp: last_n_def dest: in_set_dropD)


section \<open>Concrete environments\<close>

text \<open>An environment in which nothing fails, used to evaluate concrete runs.\<close>

definition calm :: env where
  "calm = \<lparr>env_fault = \<lambda>_. None, env_rpc = \<lambda>_. None, env_now = \<lambda>_. ''2026-01-01 00:00:00''\<rparr>"

lemma fault_free_calm [simp]: "fault_free calm"
  by (simp add: fault_free_def calm_def)

lemma calm_simps [simp]:
  "env_fault calm t = None" "env_rpc calm t = None" "env_now calm t = ''2026-01-01 00:00:00''"
  by (simp_all add: calm_def)

lemma background_simp [simp]: "background t = None"
  by (simp add: background_def)

end
