(* ===== verification/StoreSpec.thy ===== *)
theory StoreSpec
  imports Prelude
begin

text \<open>
  The contract between the outbox and the table it spills to: counting, enqueueing and
  dropping the oldest rows, each of which may fail. The two ways the outbox makes room for
  a new row (\<open>submit\<close> and \<open>spillWithEviction\<close> in agent/internal/outbox/outbox.go) are
  written over the three operations, and their size bounds are proved from the contract.
\<close>

text \<open>
  The spilling branch of \<open>submit\<close>: count, evict the oldest rows when the table is at its
  cap, enqueue; any error stops.
\<close>

definition spill_strict ::
  "('db \<Rightarrow> int result \<times> 'db) \<Rightarrow> (int \<Rightarrow> 'db \<Rightarrow> int result \<times> 'db) \<Rightarrow>
   ('i \<Rightarrow> 'db \<Rightarrow> unit result \<times> 'db) \<Rightarrow> int \<Rightarrow> 'i \<Rightarrow> 'db \<Rightarrow> unit result \<times> 'db" where
  "spill_strict count evict enqueue cap item d =
    (case count d of
       (Inl er, d1) \<Rightarrow> (Inl (Wrap ''spill count'' er), d1)
     | (Inr n, d1) \<Rightarrow>
         (case (if cap \<le> n then evict (n - cap + 1) d1 else (Inr 0, d1)) of
            (Inl er, d2) \<Rightarrow> (Inl (Wrap ''spill evict'' er), d2)
          | (Inr _, d2) \<Rightarrow>
              (case enqueue item d2 of
                 (Inl er, d3) \<Rightarrow> (Inl (Wrap ''spill enqueue'' er), d3)
               | (Inr _, d3) \<Rightarrow> (Inr (), d3))))"

text \<open>
  \<open>spillWithEviction\<close>: the same steps, but a failed count or a failed eviction is only
  logged and the row is enqueued anyway.
\<close>

definition spill_best_effort ::
  "('db \<Rightarrow> int result \<times> 'db) \<Rightarrow> (int \<Rightarrow> 'db \<Rightarrow> int result \<times> 'db) \<Rightarrow>
   ('i \<Rightarrow> 'db \<Rightarrow> unit result \<times> 'db) \<Rightarrow> int \<Rightarrow> 'i \<Rightarrow> 'db \<Rightarrow> unit result \<times> 'db" where
  "spill_best_effort count evict enqueue cap item d =
    (case count d of
       (Inl er, d1) \<Rightarrow> enqueue item d1
     | (Inr n, d1) \<Rightarrow>
         (if cap \<le> n then enqueue item (snd (evict (n - cap + 1) d1))
          else enqueue item d1))"

locale bounded_store =
  fixes size_of :: "'db \<Rightarrow> nat"
    and wf :: "'db \<Rightarrow> bool"
    and count :: "'db \<Rightarrow> int result \<times> 'db"
    and evict :: "int \<Rightarrow> 'db \<Rightarrow> int result \<times> 'db"
    and enqueue :: "'i \<Rightarrow> 'db \<Rightarrow> unit result \<times> 'db"
  assumes count_value: "wf d \<Longrightarrow> count d = (Inr n, d') \<Longrightarrow> n = int (size_of d)"
    and count_size: "wf d \<Longrightarrow> size_of (snd (count d)) = size_of d"
    and count_wf: "wf d \<Longrightarrow> wf (snd (count d))"
    and evict_size: "wf d \<Longrightarrow> evict k d = (Inr n, d') \<Longrightarrow> size_of d' = size_of d - nat k"
    and evict_le: "wf d \<Longrightarrow> size_of (snd (evict k d)) \<le> size_of d"
    and evict_wf: "wf d \<Longrightarrow> wf (snd (evict k d))"
    and enqueue_size: "wf d \<Longrightarrow> enqueue i d = (Inr u, d') \<Longrightarrow> size_of d' = Suc (size_of d)"
    and enqueue_fail: "wf d \<Longrightarrow> enqueue i d = (Inl er, d') \<Longrightarrow> size_of d' = size_of d"
    and enqueue_wf: "wf d \<Longrightarrow> wf (snd (enqueue i d))"
begin

lemma enqueue_size_le: "wf d \<Longrightarrow> size_of (snd (enqueue i d)) \<le> Suc (size_of d)"
  by (cases "enqueue i d"; cases "fst (enqueue i d)") (auto dest: enqueue_size enqueue_fail)

lemma strict_wf:
  assumes "wf d" shows "wf (snd (spill_strict count evict enqueue cap item d))"
proof -
  obtain r1 d1 where c: "count d = (r1, d1)" by fastforce
  with assms count_wf have w1: "wf d1" by (metis snd_conv)
  obtain r2 d2 where e: "(case r1 of Inl _ \<Rightarrow> (Inr 0, d1) | Inr n \<Rightarrow>
      (if cap \<le> n then evict (n - cap + 1) d1 else (Inr 0, d1))) = (r2, d2)" by fastforce
  then have w2: "wf d2" using w1 evict_wf by (cases r1) (auto split: if_splits, metis snd_conv)
  obtain r3 d3 where q: "enqueue item d2 = (r3, d3)" by fastforce
  then have "wf d3" using w2 enqueue_wf by (metis snd_conv)
  with w1 w2 c e q show ?thesis
    by (cases r1; cases r2; cases r3) (auto simp: spill_strict_def)
qed

text \<open>
  The strict form never lets the table grow past its cap, whatever fails: a table at or
  under the cap stays there, a table over it never grows.
\<close>

lemma strict_bound:
  assumes w: "wf d" and cap: "1 \<le> cap"
  shows "int (size_of (snd (spill_strict count evict enqueue cap item d)))
           \<le> max cap (int (size_of d))"
proof -
  obtain r1 d1 where c: "count d = (r1, d1)" by fastforce
  with w count_wf count_size have w1: "wf d1" and s1: "size_of d1 = size_of d"
    by (metis snd_conv)+
  show ?thesis
  proof (cases r1)
    case (Inl er)
    with c s1 show ?thesis by (simp add: spill_strict_def)
  next
    case (Inr n)
    with c w count_value have n: "n = int (size_of d)" by blast
    show ?thesis
    proof (cases "cap \<le> n")
      case False
      obtain r3 d3 where q: "enqueue item d1 = (r3, d3)" by fastforce
      with w1 enqueue_size_le[of d1 item] have "size_of d3 \<le> Suc (size_of d1)" by simp
      with False n s1 c Inr q show ?thesis
        by (cases r3) (auto simp: spill_strict_def)
    next
      case True
      obtain r2 d2 where e: "evict (n - cap + 1) d1 = (r2, d2)" by fastforce
      with w1 evict_le evict_wf have l2: "size_of d2 \<le> size_of d1" and w2: "wf d2"
        by (metis snd_conv)+
      show ?thesis
      proof (cases r2)
        case (Inl er)
        with True e c Inr l2 s1 show ?thesis by (simp add: spill_strict_def)
      next
        case r2: (Inr k)
        with e w1 evict_size have "size_of d2 = size_of d1 - nat (n - cap + 1)" by blast
        moreover obtain r3 d3 where q: "enqueue item d2 = (r3, d3)" by fastforce
        moreover from q w2 enqueue_size_le[of d2 item] have "size_of d3 \<le> Suc (size_of d2)" by simp
        ultimately show ?thesis using True n s1 c Inr e r2 cap
          by (cases r3) (auto simp: spill_strict_def)
      qed
    qed
  qed
qed

lemma best_effort_wf:
  assumes "wf d" shows "wf (snd (spill_best_effort count evict enqueue cap item d))"
proof -
  obtain r1 d1 where c: "count d = (r1, d1)" by fastforce
  with assms count_wf have w1: "wf d1" by (metis snd_conv)
  with c show ?thesis
    by (cases r1) (auto simp: spill_best_effort_def enqueue_wf evict_wf)
qed

text \<open>The best-effort form may pass the cap when the count or the eviction fails, by one row.\<close>

lemma best_effort_le:
  assumes w: "wf d"
  shows "size_of (snd (spill_best_effort count evict enqueue cap item d)) \<le> Suc (size_of d)"
proof -
  obtain r1 d1 where c: "count d = (r1, d1)" by fastforce
  with w count_wf count_size have w1: "wf d1" and s1: "size_of d1 = size_of d"
    by (metis snd_conv)+
  have a: "size_of (snd (enqueue item d1)) \<le> Suc (size_of d)"
    using enqueue_size_le[OF w1] s1 by simp
  have b: "size_of (snd (enqueue item (snd (evict k d1)))) \<le> Suc (size_of d)" for k
    using enqueue_size_le[OF evict_wf[OF w1, of k], of item] evict_le[OF w1, of k] s1
    by linarith
  from c a b show ?thesis by (cases r1) (auto simp: spill_best_effort_def)
qed

text \<open>When neither fails it keeps the bound of the strict form.\<close>

lemma best_effort_bound:
  assumes w: "wf d" and cap: "1 \<le> cap"
    and c: "count d = (Inr n, d1)"
    and e: "cap \<le> n \<Longrightarrow> \<exists>k d2. evict (n - cap + 1) d1 = (Inr k, d2)"
  shows "int (size_of (snd (spill_best_effort count evict enqueue cap item d)))
           \<le> max cap (int (size_of d))"
proof -
  from c w count_wf count_size have w1: "wf d1" and s1: "size_of d1 = size_of d"
    by (metis snd_conv)+
  from c w count_value have n: "n = int (size_of d)" by blast
  show ?thesis
  proof (cases "cap \<le> n")
    case False
    with c n s1 enqueue_size_le[OF w1, of item] show ?thesis
      by (simp add: spill_best_effort_def)
  next
    case True
    then obtain k d2 where ev: "evict (n - cap + 1) d1 = (Inr k, d2)" using e by blast
    with w1 evict_size evict_wf have "size_of d2 = size_of d1 - nat (n - cap + 1)" and "wf d2"
      by (blast, metis snd_conv)
    with True c n s1 ev cap enqueue_size_le[of d2 item] show ?thesis
      by (simp add: spill_best_effort_def)
  qed
qed

end

end
