(* ===== verification/SpillDB.thy ===== *)
theory SpillDB
  imports StoreSpec "HOL-Library.Product_Lexorder"
begin

text \<open>
  The agent's SQLite database (agent/internal/database/db.go): the \<open>outbox_spill\<close> table,
  the operations on it, and the migration from the two legacy tables. A statement either
  takes effect as a whole or fails and leaves the rows as they were; which statements fail
  is the environment's choice.
\<close>

section \<open>Rows and the table\<close>

record spill_item =
  si_id :: string
  si_kind :: string
  si_payload :: string
  si_attempts :: nat
  si_last_error :: string
  si_created_at :: string

record spill_row =
  sr_id :: string
  sr_kind :: string
  sr_payload :: string
  sr_created_at :: string
  sr_attempts :: nat
  sr_last_error :: "string option"

record spill_db =
  sp_rows :: "spill_row list"
  sp_tick :: nat

type_synonym 'a spill_op = "spill_db \<Rightarrow> 'a result \<times> spill_db"

definition next_tick :: "spill_db \<Rightarrow> spill_db" where
  "next_tick d = d\<lparr>sp_tick := Suc (sp_tick d)\<rparr>"

lemma next_tick_simps [simp]:
  "sp_rows (next_tick d) = sp_rows d" "sp_tick (next_tick d) = Suc (sp_tick d)"
  by (simp_all add: next_tick_def)

text \<open>\<open>ORDER BY created_at ASC, id ASC\<close>.\<close>

definition row_key :: "spill_row \<Rightarrow> string \<times> string" where
  "row_key r = (sr_created_at r, sr_id r)"

definition oldest_first :: "spill_row list \<Rightarrow> spill_row list" where
  "oldest_first rs = sort_key row_key rs"

text \<open>SQLite's \<open>LIMIT n\<close>: a negative limit is no limit.\<close>

definition sql_limit :: "int \<Rightarrow> 'a list \<Rightarrow> 'a list" where
  "sql_limit n xs = (if n < 0 then xs else take (nat n) xs)"

definition delete_ids :: "string list \<Rightarrow> spill_row list \<Rightarrow> spill_row list" where
  "delete_ids ids rs = filter (\<lambda>r. sr_id r \<notin> set ids) rs"

text \<open>The primary key of \<open>outbox_spill\<close>.\<close>

definition spill_wf :: "spill_db \<Rightarrow> bool" where
  "spill_wf d \<longleftrightarrow> distinct (map sr_id (sp_rows d))"

section \<open>Operations\<close>

definition null_if_empty :: "string \<Rightarrow> string option" where
  "null_if_empty s = (if s = '''' then None else Some s)"

definition spill_enqueue :: "env \<Rightarrow> ctx \<Rightarrow> spill_item \<Rightarrow> unit spill_op" where
  "spill_enqueue e c item d =
    (case sql_outcome e c (sp_tick d) of
       Some er \<Rightarrow> (Inl (Wrap ''enqueue spill item'' er), next_tick d)
     | None \<Rightarrow>
         (if si_id item \<in> sr_id ` set (sp_rows d)
          then (Inl (Wrap ''enqueue spill item'' (Msg ''UNIQUE constraint failed'')), next_tick d)
          else (Inr (), (next_tick d)\<lparr>sp_rows := sp_rows d @
                 [\<lparr>sr_id = si_id item, sr_kind = si_kind item, sr_payload = si_payload item,
                   sr_created_at = env_now e (sp_tick d), sr_attempts = si_attempts item,
                   sr_last_error = null_if_empty (si_last_error item)\<rparr>]\<rparr>)))"

definition item_of_row :: "spill_row \<Rightarrow> spill_item" where
  "item_of_row r = \<lparr>si_id = sr_id r, si_kind = sr_kind r, si_payload = sr_payload r,
     si_attempts = sr_attempts r,
     si_last_error = (case sr_last_error r of None \<Rightarrow> '''' | Some s \<Rightarrow> s),
     si_created_at = sr_created_at r\<rparr>"

text \<open>
  One page after the cursor \<open>(afterCreatedAt, afterID)\<close>. The query and the iteration over
  its rows can each fail.
\<close>

definition after_cursor :: "string \<Rightarrow> string \<Rightarrow> spill_row \<Rightarrow> bool" where
  "after_cursor ac aid r \<longleftrightarrow> sr_created_at r > ac \<or> (sr_created_at r = ac \<and> sr_id r > aid)"

definition spill_page :: "env \<Rightarrow> ctx \<Rightarrow> int \<Rightarrow> string \<Rightarrow> string \<Rightarrow> spill_item list spill_op" where
  "spill_page e c limit afterCreatedAt afterID d =
    (case sql_outcome e c (sp_tick d) of
       Some er \<Rightarrow> (Inl (Wrap ''query spill page'' er), next_tick d)
     | None \<Rightarrow>
         (let found = (if afterID = '''' then oldest_first (sp_rows d)
                       else filter (after_cursor afterCreatedAt afterID) (oldest_first (sp_rows d)))
          in case sql_outcome e c (Suc (sp_tick d)) of
               Some er \<Rightarrow> (Inl (Wrap ''scan spill item'' er), next_tick (next_tick d))
             | None \<Rightarrow> (Inr (map item_of_row (sql_limit limit found)), next_tick (next_tick d))))"

definition spill_delete :: "env \<Rightarrow> ctx \<Rightarrow> string \<Rightarrow> unit spill_op" where
  "spill_delete e c rid d =
    (case sql_outcome e c (sp_tick d) of
       Some er \<Rightarrow> (Inl (Wrap ''delete spill item'' er), next_tick d)
     | None \<Rightarrow> (Inr (), (next_tick d)\<lparr>sp_rows := delete_ids [rid] (sp_rows d)\<rparr>))"

definition bump_attempts :: "string \<Rightarrow> string \<Rightarrow> spill_row \<Rightarrow> spill_row" where
  "bump_attempts rid msg r =
    (if sr_id r = rid then r\<lparr>sr_attempts := sr_attempts r + 1, sr_last_error := Some msg\<rparr> else r)"

definition spill_increment_attempts :: "env \<Rightarrow> ctx \<Rightarrow> string \<Rightarrow> string \<Rightarrow> unit spill_op" where
  "spill_increment_attempts e c rid lastError d =
    (case sql_outcome e c (sp_tick d) of
       Some er \<Rightarrow> (Inl (Wrap ''increment spill attempts'' er), next_tick d)
     | None \<Rightarrow> (Inr (), (next_tick d)\<lparr>sp_rows := map (bump_attempts rid lastError) (sp_rows d)\<rparr>))"

definition spill_count :: "env \<Rightarrow> ctx \<Rightarrow> int spill_op" where
  "spill_count e c d =
    (case sql_outcome e c (sp_tick d) of
       Some er \<Rightarrow> (Inl (Wrap ''count spill'' er), next_tick d)
     | None \<Rightarrow> (Inr (int (length (sp_rows d))), next_tick d))"

text \<open>\<open>DELETE\<close> returns the number of rows removed.\<close>

definition delete_rows :: "string list \<Rightarrow> spill_db \<Rightarrow> int result \<times> spill_db" where
  "delete_rows ids d =
    (let rs = delete_ids ids (sp_rows d)
     in (Inr (int (length (sp_rows d)) - int (length rs)), d\<lparr>sp_rows := rs\<rparr>))"

definition spill_prune_by_age :: "env \<Rightarrow> ctx \<Rightarrow> string \<Rightarrow> int spill_op" where
  "spill_prune_by_age e c cutoff d =
    (case sql_outcome e c (sp_tick d) of
       Some er \<Rightarrow> (Inl (Wrap ''prune spill by age'' er), next_tick d)
     | None \<Rightarrow>
         (let rs = filter (\<lambda>r. \<not> sr_created_at r < cutoff) (sp_rows d)
          in (Inr (int (length (sp_rows d)) - int (length rs)), (next_tick d)\<lparr>sp_rows := rs\<rparr>)))"

text \<open>\<open>ORDER BY created_at DESC, id DESC LIMIT -1 OFFSET keep\<close> selects all but the newest.\<close>

definition spill_prune_by_count :: "env \<Rightarrow> ctx \<Rightarrow> int \<Rightarrow> int spill_op" where
  "spill_prune_by_count e c keep0 d =
    (let keep = (if keep0 < 0 then 0 else keep0)
     in case sql_outcome e c (sp_tick d) of
          Some er \<Rightarrow> (Inl (Wrap ''prune spill by count'' er), next_tick d)
        | None \<Rightarrow> delete_rows (map sr_id (drop (nat keep) (rev (oldest_first (sp_rows d))))) (next_tick d))"

definition spill_delete_oldest :: "env \<Rightarrow> ctx \<Rightarrow> int \<Rightarrow> int spill_op" where
  "spill_delete_oldest e c n d =
    (if n \<le> 0 then (Inr 0, d)
     else case sql_outcome e c (sp_tick d) of
            Some er \<Rightarrow> (Inl (Wrap ''drop oldest spill rows'' er), next_tick d)
          | None \<Rightarrow> delete_rows (map sr_id (sql_limit n (oldest_first (sp_rows d)))) (next_tick d))"

definition spill_checkpoint :: "env \<Rightarrow> ctx \<Rightarrow> unit spill_op" where
  "spill_checkpoint e c d =
    (case sql_outcome e c (sp_tick d) of
       Some er \<Rightarrow> (Inl (Wrap ''wal checkpoint'' er), next_tick d)
     | None \<Rightarrow> (Inr (), next_tick d))"

section \<open>How the operations act on the table\<close>

lemma set_oldest_first [simp]: "set (oldest_first rs) = set rs"
  by (simp add: oldest_first_def)

lemma length_oldest_first [simp]: "length (oldest_first rs) = length rs"
  by (simp add: oldest_first_def)

lemma sorted_oldest_first: "sorted (map row_key (oldest_first rs))"
  by (simp add: oldest_first_def)

lemma distinct_oldest_first [simp]:
  "distinct (map sr_id (oldest_first rs)) = distinct (map sr_id rs)"
  by (simp add: oldest_first_def distinct_map)

lemma oldest_first_filter: "oldest_first (filter P rs) = filter P (oldest_first rs)"
  by (simp add: oldest_first_def filter_sort)

lemma set_delete_ids [simp]: "set (delete_ids ids rs) = {r \<in> set rs. sr_id r \<notin> set ids}"
  by (auto simp: delete_ids_def)

lemma distinct_delete_ids: "distinct (map sr_id rs) \<Longrightarrow> distinct (map sr_id (delete_ids ids rs))"
  by (auto simp: delete_ids_def distinct_map intro: inj_on_subset)

lemma oldest_first_delete_ids: "oldest_first (delete_ids ids rs) = delete_ids ids (oldest_first rs)"
  by (simp add: delete_ids_def oldest_first_filter)

lemma length_delete_ids:
  "length (delete_ids ids rs) = length (delete_ids ids (oldest_first rs))"
  by (metis length_oldest_first oldest_first_delete_ids)

lemma delete_ids_prefix:
  "distinct (map sr_id (xs @ ys)) \<Longrightarrow> delete_ids (map sr_id xs) (xs @ ys) = ys"
  by (auto simp: delete_ids_def filter_empty_conv intro!: filter_True)

lemma delete_ids_suffix:
  "distinct (map sr_id (xs @ ys)) \<Longrightarrow> delete_ids (map sr_id ys) (xs @ ys) = xs"
  by (auto simp: delete_ids_def filter_empty_conv intro!: filter_True)

lemma oldest_first_delete_oldest:
  assumes "distinct (map sr_id rs)" and "0 \<le> n"
  shows "oldest_first (delete_ids (map sr_id (sql_limit n (oldest_first rs))) rs)
           = drop (nat n) (oldest_first rs)"
proof -
  have "distinct (map sr_id (take (nat n) (oldest_first rs) @ drop (nat n) (oldest_first rs)))"
    using assms(1) by simp
  from delete_ids_prefix[OF this] assms(2) show ?thesis
    by (simp add: oldest_first_delete_ids sql_limit_def)
qed

lemma oldest_first_keep_newest:
  assumes "distinct (map sr_id rs)"
  shows "oldest_first (delete_ids (map sr_id (drop k (rev (oldest_first rs)))) rs)
           = last_n k (oldest_first rs)"
proof -
  let ?s = "oldest_first rs"
  let ?m = "length ?s - k"
  have "distinct (map sr_id (take ?m ?s @ drop ?m ?s))" using assms by simp
  note p = delete_ids_prefix[OF this]
  have "set (map sr_id (drop k (rev ?s))) = set (map sr_id (take ?m ?s))"
    by (simp add: drop_rev)
  then have "delete_ids (map sr_id (drop k (rev ?s))) ?s = delete_ids (map sr_id (take ?m ?s)) ?s"
    by (simp add: delete_ids_def)
  with p show ?thesis by (simp add: oldest_first_delete_ids last_n_def)
qed

section \<open>The table is a bounded store\<close>

lemma spill_wf_next_tick [simp]: "spill_wf (next_tick d) = spill_wf d"
  by (simp add: spill_wf_def)

lemma spill_enqueue_wf: "spill_wf d \<Longrightarrow> spill_wf (snd (spill_enqueue e c i d))"
  by (auto simp: spill_enqueue_def spill_wf_def split: option.splits)

lemma spill_delete_oldest_wf: "spill_wf d \<Longrightarrow> spill_wf (snd (spill_delete_oldest e c n d))"
  by (auto simp: spill_delete_oldest_def spill_wf_def delete_rows_def Let_def distinct_delete_ids
      split: option.splits)

lemma spill_delete_oldest_rows:
  assumes "spill_wf d" and "spill_delete_oldest e c n d = (Inr k, d')"
  shows "oldest_first (sp_rows d') = drop (nat n) (oldest_first (sp_rows d))"
  using assms oldest_first_delete_oldest[of "sp_rows d" n]
  by (auto simp: spill_delete_oldest_def spill_wf_def delete_rows_def Let_def
      split: if_splits option.splits)

lemma spill_delete_oldest_size:
  assumes "spill_wf d" and "spill_delete_oldest e c n d = (Inr k, d')"
  shows "length (sp_rows d') = length (sp_rows d) - nat n"
  using arg_cong[OF spill_delete_oldest_rows[OF assms], of length] by simp

lemma spill_delete_oldest_le: "length (sp_rows (snd (spill_delete_oldest e c n d))) \<le> length (sp_rows d)"
  by (auto simp: spill_delete_oldest_def delete_rows_def Let_def delete_ids_def split: option.splits)

interpretation agent_spill: bounded_store "\<lambda>d. length (sp_rows d)" spill_wf
  "spill_count e c" "spill_delete_oldest e c" "spill_enqueue e c" for e c
proof
  fix d n d' assume "spill_count e c d = (Inr n, d')"
  then show "n = int (length (sp_rows d))" by (auto simp: spill_count_def split: option.splits)
next
  fix d show "length (sp_rows (snd (spill_count e c d))) = length (sp_rows d)"
    by (auto simp: spill_count_def split: option.splits)
next
  fix d assume "spill_wf d" then show "spill_wf (snd (spill_count e c d))"
    by (auto simp: spill_count_def split: option.splits)
next
  fix d k n d' assume "spill_wf d" "spill_delete_oldest e c k d = (Inr n, d')"
  then show "length (sp_rows d') = length (sp_rows d) - nat k" by (rule spill_delete_oldest_size)
next
  fix d k show "length (sp_rows (snd (spill_delete_oldest e c k d))) \<le> length (sp_rows d)"
    by (rule spill_delete_oldest_le)
next
  fix d k assume "spill_wf d" then show "spill_wf (snd (spill_delete_oldest e c k d))"
    by (rule spill_delete_oldest_wf)
next
  fix d i and u :: unit and d' assume "spill_enqueue e c i d = (Inr u, d')"
  then show "length (sp_rows d') = Suc (length (sp_rows d))"
    by (auto simp: spill_enqueue_def split: option.splits if_splits)
next
  fix d i er d' assume "spill_enqueue e c i d = (Inl er, d')"
  then show "length (sp_rows d') = length (sp_rows d)"
    by (auto simp: spill_enqueue_def split: option.splits if_splits)
next
  fix d i assume "spill_wf d" then show "spill_wf (snd (spill_enqueue e c i d))"
    by (rule spill_enqueue_wf)
qed

section \<open>Properties\<close>

lemma sorted_take_drop_le:
  assumes "sorted (map f xs)" and "x \<in> set (take n xs)" and "y \<in> set (drop n xs)"
  shows "f x \<le> f y"
proof -
  have "sorted (map f (take n xs) @ map f (drop n xs))" using assms(1) by (simp flip: map_append)
  with assms(2,3) show ?thesis by (auto simp: sorted_append)
qed

text \<open>
  Dropping the oldest rows to make room removes exactly the \<open>n\<close> smallest rows in the order
  of \<open>(created_at, id)\<close>: what stays is the rest in the same order, and nothing that stays is
  older than anything that went.
\<close>

theorem eviction_drops_oldest:
  assumes "spill_wf d" and "spill_delete_oldest e c n d = (Inr k, d')"
  shows "oldest_first (sp_rows d') = drop (nat n) (oldest_first (sp_rows d)) \<and>
    (\<forall>r \<in> set (sp_rows d) - set (sp_rows d'). \<forall>s \<in> set (sp_rows d'). row_key r \<le> row_key s)"
proof -
  let ?o = "oldest_first (sp_rows d)"
  note o = spill_delete_oldest_rows[OF assms]
  have s': "set (sp_rows d') = set (drop (nat n) ?o)" by (metis o set_oldest_first)
  have "set (sp_rows d) = set (take (nat n) ?o) \<union> set (drop (nat n) ?o)"
    by (metis append_take_drop_id set_append set_oldest_first)
  with s' sorted_take_drop_le[OF sorted_oldest_first] o show ?thesis by blast
qed

definition example_row :: "string \<Rightarrow> string \<Rightarrow> spill_row" where
  "example_row i t = \<lparr>sr_id = i, sr_kind = ''job_report'', sr_payload = ''p'', sr_created_at = t,
     sr_attempts = 0, sr_last_error = None\<rparr>"

definition example_db :: spill_db where
  "example_db = \<lparr>sp_rows = [example_row ''b'' ''2'', example_row ''a'' ''1'', example_row ''c'' ''2''],
     sp_tick = 0\<rparr>"

theorem eviction_drops_oldest_witness:
  "\<exists>k d'. spill_delete_oldest calm background 2 example_db = (Inr k, d') \<and>
     oldest_first (sp_rows d') = [example_row ''c'' ''2'']"
proof -
  have w: "spill_wf example_db" by (simp add: spill_wf_def example_db_def example_row_def)
  obtain k d' where d: "spill_delete_oldest calm background 2 example_db = (Inr k, d')"
    by (simp add: spill_delete_oldest_def delete_rows_def Let_def)
  have "oldest_first (sp_rows example_db) =
      [example_row ''a'' ''1'', example_row ''b'' ''2'', example_row ''c'' ''2'']"
    by (simp add: oldest_first_def example_db_def example_row_def row_key_def)
  with eviction_drops_oldest[OF w d] d show ?thesis by simp
qed

end
