(* ===== verification/SpillMigrate.thy ===== *)
theory SpillMigrate
  imports SpillDB
begin

text \<open>
  Opening the agent's database file (\<open>Open\<close> and \<open>migrate\<close> in
  agent/internal/database/db.go): the pragmas, the schema, and the one-time move of the
  legacy \<open>buffered_reports\<close> rows into \<open>outbox_spill\<close>. The statements are not in one
  transaction, so every failure leaves the file as the statements before it made it.
\<close>

record legacy_row =
  lr_id :: string
  lr_payload :: string
  lr_created_at :: string
  lr_attempts :: nat
  lr_last_error :: "string option"

text \<open>The tables of the file; \<open>None\<close> is a table that does not exist.\<close>

record agent_file =
  af_spill :: "spill_row list option"
  af_index :: bool
  af_buffered :: "legacy_row list option"
  af_local_jobs :: "legacy_row list option"
  af_pragmas :: "string list"
  af_tick :: nat

definition af_step :: "env \<Rightarrow> string \<Rightarrow> (agent_file \<Rightarrow> agent_file) \<Rightarrow> agent_file \<Rightarrow> unit result \<times> agent_file" where
  "af_step e label f file =
    (case env_fault e (af_tick file) of
       Some er \<Rightarrow> (Inl (if label = '''' then er else Wrap label er), file\<lparr>af_tick := Suc (af_tick file)\<rparr>)
     | None \<Rightarrow> (Inr (), (f file)\<lparr>af_tick := Suc (af_tick file)\<rparr>))"

definition row_of_legacy :: "legacy_row \<Rightarrow> spill_row" where
  "row_of_legacy l = \<lparr>sr_id = lr_id l, sr_kind = ''job_report'', sr_payload = lr_payload l,
     sr_created_at = lr_created_at l, sr_attempts = lr_attempts l, sr_last_error = lr_last_error l\<rparr>"

text \<open>\<open>INSERT OR IGNORE\<close>: a row whose primary key is taken is skipped.\<close>

fun insert_or_ignore :: "spill_row list \<Rightarrow> spill_row list \<Rightarrow> spill_row list" where
  "insert_or_ignore rs [] = rs"
| "insert_or_ignore rs (x # xs) =
     insert_or_ignore (if sr_id x \<in> sr_id ` set rs then rs else rs @ [x]) xs"

definition create_spill :: "agent_file \<Rightarrow> agent_file" where
  "create_spill f = f\<lparr>af_spill := Some (case af_spill f of None \<Rightarrow> [] | Some rs \<Rightarrow> rs)\<rparr>"

definition create_index :: "agent_file \<Rightarrow> agent_file" where
  "create_index f = f\<lparr>af_index := True\<rparr>"

definition copy_buffered :: "agent_file \<Rightarrow> agent_file" where
  "copy_buffered f =
    (case (af_spill f, af_buffered f) of
       (Some rs, Some ls) \<Rightarrow> f\<lparr>af_spill := Some (insert_or_ignore rs (map row_of_legacy ls))\<rparr>
     | _ \<Rightarrow> f)"

definition drop_buffered :: "agent_file \<Rightarrow> agent_file" where
  "drop_buffered f = f\<lparr>af_buffered := None\<rparr>"

definition drop_local_jobs :: "agent_file \<Rightarrow> agent_file" where
  "drop_local_jobs f = f\<lparr>af_local_jobs := None\<rparr>"

definition af_table_exists :: "env \<Rightarrow> agent_file \<Rightarrow> bool result \<times> agent_file" where
  "af_table_exists e f =
    res_bind (af_step e ''checking table buffered_reports'' id f)
      (\<lambda>_ f1. (Inr (af_buffered f1 \<noteq> None), f1))"

text \<open>The one-time move, when the legacy table is there.\<close>

definition move_buffered :: "env \<Rightarrow> agent_file \<Rightarrow> unit result \<times> agent_file" where
  "move_buffered e f =
    res_bind (af_table_exists e f) (\<lambda>exists f1.
      if exists
      then res_bind (af_step e ''migrating buffered_reports'' copy_buffered f1) (\<lambda>_ f2.
             af_step e ''dropping buffered_reports'' drop_buffered f2)
      else (Inr (), f1))"

definition agent_migrate :: "env \<Rightarrow> agent_file \<Rightarrow> unit result \<times> agent_file" where
  "agent_migrate e f =
    res_bind (af_step e ''creating outbox_spill'' create_spill f) (\<lambda>_ f1.
    res_bind (af_step e ''creating outbox_spill index'' create_index f1) (\<lambda>_ f2.
    res_bind (move_buffered e f2) (\<lambda>_ f3.
    af_step e ''dropping local_jobs'' drop_local_jobs f3)))"

definition set_pragma :: "string \<Rightarrow> agent_file \<Rightarrow> agent_file" where
  "set_pragma p f = f\<lparr>af_pragmas := af_pragmas f @ [p]\<rparr>"

definition agent_open :: "env \<Rightarrow> agent_file \<Rightarrow> unit result \<times> agent_file" where
  "agent_open e f =
    res_bind (af_step e ''opening database'' id f) (\<lambda>_ f1.
    res_bind (af_step e ''setting WAL mode'' (set_pragma ''journal_mode=WAL'') f1) (\<lambda>_ f2.
    res_bind (af_step e ''setting busy timeout'' (set_pragma ''busy_timeout=5000'') f2) (\<lambda>_ f3.
    res_bind (af_step e ''setting synchronous mode'' (set_pragma ''synchronous=NORMAL'') f3) (\<lambda>_ f4.
    res_bind (af_step e ''enabling foreign keys'' (set_pragma ''foreign_keys=ON'') f4) (\<lambda>_ f5.
    (case agent_migrate e f5 of
       (Inl er, f6) \<Rightarrow> (Inl (Wrap ''running migrations'' er), f6)
     | (Inr _, f6) \<Rightarrow> (Inr (), f6)))))))"

section \<open>No report is lost by the migration\<close>

definition spilled :: "agent_file \<Rightarrow> spill_row list" where
  "spilled f = (case af_spill f of None \<Rightarrow> [] | Some rs \<Rightarrow> rs)"

definition buffered :: "agent_file \<Rightarrow> legacy_row list" where
  "buffered f = (case af_buffered f of None \<Rightarrow> [] | Some ls \<Rightarrow> ls)"

text \<open>The ids of the reports in the file, in either table.\<close>

definition report_ids :: "agent_file \<Rightarrow> string set" where
  "report_ids f = sr_id ` set (spilled f) \<union> lr_id ` set (buffered f)"

lemma spilled_update [simp]:
  "spilled (f\<lparr>af_tick := t\<rparr>) = spilled f" "buffered (f\<lparr>af_tick := t\<rparr>) = buffered f"
  "spilled (create_spill f) = spilled f" "buffered (create_spill f) = buffered f"
  "spilled (create_index f) = spilled f" "buffered (create_index f) = buffered f"
  "spilled (drop_local_jobs f) = spilled f" "buffered (drop_local_jobs f) = buffered f"
  "spilled (set_pragma p f) = spilled f" "buffered (set_pragma p f) = buffered f"
  "spilled (drop_buffered f) = spilled f" "buffered (drop_buffered f) = []"
  by (simp_all add: spilled_def buffered_def create_spill_def create_index_def
      drop_local_jobs_def set_pragma_def drop_buffered_def)

lemma af_spill_update [simp]:
  "af_spill (create_spill f) = Some (spilled f)"
  "af_spill (create_index f) = af_spill f" "af_spill (drop_local_jobs f) = af_spill f"
  "af_spill (set_pragma p f) = af_spill f" "af_spill (drop_buffered f) = af_spill f"
  by (simp_all add: spilled_def create_spill_def create_index_def drop_local_jobs_def
      set_pragma_def drop_buffered_def)

lemma af_spill_copy_buffered [simp]:
  "af_spill (copy_buffered f) = None \<longleftrightarrow> af_spill f = None"
  "(\<exists>y. af_spill (copy_buffered f) = Some y) \<longleftrightarrow> (\<exists>y. af_spill f = Some y)"
  by (auto simp: copy_buffered_def split: option.splits)

lemma buffered_empty: "af_buffered f = None \<Longrightarrow> buffered f = []"
  by (simp add: buffered_def)

lemma ids_insert_or_ignore:
  "sr_id ` set (insert_or_ignore rs xs) = sr_id ` set rs \<union> sr_id ` set xs"
  by (induction rs xs rule: insert_or_ignore.induct) auto

lemma insert_or_ignore_keeps: "set rs \<subseteq> set (insert_or_ignore rs xs)"
  by (induction rs xs rule: insert_or_ignore.induct) (auto split: if_splits)

lemma distinct_insert_or_ignore:
  "distinct (map sr_id rs) \<Longrightarrow> distinct (map sr_id (insert_or_ignore rs xs))"
  by (induction rs xs rule: insert_or_ignore.induct) auto

lemma sr_id_row_of_legacy [simp]: "sr_id (row_of_legacy l) = lr_id l"
  by (simp add: row_of_legacy_def)

lemma spilled_copy_buffered:
  "af_spill f \<noteq> None \<Longrightarrow>
     spilled (copy_buffered f) = insert_or_ignore (spilled f) (map row_of_legacy (buffered f))"
  by (auto simp: copy_buffered_def spilled_def buffered_def split: option.splits)

lemma buffered_copy_buffered [simp]: "buffered (copy_buffered f) = buffered f"
  by (auto simp: copy_buffered_def buffered_def split: option.splits)

text \<open>
  What every step keeps: no id leaves the file, no spilled row is changed or removed, and
  the primary key stays one.
\<close>

definition keeps :: "agent_file \<Rightarrow> agent_file \<Rightarrow> bool" where
  "keeps f0 f \<longleftrightarrow> report_ids f = report_ids f0 \<and> set (spilled f0) \<subseteq> set (spilled f)
     \<and> (distinct (map sr_id (spilled f0)) \<longrightarrow> distinct (map sr_id (spilled f)))
     \<and> (af_spill f0 \<noteq> None \<longrightarrow> af_spill f \<noteq> None)"

lemma keeps_refl [simp]: "keeps f f"
  by (simp add: keeps_def)

lemma keeps_trans: "keeps f g \<Longrightarrow> keeps g h \<Longrightarrow> keeps f h"
  unfolding keeps_def by (metis subset_trans)

lemma keeps_same:
  "spilled g = spilled f \<Longrightarrow> buffered g = buffered f \<Longrightarrow> (af_spill f \<noteq> None \<Longrightarrow> af_spill g \<noteq> None)
     \<Longrightarrow> keeps f g"
  by (simp add: keeps_def report_ids_def)

lemma keeps_tick [simp]:
  "keeps f (g\<lparr>af_tick := t\<rparr>) = keeps f g" "keeps (f\<lparr>af_tick := t\<rparr>) g = keeps f g"
  by (auto simp: keeps_def report_ids_def)

lemma keeps_plain [simp]:
  "keeps f (create_spill f)" "keeps f (create_index f)" "keeps f (drop_local_jobs f)"
  "keeps f (set_pragma p f)" "keeps f (id f)"
  by (rule keeps_same; simp)+

lemma keeps_copy_buffered: "af_spill f \<noteq> None \<Longrightarrow> keeps f (copy_buffered f)"
  using insert_or_ignore_keeps distinct_insert_or_ignore
  by (auto simp: keeps_def report_ids_def spilled_copy_buffered ids_insert_or_ignore image_image)

text \<open>After the copy every legacy id is also in the spill table, so dropping the legacy table
  loses nothing.\<close>

lemma keeps_drop_after_copy:
  "af_spill f \<noteq> None \<Longrightarrow> keeps (copy_buffered f) (drop_buffered ((copy_buffered f)\<lparr>af_tick := t\<rparr>))"
  by (auto simp: keeps_def report_ids_def spilled_copy_buffered ids_insert_or_ignore image_image)

lemma keeps_af_step: "keeps f (g f) \<Longrightarrow> keeps f (snd (af_step e label g f))"
  by (auto simp: af_step_def split: option.splits)

lemma af_step_Inr:
  "af_step e label g f = (Inr u, f') \<Longrightarrow> f' = (g f)\<lparr>af_tick := Suc (af_tick f)\<rparr>"
  by (auto simp: af_step_def split: option.splits)

lemma keeps_bind:
  assumes "keeps f (snd m)" and "\<And>x f1. m = (Inr x, f1) \<Longrightarrow> keeps f1 (snd (k x f1))"
  shows "keeps f (snd (res_bind m k))"
  using assms keeps_trans by (cases m; cases "fst m") (fastforce simp: res_bind_def)+

lemma af_table_exists_Inr:
  "af_table_exists e f = (Inr ex, f') \<Longrightarrow>
     f' = f\<lparr>af_tick := Suc (af_tick f)\<rparr> \<and> ex = (af_buffered f \<noteq> None)"
  by (auto simp: af_table_exists_def af_step_def split: option.splits)

lemma move_buffered_keeps:
  assumes "af_spill f \<noteq> None" shows "keeps f (snd (move_buffered e f))"
  unfolding move_buffered_def
proof (rule keeps_bind)
  show "keeps f (snd (af_table_exists e f))"
    by (auto simp: af_table_exists_def af_step_def split: option.splits)
next
  fix ex f1 assume "af_table_exists e f = (Inr ex, f1)"
  with assms have sp: "af_spill f1 \<noteq> None" by (auto dest!: af_table_exists_Inr)
  have "keeps f2 (drop_buffered f2)"
    if "af_step e a copy_buffered f1 = (Inr x, f2)" for a f2 and x :: unit
    using af_step_Inr[OF that] keeps_drop_after_copy[OF sp] by simp
  then show "keeps f1 (snd (if ex then res_bind (af_step e ''migrating buffered_reports'' copy_buffered f1)
      (\<lambda>_ f2. af_step e ''dropping buffered_reports'' drop_buffered f2) else (Inr (), f1)))"
    by (auto intro!: keeps_bind keeps_af_step keeps_copy_buffered[OF sp])
qed

lemma agent_migrate_keeps: "keeps f (snd (agent_migrate e f))"
  unfolding agent_migrate_def
proof (rule keeps_bind)
  fix x :: unit and f1 assume "af_step e ''creating outbox_spill'' create_spill f = (Inr x, f1)"
  then have sp: "af_spill f1 \<noteq> None" by (auto dest!: af_step_Inr)
  show "keeps f1 (snd (res_bind (af_step e ''creating outbox_spill index'' create_index f1)
      (\<lambda>_ f2. res_bind (move_buffered e f2)
      (\<lambda>_ f3. af_step e ''dropping local_jobs'' drop_local_jobs f3))))"
  proof (rule keeps_bind)
    fix x :: unit and f2 assume "af_step e ''creating outbox_spill index'' create_index f1 = (Inr x, f2)"
    with sp have "af_spill f2 \<noteq> None" by (auto dest!: af_step_Inr)
    then show "keeps f2 (snd (res_bind (move_buffered e f2)
        (\<lambda>_ f3. af_step e ''dropping local_jobs'' drop_local_jobs f3)))"
      by (intro keeps_bind move_buffered_keeps keeps_af_step keeps_plain)
  qed (simp add: keeps_af_step)
qed (simp add: keeps_af_step)

lemma agent_open_keeps: "keeps f (snd (agent_open e f))"
proof -
  have m: "keeps g (snd (case agent_migrate e g of
      (Inl er, f6) \<Rightarrow> (Inl (Wrap ''running migrations'' er), f6) | (Inr _, f6) \<Rightarrow> (Inr (), f6)))" for g
    using agent_migrate_keeps[of g e] by (auto split: prod.splits sum.splits)
  show ?thesis unfolding agent_open_def
    by (intro keeps_bind keeps_af_step m keeps_plain)
qed

lemma move_buffered_done:
  "move_buffered e f = (Inr u, f') \<Longrightarrow> buffered f' = []"
  by (cases "af_buffered f")
    (auto simp: move_buffered_def res_bind_def buffered_empty
      split: prod.splits sum.splits if_splits dest!: af_step_Inr af_table_exists_Inr)

lemma agent_migrate_done: "agent_migrate e f = (Inr u, f') \<Longrightarrow> buffered f' = []"
  by (auto simp: agent_migrate_def res_bind_def split: prod.splits sum.splits
      dest!: af_step_Inr move_buffered_done)

lemma agent_open_done:
  assumes "agent_open e f = (Inr u, f')" shows "buffered f' = []"
  using assms
  by (auto simp: agent_open_def res_bind_def split: prod.splits sum.splits dest: agent_migrate_done)

text \<open>Starting the agent again and again, each start in its own environment.\<close>

fun agent_restarts :: "env list \<Rightarrow> agent_file \<Rightarrow> agent_file" where
  "agent_restarts [] f = f"
| "agent_restarts (e # es) f = agent_restarts es (snd (agent_open e f))"

lemma agent_restarts_keeps: "keeps f (agent_restarts es f)"
proof (induction es arbitrary: f)
  case (Cons e es)
  then show ?case using agent_open_keeps keeps_trans by (metis agent_restarts.simps(2))
qed simp

section \<open>Properties\<close>


definition legacy_file :: agent_file where
  "legacy_file = \<lparr>af_spill = None, af_index = False,
     af_buffered = Some [\<lparr>lr_id = ''r1'', lr_payload = ''{}'', lr_created_at = ''2025'', lr_attempts = 3,
       lr_last_error = None\<rparr>], af_local_jobs = None, af_pragmas = [], af_tick = 0\<rparr>"

text \<open>An environment in which the ninth statement fails, after the copy and before the drop.\<close>

definition crash_at :: "nat \<Rightarrow> env" where
  "crash_at n = calm\<lparr>env_fault := \<lambda>t. if t = n then Some (Msg ''disk I/O error'') else None\<rparr>"


end
