(* ===== verification/Outbox.thy ===== *)
theory Outbox
  imports SpillMigrate
begin

text \<open>
  The agent's delivery queue (agent/internal/outbox/outbox.go): a bounded in-memory channel
  that spills to SQLite, one worker that drains both tiers, retries with backoff and drops
  an item after too many attempts, and a prune loop. The worker is a small-step machine, so
  that submissions, configuration pushes and prunes by other goroutines can come between any
  two of its deliveries.
\<close>

section \<open>Configuration\<close>

text \<open>Durations are nanoseconds.\<close>

abbreviation second :: int where
  "second \<equiv> 1000000000"

record outbox_config =
  oc_memory_max :: int
  oc_spill_max_rows :: int
  oc_spill_retention :: int
  oc_flush_interval :: int
  oc_delivery_timeout :: int
  oc_max_attempts :: int
  oc_backoff_initial :: int
  oc_backoff_max :: int
  oc_prune_interval :: int

definition or_default :: "int \<Rightarrow> int \<Rightarrow> int" where
  "or_default x d = (if x \<le> 0 then d else x)"

definition apply_defaults :: "outbox_config \<Rightarrow> outbox_config" where
  "apply_defaults c = \<lparr>
     oc_memory_max = or_default (oc_memory_max c) 2000,
     oc_spill_max_rows = or_default (oc_spill_max_rows c) 20000,
     oc_spill_retention = or_default (oc_spill_retention c) (7 * 24 * 3600 * second),
     oc_flush_interval = or_default (oc_flush_interval c) (60 * second),
     oc_delivery_timeout = or_default (oc_delivery_timeout c) (10 * second),
     oc_max_attempts = or_default (oc_max_attempts c) 10,
     oc_backoff_initial = or_default (oc_backoff_initial c) (1 * second),
     oc_backoff_max = or_default (oc_backoff_max c) (30 * second),
     oc_prune_interval = or_default (oc_prune_interval c) (24 * 3600 * second)\<rparr>"

definition zero_config :: outbox_config where
  "zero_config = \<lparr>oc_memory_max = 0, oc_spill_max_rows = 0, oc_spill_retention = 0,
     oc_flush_interval = 0, oc_delivery_timeout = 0, oc_max_attempts = 0,
     oc_backoff_initial = 0, oc_backoff_max = 0, oc_prune_interval = 0\<rparr>"

text \<open>The message \<open>OutboxConfig\<close> of the server, and its conversion in agent/cmd/agent/main.go.\<close>

record outbox_proto =
  op_spill_max_rows :: int
  op_spill_retention_secs :: int
  op_flush_interval_secs :: int
  op_delivery_timeout_secs :: int
  op_max_attempts :: int

definition positive_secs :: "int \<Rightarrow> int" where
  "positive_secs s = (if s > 0 then s * second else 0)"

definition outbox_config_from_proto :: "outbox_proto option \<Rightarrow> outbox_config" where
  "outbox_config_from_proto p =
    (case p of
       None \<Rightarrow> zero_config
     | Some q \<Rightarrow> zero_config\<lparr>
         oc_spill_max_rows := op_spill_max_rows q,
         oc_max_attempts := op_max_attempts q,
         oc_spill_retention := positive_secs (op_spill_retention_secs q),
         oc_flush_interval := positive_secs (op_flush_interval_secs q),
         oc_delivery_timeout := positive_secs (op_delivery_timeout_secs q)\<rparr>)"

section \<open>State\<close>

text \<open>
  The trace records the outcomes the code reports: an item handed to the server, given up,
  evicted or pruned from the table, or lost because the table would not take it.
\<close>

datatype ob_event =
    Tried string
  | Delivered string
  | Dropped string
  | Removed "string list"
  | Spilled string
  | SpillFailed string

record outbox =
  ob_cfg :: outbox_config
  ob_cap :: nat
  ob_mem :: "spill_item list"
  ob_db :: spill_db
  ob_flush :: bool
  ob_reload_flush :: bool
  ob_reload_prune :: bool
  ob_trace :: "ob_event list"
  ob_panic :: bool

definition outbox_new :: "spill_db \<Rightarrow> outbox_config \<Rightarrow> outbox" where
  "outbox_new db cfg0 =
    (let cfg = apply_defaults cfg0
     in \<lparr>ob_cfg = cfg, ob_cap = nat (oc_memory_max cfg), ob_mem = [], ob_db = db,
         ob_flush = False, ob_reload_flush = False, ob_reload_prune = False,
         ob_trace = [], ob_panic = False\<rparr>)"

definition update_config :: "outbox_config \<Rightarrow> outbox \<Rightarrow> outbox" where
  "update_config nxt b = b\<lparr>
     ob_cfg := apply_defaults (nxt\<lparr>oc_memory_max := oc_memory_max (ob_cfg b)\<rparr>),
     ob_reload_flush := True, ob_reload_prune := True\<rparr>"

definition flush_now :: "outbox \<Rightarrow> outbox" where
  "flush_now b = b\<lparr>ob_flush := True\<rparr>"

definition ob_log :: "ob_event \<Rightarrow> outbox \<Rightarrow> outbox" where
  "ob_log ev b = b\<lparr>ob_trace := ob_trace b @ [ev]\<rparr>"

text \<open>Running a table operation; the rows it removes are recorded.\<close>

definition removed_ids :: "spill_db \<Rightarrow> spill_db \<Rightarrow> string list" where
  "removed_ids d d' = filter (\<lambda>i. i \<notin> sr_id ` set (sp_rows d')) (map sr_id (sp_rows d))"

definition on_db :: "'a spill_op \<Rightarrow> outbox \<Rightarrow> 'a result \<times> outbox" where
  "on_db f b = (case f (ob_db b) of (r, d') \<Rightarrow>
     (r, b\<lparr>ob_db := d', ob_trace := ob_trace b @ [Removed (removed_ids (ob_db b) d')]\<rparr>))"

section \<open>Submitting\<close>

definition submit :: "env \<Rightarrow> ctx \<Rightarrow> spill_item \<Rightarrow> outbox \<Rightarrow> unit result \<times> outbox" where
  "submit e c item b =
    (if length (ob_mem b) < ob_cap b then (Inr (), b\<lparr>ob_mem := ob_mem b @ [item]\<rparr>)
     else on_db (spill_strict (spill_count e c) (spill_delete_oldest e c) (spill_enqueue e c)
                   (oc_spill_max_rows (ob_cfg b)) item) b)"

text \<open>\<open>proto.Marshal\<close> and the fresh id of \<open>uuid.NewString\<close> are parameters.\<close>

definition submit_report ::
  "('rep \<Rightarrow> string result) \<Rightarrow> env \<Rightarrow> ctx \<Rightarrow> string \<Rightarrow> 'rep \<Rightarrow> outbox \<Rightarrow> unit result \<times> outbox" where
  "submit_report marshal e c uuid report b =
    (case marshal report of
       Inl er \<Rightarrow> (Inl (Wrap ''marshal report'' er), b)
     | Inr payload \<Rightarrow> submit e c \<lparr>si_id = uuid, si_kind = ''job_report'', si_payload = payload,
         si_attempts = 0, si_last_error = '''', si_created_at = ''''\<rparr> b)"

definition spill_with_eviction :: "env \<Rightarrow> spill_item \<Rightarrow> outbox \<Rightarrow> outbox" where
  "spill_with_eviction e item b =
    (case on_db (spill_best_effort (spill_count e background) (spill_delete_oldest e background)
                   (spill_enqueue e background) (oc_spill_max_rows (ob_cfg b)) item) b of
       (Inl _, b') \<Rightarrow> ob_log (SpillFailed (si_id item)) b'
     | (Inr _, b') \<Rightarrow> ob_log (Spilled (si_id item)) b')"

section \<open>Delivering\<close>

text \<open>
  The two decoders of a payload (binary protobuf, and the JSON of migrated rows) are
  parameters; the call itself returns what the environment says.
\<close>

record 'rep codec =
  cd_proto :: "string \<Rightarrow> 'rep result"
  cd_json :: "string \<Rightarrow> 'rep result"

definition send :: "env \<Rightarrow> 'rep codec \<Rightarrow> spill_item \<Rightarrow> nat \<Rightarrow> go_error option" where
  "send e cd item t =
    (if si_kind item = ''job_report'' then
       (case cd_proto cd (si_payload item) of
          Inr _ \<Rightarrow> env_rpc e t
        | Inl _ \<Rightarrow>
            (case cd_json cd (si_payload item) of
               Inl er \<Rightarrow> Some (Wrap ''unmarshal report'' er)
             | Inr _ \<Rightarrow> env_rpc e t))
     else Some (Msg (''unsupported outbox kind: '' @ si_kind item)))"

text \<open>
  \<open>rand.Int64N\<close> panics on a bound that is not positive, which happens for a delay under
  four nanoseconds.
\<close>

definition backoff_delay :: "outbox_config \<Rightarrow> nat \<Rightarrow> int" where
  "backoff_delay cfg attempts =
    (let d = to_int64 (oc_backoff_initial cfg * 2 ^ min attempts 5)
     in if d > oc_backoff_max cfg then oc_backoff_max cfg else d)"

definition backoff_panics :: "outbox_config \<Rightarrow> nat \<Rightarrow> bool" where
  "backoff_panics cfg attempts \<longleftrightarrow> backoff_delay cfg attempts < 4"

definition tick_db :: "outbox \<Rightarrow> outbox" where
  "tick_db b = b\<lparr>ob_db := next_tick (ob_db b)\<rparr>"

definition backoff :: "nat \<Rightarrow> outbox \<Rightarrow> outbox" where
  "backoff attempts b =
    (tick_db b)\<lparr>ob_panic := ob_panic b \<or> backoff_panics (ob_cfg b) attempts\<rparr>"

definition deliver :: "env \<Rightarrow> 'rep codec \<Rightarrow> ctx \<Rightarrow> spill_item \<Rightarrow> bool \<Rightarrow> outbox \<Rightarrow> outbox" where
  "deliver e cd c item fromSpill b =
    (if oc_max_attempts (ob_cfg b) \<le> int (si_attempts item) then
       (let b1 = ob_log (Dropped (si_id item)) b
        in if fromSpill then snd (on_db (spill_delete e c (si_id item)) b1) else b1)
     else
       (let err = send e cd item (sp_tick (ob_db b));
            b1 = ob_log (Tried (si_id item)) (tick_db b)
        in case err of
             None \<Rightarrow>
               (let b2 = ob_log (Delivered (si_id item)) b1
                in if fromSpill then snd (on_db (spill_delete e c (si_id item)) b2) else b2)
           | Some er \<Rightarrow>
               (if is_canceled er then
                  (if \<not> fromSpill then spill_with_eviction e item b1 else b1)
                else if \<not> fromSpill then
                  (let item' = item\<lparr>si_attempts := si_attempts item + 1, si_last_error := error_text er\<rparr>
                   in backoff (si_attempts item') (spill_with_eviction e item' b1))
                else
                  backoff (si_attempts item)
                    (snd (on_db (spill_increment_attempts e c (si_id item) (error_text er)) b1)))))"

section \<open>The worker\<close>

definition page_size :: int where
  "page_size = 50"

text \<open>
  Where the worker is: draining the channel, about to read the page after a cursor, in the
  middle of a page, at the \<open>select\<close> of \<open>Run\<close>, or returned.
\<close>

datatype worker =
    W_mem
  | W_page string string
  | W_rows "spill_item list" string string
  | W_select
  | W_stopped

text \<open>One step of \<open>drainOnce\<close>; at the \<open>select\<close> the worker waits.\<close>

fun drain_step :: "env \<Rightarrow> 'rep codec \<Rightarrow> ctx \<Rightarrow> worker \<times> outbox \<Rightarrow> worker \<times> outbox" where
  "drain_step e cd c (W_mem, b) =
    (case ob_mem b of
       [] \<Rightarrow> (W_page '''' '''', b)
     | item # rest \<Rightarrow>
         (let b' = deliver e cd c item False (b\<lparr>ob_mem := rest\<rparr>)
          in if c (sp_tick (ob_db b')) \<noteq> None then (W_select, b') else (W_mem, b')))"
| "drain_step e cd c (W_page ac aid, b) =
    (if c (sp_tick (ob_db b)) \<noteq> None then (W_select, b)
     else case spill_page e c page_size ac aid (ob_db b) of
            (Inl _, d') \<Rightarrow> (W_select, b\<lparr>ob_db := d'\<rparr>)
          | (Inr items, d') \<Rightarrow>
              (if items = [] then (W_select, b\<lparr>ob_db := d'\<rparr>)
               else (W_rows items ac aid, b\<lparr>ob_db := d'\<rparr>)))"
| "drain_step e cd c (W_rows [] ac aid, b) = (W_page ac aid, b)"
| "drain_step e cd c (W_rows (it # its) ac aid, b) =
    (if c (sp_tick (ob_db b)) \<noteq> None then (W_select, b)
     else (W_rows its (si_created_at it) (si_id it), deliver e cd c it True b))"
| "drain_step e cd c (W_select, b) = (W_select, b)"
| "drain_step e cd c (W_stopped, b) = (W_stopped, b)"

text \<open>The ready cases of the \<open>select\<close> in \<open>Run\<close>; Go picks any ready one.\<close>

datatype select_case = Sel_done | Sel_ticker | Sel_flush | Sel_reload | Sel_item

fun select_ready :: "ctx \<Rightarrow> select_case \<Rightarrow> outbox \<Rightarrow> bool" where
  "select_ready c Sel_done b = (c (sp_tick (ob_db b)) \<noteq> None)"
| "select_ready c Sel_ticker b = True"
| "select_ready c Sel_flush b = ob_flush b"
| "select_ready c Sel_reload b = ob_reload_flush b"
| "select_ready c Sel_item b = (ob_mem b \<noteq> [])"

fun select_step :: "env \<Rightarrow> 'rep codec \<Rightarrow> ctx \<Rightarrow> select_case \<Rightarrow> outbox \<Rightarrow> worker \<times> outbox" where
  "select_step e cd c Sel_done b = (W_stopped, b)"
| "select_step e cd c Sel_ticker b = (W_mem, b)"
| "select_step e cd c Sel_flush b = (W_mem, b\<lparr>ob_flush := False\<rparr>)"
| "select_step e cd c Sel_reload b = (W_mem, b\<lparr>ob_reload_flush := False\<rparr>)"
| "select_step e cd c Sel_item b =
    (case ob_mem b of
       [] \<Rightarrow> (W_mem, b)
     | item # rest \<Rightarrow> (W_mem, deliver e cd c item False (b\<lparr>ob_mem := rest\<rparr>)))"

section \<open>The prune loop\<close>

text \<open>\<open>cutoff\<close> formats the present time less the retention; the clock is a parameter.\<close>

definition prune_once :: "env \<Rightarrow> ctx \<Rightarrow> (int \<Rightarrow> string) \<Rightarrow> outbox \<Rightarrow> outbox" where
  "prune_once e c cutoff b =
    (let b1 = snd (on_db (spill_prune_by_age e c (cutoff (oc_spill_retention (ob_cfg b)))) b);
         b2 = snd (on_db (spill_prune_by_count e c (oc_spill_max_rows (ob_cfg b))) b1)
     in snd (on_db (spill_checkpoint e c) b2))"

section \<open>The whole queue\<close>

text \<open>
  The actions of a run: a step of the worker, a ready case of its \<open>select\<close>, or an operation
  of another goroutine.
\<close>

datatype 'rep action =
    A_drain
  | A_select select_case
  | A_submit string 'rep
  | A_flush
  | A_update outbox_config
  | A_prune
  | A_prune_reload

definition ob_action ::
  "env \<Rightarrow> 'rep codec \<Rightarrow> ('rep \<Rightarrow> string result) \<Rightarrow> ctx \<Rightarrow> (int \<Rightarrow> string) \<Rightarrow> 'rep action \<Rightarrow>
   worker \<times> outbox \<Rightarrow> worker \<times> outbox" where
  "ob_action e cd marshal c cutoff a s =
    (case s of (w, b) \<Rightarrow>
      (case a of
         A_drain \<Rightarrow> drain_step e cd c (w, b)
       | A_select sc \<Rightarrow>
           (if w = W_select \<and> select_ready c sc b then select_step e cd c sc b else (w, b))
       | A_submit uuid rep \<Rightarrow> (w, snd (submit_report marshal e c uuid rep b))
       | A_flush \<Rightarrow> (w, flush_now b)
       | A_update nxt \<Rightarrow> (w, update_config nxt b)
       | A_prune \<Rightarrow> (w, prune_once e c cutoff b)
       | A_prune_reload \<Rightarrow> (w, b\<lparr>ob_reload_prune := False\<rparr>)))"

fun ob_run ::
  "env \<Rightarrow> 'rep codec \<Rightarrow> ('rep \<Rightarrow> string result) \<Rightarrow> ctx \<Rightarrow> (int \<Rightarrow> string) \<Rightarrow> 'rep action list \<Rightarrow>
   worker \<times> outbox \<Rightarrow> worker \<times> outbox" where
  "ob_run e cd marshal c cutoff [] s = s"
| "ob_run e cd marshal c cutoff (a # as) s =
     ob_run e cd marshal c cutoff as (ob_action e cd marshal c cutoff a s)"

section \<open>Nothing is lost without a trace\<close>

text \<open>
  An item is accounted for when it waits in memory or in the table, or when the trace says
  what became of it.
\<close>

fun ended_ids :: "ob_event \<Rightarrow> string set" where
  "ended_ids (Delivered i) = {i}"
| "ended_ids (Dropped i) = {i}"
| "ended_ids (Removed is) = set is"
| "ended_ids (SpillFailed i) = {i}"
| "ended_ids _ = {}"

definition held_ids :: "outbox \<Rightarrow> string set" where
  "held_ids b = si_id ` set (ob_mem b) \<union> sr_id ` set (sp_rows (ob_db b))"

definition accounted :: "outbox \<Rightarrow> string set" where
  "accounted b = held_ids b \<union> (\<Union>ev \<in> set (ob_trace b). ended_ids ev)"

lemma accounted_log [simp]: "accounted (ob_log ev b) = accounted b \<union> ended_ids ev"
  by (auto simp: accounted_def held_ids_def ob_log_def)

lemma accounted_tick_db [simp]: "accounted (tick_db b) = accounted b"
  by (simp add: accounted_def held_ids_def tick_db_def)

lemma accounted_flags [simp]:
  "accounted (b\<lparr>ob_panic := p\<rparr>) = accounted b" "accounted (b\<lparr>ob_flush := p\<rparr>) = accounted b"
  "accounted (b\<lparr>ob_reload_flush := p\<rparr>) = accounted b"
  "accounted (b\<lparr>ob_reload_prune := p\<rparr>) = accounted b"
  by (simp_all add: accounted_def held_ids_def)

lemma accounted_backoff [simp]: "accounted (backoff n b) = accounted b"
  by (simp add: backoff_def)

lemma accounted_on_db: "accounted b \<subseteq> accounted (snd (on_db f b))"
  by (auto simp: on_db_def accounted_def held_ids_def removed_ids_def split: prod.splits)

lemma on_db_frame:
  "ob_mem (snd (on_db f b)) = ob_mem b" "ob_cfg (snd (on_db f b)) = ob_cfg b"
  "ob_cap (snd (on_db f b)) = ob_cap b" "ob_panic (snd (on_db f b)) = ob_panic b"
  by (simp_all add: on_db_def split: prod.splits)

lemma spill_enqueue_Inr:
  "spill_enqueue e c item d = (Inr u, d') \<Longrightarrow> si_id item \<in> sr_id ` set (sp_rows d')"
  by (auto simp: spill_enqueue_def split: option.splits if_splits)

lemma spill_strict_Inr:
  "spill_strict (spill_count e c) (spill_delete_oldest e c) (spill_enqueue e c) cap item d = (Inr u, d')
     \<Longrightarrow> si_id item \<in> sr_id ` set (sp_rows d')"
  by (auto simp: spill_strict_def split: prod.splits sum.splits dest: spill_enqueue_Inr)

lemma spill_best_effort_Inr:
  "spill_best_effort (spill_count e c) (spill_delete_oldest e c) (spill_enqueue e c) cap item d = (Inr u, d')
     \<Longrightarrow> si_id item \<in> sr_id ` set (sp_rows d')"
  by (auto simp: spill_best_effort_def split: prod.splits sum.splits if_splits dest: spill_enqueue_Inr)

lemma accounted_spill_with_eviction:
  "insert (si_id item) (accounted b) \<subseteq> accounted (spill_with_eviction e item b)"
proof -
  let ?f = "spill_best_effort (spill_count e background) (spill_delete_oldest e background)
    (spill_enqueue e background) (oc_spill_max_rows (ob_cfg b)) item"
  have "si_id item \<in> accounted (snd (on_db ?f b))" if "fst (on_db ?f b) = Inr ()"
    using that by (auto simp: on_db_def accounted_def held_ids_def split: prod.splits
        dest!: spill_best_effort_Inr)
  with accounted_on_db[of b ?f] show ?thesis
    by (auto simp: spill_with_eviction_def split: prod.splits sum.splits)
qed

lemma spilled_item_accounted:
  "si_id item = i \<Longrightarrow> i \<in> accounted (spill_with_eviction e item b)"
  using accounted_spill_with_eviction by blast

lemma accounted_spill_mono: "i \<in> accounted b \<Longrightarrow> i \<in> accounted (spill_with_eviction e item b)"
  using accounted_spill_with_eviction by blast

lemma accounted_on_db_mono: "i \<in> accounted b \<Longrightarrow> i \<in> accounted (snd (on_db f b))"
  using accounted_on_db by blast

lemmas accounted_intros =
  spilled_item_accounted accounted_spill_mono accounted_on_db_mono

lemma accounted_deliver: "i \<in> accounted b \<Longrightarrow> i \<in> accounted (deliver e cd c item fromSpill b)"
  by (auto simp: deliver_def Let_def intro!: accounted_intros split: option.splits)

lemma accounted_deliver_mem: "si_id item \<in> accounted (deliver e cd c item False b)"
  by (auto simp: deliver_def Let_def intro!: spilled_item_accounted split: option.splits)

lemma accounted_pop:
  assumes "ob_mem b = item # rest" and "i \<in> accounted b"
  shows "i \<in> accounted (deliver e cd c item False (b\<lparr>ob_mem := rest\<rparr>))"
proof (cases "i = si_id item")
  case True then show ?thesis by (simp add: accounted_deliver_mem)
next
  case False
  with assms have "i \<in> accounted (b\<lparr>ob_mem := rest\<rparr>)"
    by (auto simp: accounted_def held_ids_def)
  then show ?thesis by (rule accounted_deliver)
qed

lemma accounted_db:
  "sp_rows d = sp_rows (ob_db b) \<Longrightarrow> accounted (b\<lparr>ob_db := d\<rparr>) = accounted b"
  by (simp add: accounted_def held_ids_def)

lemma spill_page_rows: "spill_page e c n ac aid d = (r, d') \<Longrightarrow> sp_rows d' = sp_rows d"
  by (auto simp: spill_page_def Let_def split: option.splits)

lemma accounted_drain_step:
  assumes "i \<in> accounted b" and "drain_step e cd c (w, b) = (w', b')"
  shows "i \<in> accounted b'"
proof (cases w)
  case W_mem
  with assms show ?thesis
    by (auto simp: Let_def intro: accounted_pop split: list.splits if_splits)
next
  case (W_page ac aid)
  with assms show ?thesis
    by (auto simp: accounted_db dest: spill_page_rows split: prod.splits sum.splits if_splits option.splits)
next
  case (W_rows its ac aid)
  with assms show ?thesis
    by (cases its) (auto intro: accounted_deliver split: if_splits)
qed (use assms in auto)

lemma accounted_select_step:
  assumes "i \<in> accounted b" and "select_step e cd c sc b = (w', b')"
  shows "i \<in> accounted b'"
  using assms by (cases sc) (auto intro: accounted_pop split: list.splits)

lemma accounted_submit: "i \<in> accounted b \<Longrightarrow> i \<in> accounted (snd (submit e c item b))"
  by (auto simp: submit_def intro: accounted_on_db_mono)
    (auto simp: accounted_def held_ids_def)

lemma accounted_submit_ok:
  assumes "submit e c item b = (Inr u, b')" shows "si_id item \<in> accounted b'"
  using assms
  by (auto simp: submit_def on_db_def accounted_def held_ids_def split: if_splits prod.splits
      dest: spill_strict_Inr)

lemma accounted_config [simp]:
  "accounted (update_config nxt b) = accounted b" "accounted (flush_now b) = accounted b"
  by (simp_all add: accounted_def held_ids_def update_config_def flush_now_def)

lemma accounted_submit_report:
  "i \<in> accounted b \<Longrightarrow> i \<in> accounted (snd (submit_report marshal e c uuid rep b))"
  by (auto simp: submit_report_def accounted_submit split: sum.splits)

lemma accounted_prune_once: "i \<in> accounted b \<Longrightarrow> i \<in> accounted (prune_once e c cutoff b)"
  unfolding prune_once_def Let_def by (intro accounted_on_db_mono)

lemma accounted_ob_action:
  assumes "i \<in> accounted b" and "ob_action e cd marshal c cutoff a (w, b) = (w', b')"
  shows "i \<in> accounted b'"
proof (cases a)
  case A_drain
  with assms show ?thesis by (auto simp: ob_action_def intro: accounted_drain_step)
next
  case (A_select sc)
  with assms show ?thesis by (auto simp: ob_action_def intro: accounted_select_step split: if_splits)
next
  case (A_submit uuid rep)
  with assms show ?thesis using accounted_submit_report by (fastforce simp: ob_action_def)
next
  case A_prune
  with assms show ?thesis by (auto simp: ob_action_def intro: accounted_prune_once)
qed (use assms in \<open>auto simp: ob_action_def\<close>)

lemma accounted_ob_run:
  "i \<in> accounted (snd s) \<Longrightarrow> i \<in> accounted (snd (ob_run e cd marshal c cutoff as s))"
proof (induction as arbitrary: s)
  case (Cons a as)
  obtain w b w' b' where s: "s = (w, b)" and a: "ob_action e cd marshal c cutoff a (w, b) = (w', b')"
    by (metis surj_pair)
  with Cons.prems have "i \<in> accounted b'" by (auto intro: accounted_ob_action)
  with Cons.IH[of "(w', b')"] s a show ?case by simp
qed simp

section \<open>The drain ends\<close>

text \<open>
  Rows after a cursor. Every page moves the cursor past at least one of them, and a delivery
  from the table never adds a row, so a drain reaches the \<open>select\<close> again. An empty id would
  restart the paging, so ids are not empty.
\<close>

definition rows_after :: "string \<Rightarrow> string \<Rightarrow> spill_row list \<Rightarrow> spill_row list" where
  "rows_after ac aid rs = (if aid = '''' then rs else filter (after_cursor ac aid) rs)"

definition ids_ok :: "spill_db \<Rightarrow> bool" where
  "ids_ok d \<longleftrightarrow> (\<forall>r \<in> set (sp_rows d). sr_id r \<noteq> '''')"

text \<open>A table whose rows are among those of another, up to the retry counters.\<close>

definition shrinks :: "spill_db \<Rightarrow> spill_db \<Rightarrow> bool" where
  "shrinks d d' \<longleftrightarrow> (\<exists>f P. sp_rows d' = map f (filter P (sp_rows d)) \<and> (\<forall>r. row_key (f r) = row_key r))"

lemma shrinks_refl: "sp_rows d' = sp_rows d \<Longrightarrow> shrinks d d'"
  unfolding shrinks_def by (intro exI[of _ id] exI[of _ "\<lambda>_. True"]) simp

lemma row_key_bump [simp]: "row_key (bump_attempts i m r) = row_key r"
  by (simp add: bump_attempts_def row_key_def)

lemma shrinks_delete: "shrinks d (snd (spill_delete e c i d))"
proof (cases "sql_outcome e c (sp_tick d)")
  case None
  then show ?thesis unfolding shrinks_def
    by (intro exI[of _ id] exI[of _ "\<lambda>r. sr_id r \<notin> set [i]"]) (simp add: spill_delete_def delete_ids_def)
qed (auto simp: spill_delete_def shrinks_refl)

lemma shrinks_increment: "shrinks d (snd (spill_increment_attempts e c i m d))"
proof (cases "sql_outcome e c (sp_tick d)")
  case None
  then show ?thesis unfolding shrinks_def
    by (intro exI[of _ "bump_attempts i m"] exI[of _ "\<lambda>_. True"])
      (simp add: spill_increment_attempts_def)
qed (auto simp: spill_increment_attempts_def shrinks_refl)

lemma ob_db_on_db [simp]: "ob_db (snd (on_db f b)) = snd (f (ob_db b))"
  by (simp add: on_db_def split: prod.splits)

lemma ob_db_log [simp]: "ob_db (ob_log ev b) = ob_db b"
  by (simp add: ob_log_def)

lemma ob_db_tick [simp]: "ob_db (tick_db b) = next_tick (ob_db b)"
  by (simp add: tick_db_def)

lemma ob_db_backoff [simp]: "ob_db (backoff n b) = next_tick (ob_db b)"
  by (simp add: backoff_def)

lemma shrinks_next_tick [simp]:
  "shrinks (next_tick d) d' = shrinks d d'" "shrinks d (next_tick d') = shrinks d d'"
  by (simp_all add: shrinks_def)

lemma shrinks_deliver: "shrinks (ob_db b) (ob_db (deliver e cd c item True b))"
  using shrinks_delete[of "next_tick (ob_db b)"] shrinks_increment[of "next_tick (ob_db b)"]
  by (auto simp: deliver_def Let_def shrinks_refl intro: shrinks_delete split: option.splits)

lemma rows_after_shrinks:
  assumes "shrinks d d'"
  shows "length (rows_after ac aid (sp_rows d')) \<le> length (rows_after ac aid (sp_rows d))"
proof -
  from assms obtain f P where r: "sp_rows d' = map f (filter P (sp_rows d))"
    and k: "\<And>r. row_key (f r) = row_key r" unfolding shrinks_def by blast
  have "after_cursor ac aid (f r) = after_cursor ac aid r" for r
    using k[of r] by (simp add: after_cursor_def row_key_def)
  then have "length (filter (after_cursor ac aid) (map f (filter P (sp_rows d))))
      = length (filter (after_cursor ac aid) (filter P (sp_rows d)))"
    by (simp add: filter_map o_def)
  also have "\<dots> = length (filter P (filter (after_cursor ac aid) (sp_rows d)))"
    by (simp add: conj_commute)
  also have "\<dots> \<le> length (filter (after_cursor ac aid) (sp_rows d))" by (rule length_filter_le)
  finally show ?thesis by (simp add: rows_after_def r)
qed

lemma ids_ok_shrinks: "ids_ok d \<Longrightarrow> shrinks d d' \<Longrightarrow> ids_ok d'"
  by (force simp: ids_ok_def shrinks_def row_key_def)

lemma ids_ok_enqueue:
  "ids_ok d \<Longrightarrow> si_id item \<noteq> '''' \<Longrightarrow> ids_ok (snd (spill_enqueue e c item d))"
  by (auto simp: spill_enqueue_def ids_ok_def split: option.splits)

lemma ids_ok_next_tick [simp]: "ids_ok (next_tick d) = ids_ok d"
  by (simp add: ids_ok_def)

lemma ids_ok_count: "ids_ok d \<Longrightarrow> ids_ok (snd (spill_count e c d))"
  by (simp add: spill_count_def split: option.splits)

lemma ids_ok_delete_oldest: "ids_ok d \<Longrightarrow> ids_ok (snd (spill_delete_oldest e c n d))"
  by (auto simp: spill_delete_oldest_def delete_rows_def Let_def ids_ok_def split: option.splits)

lemma ids_ok_best_effort:
  assumes "ids_ok d" and "si_id item \<noteq> ''''"
  shows "ids_ok (snd (spill_best_effort (spill_count e c) (spill_delete_oldest e c)
           (spill_enqueue e c) cap item d))"
proof -
  obtain r d1 where c: "spill_count e c d = (r, d1)" by fastforce
  with ids_ok_count[OF assms(1)] have "ids_ok d1" by (metis snd_conv)
  with c assms(2) show ?thesis
    by (cases r) (auto simp: spill_best_effort_def intro: ids_ok_enqueue ids_ok_delete_oldest)
qed

lemma ob_db_spill_with_eviction:
  "ob_db (spill_with_eviction e item b) = snd (spill_best_effort (spill_count e background)
     (spill_delete_oldest e background) (spill_enqueue e background)
     (oc_spill_max_rows (ob_cfg b)) item (ob_db b))"
  by (auto simp: spill_with_eviction_def on_db_def split: prod.splits sum.splits)

lemma ids_ok_deliver_mem:
  assumes "ids_ok (ob_db b)" and "si_id item \<noteq> ''''"
  shows "ids_ok (ob_db (deliver e cd c item False b))"
  using assms
  by (auto simp: deliver_def Let_def ob_db_spill_with_eviction intro!: ids_ok_best_effort
      split: option.splits)

lemma ob_mem_simps [simp]:
  "ob_mem (ob_log ev b) = ob_mem b" "ob_mem (tick_db b) = ob_mem b" "ob_mem (backoff n b) = ob_mem b"
  by (simp_all add: ob_log_def tick_db_def backoff_def)

lemma ob_mem_spill_with_eviction [simp]: "ob_mem (spill_with_eviction e item b) = ob_mem b"
  by (auto simp: spill_with_eviction_def on_db_def ob_log_def split: prod.splits sum.splits)

lemma ob_mem_deliver [simp]: "ob_mem (deliver e cd c item fs b) = ob_mem b"
  by (auto simp: deliver_def Let_def on_db_frame split: option.splits)

definition cursor_of :: "spill_item list \<Rightarrow> string \<Rightarrow> string \<Rightarrow> string \<times> string" where
  "cursor_of its ac aid = (if its = [] then (ac, aid) else (si_created_at (last its), si_id (last its)))"

fun drain_measure :: "worker \<times> outbox \<Rightarrow> nat \<times> nat \<times> nat" where
  "drain_measure (W_mem, b) = (2, length (ob_mem b), 0)"
| "drain_measure (W_page ac aid, b) = (1, length (rows_after ac aid (sp_rows (ob_db b))), 0)"
| "drain_measure (W_rows its ac aid, b) =
     (1, length (rows_after (fst (cursor_of its ac aid)) (snd (cursor_of its ac aid)) (sp_rows (ob_db b))),
      Suc (length its))"
| "drain_measure (_, b) = (0, 0, 0)"

fun drain_inv :: "worker \<times> outbox \<Rightarrow> bool" where
  "drain_inv (W_rows its ac aid, b) =
     (ids_ok (ob_db b) \<and> (\<forall>it \<in> set (ob_mem b) \<union> set its. si_id it \<noteq> ''''))"
| "drain_inv (_, b) = (ids_ok (ob_db b) \<and> (\<forall>it \<in> set (ob_mem b). si_id it \<noteq> ''''))"

abbreviation lex3 :: "((nat \<times> nat \<times> nat) \<times> (nat \<times> nat \<times> nat)) set" where
  "lex3 \<equiv> less_than <*lex*> less_than <*lex*> less_than"

lemma rows_after_page_less:
  assumes r: "r \<in> set (rows_after ac aid rs)" and "sr_id r \<noteq> ''''"
  shows "length (rows_after (sr_created_at r) (sr_id r) rs) < length (rows_after ac aid rs)"
proof -
  let ?Q = "after_cursor (sr_created_at r) (sr_id r)"
  have "filter ?Q rs = filter ?Q (rows_after ac aid rs)"
    using r by (auto simp: rows_after_def after_cursor_def intro!: filter_cong)
  moreover have "\<not> ?Q r" by (simp add: after_cursor_def)
  ultimately show ?thesis using assms length_filter_less[OF r] by (simp add: rows_after_def)
qed

lemma spill_page_Inr:
  assumes "spill_page e c n ac aid d = (Inr items, d')"
  shows "items = map item_of_row (sql_limit n (oldest_first (rows_after ac aid (sp_rows d))))"
  using assms
  by (auto simp: spill_page_def Let_def rows_after_def oldest_first_filter split: option.splits if_splits)

lemma set_sql_limit: "set (sql_limit n xs) \<subseteq> set xs"
  by (auto simp: sql_limit_def dest: in_set_takeD)

lemma item_of_row_key [simp]:
  "si_id (item_of_row r) = sr_id r" "si_created_at (item_of_row r) = sr_created_at r"
  by (simp_all add: item_of_row_def)

lemma rows_after_subset: "set (rows_after ac aid rs) \<subseteq> set rs"
  by (auto simp: rows_after_def)

lemma drain_page_decreases:
  assumes ok: "ids_ok (ob_db b)" and p: "spill_page e c page_size ac aid (ob_db b) = (Inr items, d')"
    and ne: "items \<noteq> []"
  shows "length (rows_after (fst (cursor_of items ac aid)) (snd (cursor_of items ac aid)) (sp_rows d'))
           < length (rows_after ac aid (sp_rows (ob_db b)))"
    and "\<forall>it \<in> set items. si_id it \<noteq> ''''"
proof -
  let ?rs = "sql_limit page_size (oldest_first (rows_after ac aid (sp_rows (ob_db b))))"
  have it: "items = map item_of_row ?rs" using spill_page_Inr[OF p] .
  have sub: "set ?rs \<subseteq> set (rows_after ac aid (sp_rows (ob_db b)))"
    using set_sql_limit[of page_size] by (metis set_oldest_first)
  have l: "last ?rs \<in> set (rows_after ac aid (sp_rows (ob_db b)))"
    using ne it sub last_in_set by (metis list.map_disc_iff subsetD)
  then have "sr_id (last ?rs) \<noteq> ''''" using ok by (meson ids_ok_def rows_after_subset subsetD)
  from rows_after_page_less[OF l this] ne it spill_page_rows[OF p]
  show "length (rows_after (fst (cursor_of items ac aid)) (snd (cursor_of items ac aid)) (sp_rows d'))
           < length (rows_after ac aid (sp_rows (ob_db b)))"
    by (simp add: cursor_of_def last_map)
  show "\<forall>it \<in> set items. si_id it \<noteq> ''''"
    using ok sub rows_after_subset it by (fastforce simp: ids_ok_def)
qed

lemma drain_step_progress:
  assumes inv: "drain_inv (w, b)" and run: "w \<noteq> W_select" "w \<noteq> W_stopped"
  shows "drain_inv (drain_step e cd c (w, b)) \<and>
         (drain_measure (drain_step e cd c (w, b)), drain_measure (w, b)) \<in> lex3"
proof (cases w)
  case W_mem
  show ?thesis
  proof (cases "ob_mem b")
    case Nil with W_mem inv show ?thesis by simp
  next
    case (Cons item rest)
    with W_mem inv have "ids_ok (ob_db (deliver e cd c item False (b\<lparr>ob_mem := rest\<rparr>)))"
      by (intro ids_ok_deliver_mem) auto
    with W_mem inv Cons show ?thesis by (auto simp: Let_def)
  qed
next
  case (W_page ac aid)
  obtain r d' where p: "spill_page e c page_size ac aid (ob_db b) = (r, d')" by fastforce
  then have d: "ids_ok d'" using inv W_page spill_page_rows by (auto simp: ids_ok_def)
  show ?thesis
  proof (cases r)
    case (Inl er) with W_page inv p d show ?thesis by simp
  next
    case (Inr items)
    with drain_page_decreases[of b e c ac aid items d'] W_page inv p d show ?thesis by auto
  qed
next
  case (W_rows its ac aid)
  show ?thesis
  proof (cases its)
    case Nil with W_rows inv show ?thesis by (simp add: cursor_of_def)
  next
    case (Cons it rest)
    let ?b' = "deliver e cd c it True b"
    have sh: "shrinks (ob_db b) (ob_db ?b')" by (rule shrinks_deliver)
    have "cursor_of rest (si_created_at it) (si_id it) = cursor_of its ac aid"
      using Cons by (simp add: cursor_of_def)
    with W_rows inv Cons sh show ?thesis
      using ids_ok_shrinks[OF _ sh] rows_after_shrinks[OF sh] by (auto simp: le_less)
  qed
qed (use run in auto)

text \<open>Iterating the worker.\<close>

fun drain_steps :: "env \<Rightarrow> 'rep codec \<Rightarrow> ctx \<Rightarrow> nat \<Rightarrow> worker \<times> outbox \<Rightarrow> worker \<times> outbox" where
  "drain_steps e cd c 0 s = s"
| "drain_steps e cd c (Suc n) s = drain_steps e cd c n (drain_step e cd c s)"

lemma wf_drain: "wf (inv_image lex3 drain_measure)"
  by auto

lemma drain_terminates:
  "drain_inv s \<Longrightarrow> \<exists>n. fst (drain_steps e cd c n s) \<in> {W_select, W_stopped}"
proof (induction s rule: wf_induct_rule[OF wf_drain])
  case (1 s)
  obtain w b where s: "s = (w, b)" by fastforce
  show ?case
  proof (cases "w \<in> {W_select, W_stopped}")
    case True with s show ?thesis by (intro exI[of _ 0]) simp
  next
    case False
    with drain_step_progress[of w b e cd c] "1.prems" s
    have "drain_inv (drain_step e cd c s)"
      "(drain_measure (drain_step e cd c s), drain_measure s) \<in> lex3" by auto
    then have "\<exists>n. fst (drain_steps e cd c n (drain_step e cd c s)) \<in> {W_select, W_stopped}"
      by (intro "1.IH") (simp_all only: in_inv_image)
    then obtain n where "fst (drain_steps e cd c n (drain_step e cd c s)) \<in> {W_select, W_stopped}" ..
    then show ?thesis by (intro exI[of _ "Suc n"]) simp
  qed
qed

section \<open>Bounds\<close>

lemma backoff_delay_default:
  assumes "oc_backoff_initial cfg = second" and "oc_backoff_max cfg = 30 * second"
  shows "second \<le> backoff_delay cfg n \<and> backoff_delay cfg n \<le> 30 * second"
proof -
  have "(2::int) ^ min n 5 \<le> 32"
    using power_increasing[of "min n 5" 5 "2::int"] by auto
  then obtain x where x: "(2::int) ^ min n 5 = x" and b: "1 \<le> x" "x \<le> 32" by auto
  from b have "to_int64 (second * x) = second * x"
    by (intro to_int64_id) auto
  with b assms show ?thesis by (auto simp: backoff_delay_def Let_def x)
qed

definition safe_backoff :: "outbox \<Rightarrow> bool" where
  "safe_backoff b \<longleftrightarrow> oc_backoff_initial (ob_cfg b) = second
     \<and> oc_backoff_max (ob_cfg b) = 30 * second \<and> \<not> ob_panic b"

lemma safe_backoff_backoff: "safe_backoff b \<Longrightarrow> safe_backoff (backoff n b)"
  using backoff_delay_default[of "ob_cfg b" n]
  by (auto simp: safe_backoff_def backoff_def tick_db_def backoff_panics_def)

lemma safe_backoff_simps [simp]:
  "safe_backoff (ob_log ev b) = safe_backoff b" "safe_backoff (tick_db b) = safe_backoff b"
  "safe_backoff (snd (on_db f b)) = safe_backoff b" "safe_backoff (b\<lparr>ob_mem := m\<rparr>) = safe_backoff b"
  "safe_backoff (b\<lparr>ob_db := d\<rparr>) = safe_backoff b" "safe_backoff (b\<lparr>ob_flush := p\<rparr>) = safe_backoff b"
  "safe_backoff (b\<lparr>ob_reload_flush := p\<rparr>) = safe_backoff b"
  "safe_backoff (b\<lparr>ob_reload_prune := p\<rparr>) = safe_backoff b"
  by (simp_all add: safe_backoff_def ob_log_def tick_db_def on_db_frame)

lemma safe_backoff_spill [simp]: "safe_backoff (spill_with_eviction e item b) = safe_backoff b"
  by (simp add: spill_with_eviction_def on_db_def safe_backoff_def ob_log_def split: prod.splits sum.splits)

lemma safe_backoff_deliver: "safe_backoff b \<Longrightarrow> safe_backoff (deliver e cd c item fs b)"
  by (auto simp: deliver_def Let_def intro!: safe_backoff_backoff split: option.splits)

lemma safe_backoff_drain_step:
  "safe_backoff b \<Longrightarrow> safe_backoff (snd (drain_step e cd c (w, b)))"
proof (cases w)
  case (W_rows its ac aid)
  then show "safe_backoff b \<Longrightarrow> ?thesis" by (cases its) (auto intro: safe_backoff_deliver)
qed (auto simp: Let_def intro: safe_backoff_deliver split: list.splits prod.splits sum.splits)

lemma safe_backoff_action:
  assumes "safe_backoff b" and "\<And>cfg. a = A_update cfg \<Longrightarrow> cfg = outbox_config_from_proto p"
  shows "safe_backoff (snd (ob_action e cd marshal c cutoff a (w, b)))"
proof (cases a)
  case A_drain with assms show ?thesis by (simp add: ob_action_def safe_backoff_drain_step)
next
  case (A_select sc)
  with assms show ?thesis
    by (cases sc) (auto simp: ob_action_def intro: safe_backoff_deliver split: list.splits)
next
  case (A_submit u r)
  with assms show ?thesis by (auto simp: ob_action_def submit_report_def submit_def split: sum.splits)
next
  case (A_update cfg)
  with assms show ?thesis
    by (auto simp: ob_action_def update_config_def apply_defaults_def or_default_def safe_backoff_def
        outbox_config_from_proto_def zero_config_def split: option.splits)
qed (use assms in \<open>auto simp: ob_action_def flush_now_def prune_once_def Let_def\<close>)

lemma safe_backoff_new: "safe_backoff (outbox_new db (zero_config\<lparr>oc_memory_max := m\<rparr>))"
  by (simp add: safe_backoff_def outbox_new_def Let_def apply_defaults_def or_default_def zero_config_def)

definition server_update :: "'rep action \<Rightarrow> bool" where
  "server_update a \<longleftrightarrow> (case a of A_update cfg \<Rightarrow> \<exists>p. cfg = outbox_config_from_proto p | _ \<Rightarrow> True)"

lemma safe_backoff_run:
  "safe_backoff (snd s) \<Longrightarrow> list_all server_update as \<Longrightarrow>
     safe_backoff (snd (ob_run e cd marshal c cutoff as s))"
proof (induction as arbitrary: s)
  case (Cons a as)
  obtain w b where s: "s = (w, b)" by fastforce
  from Cons.prems obtain p where "\<And>cfg. a = A_update cfg \<Longrightarrow> cfg = outbox_config_from_proto p"
    by (cases a) (auto simp: server_update_def)
  with Cons.prems s have "safe_backoff (snd (ob_action e cd marshal c cutoff a s))"
    using safe_backoff_action[of b a p] by simp
  with Cons show ?case by simp
qed simp

section \<open>Pruning\<close>

lemma spill_prune_by_count_rows:
  assumes "spill_wf d" and "spill_prune_by_count e c k d = (Inr n, d')"
  shows "oldest_first (sp_rows d') = last_n (nat k) (oldest_first (sp_rows d))"
  using assms oldest_first_keep_newest[of "sp_rows d" "nat k"]
  by (auto simp: spill_prune_by_count_def Let_def delete_rows_def spill_wf_def
      split: option.splits if_splits)

lemma spill_prune_by_age_rows:
  assumes "spill_prune_by_age e c cutoff d = (Inr n, d')"
  shows "sp_rows d' = filter (\<lambda>r. \<not> sr_created_at r < cutoff) (sp_rows d)"
  using assms by (auto simp: spill_prune_by_age_def Let_def split: option.splits)

lemma spill_wf_filter: "spill_wf d \<Longrightarrow> sp_rows d' = filter P (sp_rows d) \<Longrightarrow> spill_wf d'"
  by (auto simp: spill_wf_def distinct_map intro: inj_on_subset)

lemma on_db_Inr_fault_free:
  assumes "fault_free e"
  shows "\<exists>n d'. spill_prune_by_age e background cutoff d = (Inr n, d')"
    and "\<exists>n d'. spill_prune_by_count e background k d = (Inr n, d')"
    and "sp_rows (snd (spill_checkpoint e background d)) = sp_rows d"
  using assms
  by (simp_all add: spill_prune_by_age_def spill_prune_by_count_def spill_checkpoint_def Let_def
      delete_rows_def)

lemma prune_once_rows:
  assumes "fault_free e" and "spill_wf (ob_db b)"
  shows "oldest_first (sp_rows (ob_db (prune_once e background cutoff b)))
    = last_n (nat (oc_spill_max_rows (ob_cfg b)))
        (filter (\<lambda>r. \<not> sr_created_at r < cutoff (oc_spill_retention (ob_cfg b)))
          (oldest_first (sp_rows (ob_db b))))"
proof -
  obtain n1 d1 where 1: "spill_prune_by_age e background (cutoff (oc_spill_retention (ob_cfg b))) (ob_db b)
      = (Inr n1, d1)" using on_db_Inr_fault_free[OF assms(1)] by blast
  note r1 = spill_prune_by_age_rows[OF 1]
  have w1: "spill_wf d1" using assms(2) r1 by (rule spill_wf_filter)
  obtain n2 d2 where 2: "spill_prune_by_count e background (oc_spill_max_rows (ob_cfg b)) d1 = (Inr n2, d2)"
    using on_db_Inr_fault_free[OF assms(1)] by blast
  note r2 = spill_prune_by_count_rows[OF w1 2]
  have "ob_db (prune_once e background cutoff b) = snd (spill_checkpoint e background d2)"
    using 1 2 by (simp add: prune_once_def Let_def on_db_frame)
  then show ?thesis
    using on_db_Inr_fault_free(3)[OF assms(1)] r1 r2 by (simp add: oldest_first_filter)
qed

section \<open>Properties\<close>

definition example_item :: "string \<Rightarrow> spill_item" where
  "example_item i = \<lparr>si_id = i, si_kind = ''job_report'', si_payload = ''p'', si_attempts = 0,
     si_last_error = '''', si_created_at = ''''\<rparr>"

definition example_codec :: "string codec" where
  "example_codec = \<lparr>cd_proto = \<lambda>p. Inr p, cd_json = \<lambda>_. Inl (Msg ''not json'')\<rparr>"

definition example_outbox :: outbox where
  "example_outbox = outbox_new example_db (zero_config\<lparr>oc_memory_max := 1\<rparr>)"





text \<open>
  C36. A drain ends: from any point of \<open>drainOnce\<close>, however deliveries turn out and however many
  rows fail again, the worker comes back to the \<open>select\<close> of \<open>Run\<close> (no row is visited twice in
  one drain, because the page cursor only moves forward). Ids are not empty, as the code's ids
  are UUIDs.
\<close>

theorem drain_returns_to_select:
  assumes "drain_inv (w, b)"
  shows "\<exists>n. fst (drain_steps e cd c n (w, b)) \<in> {W_select, W_stopped}"
  using assms by (rule drain_terminates)

theorem drain_returns_to_select_witness:
  "\<exists>n. fst (drain_steps (calm\<lparr>env_rpc := \<lambda>_. Some (Msg ''unavailable'')\<rparr>) example_codec background n
      (W_mem, example_outbox)) \<in> {W_select, W_stopped}"
  by (rule drain_returns_to_select)
    (simp add: example_outbox_def outbox_new_def Let_def ids_ok_def example_db_def example_row_def)

text \<open>
  The backoff never panics in production: an outbox made as main.go makes it (only the
  memory size set) and reconfigured only through \<open>outboxConfigFromProto\<close> always draws its
  jitter from a positive bound, in every run.
\<close>

theorem backoff_never_panics:
  assumes "list_all server_update as"
  shows "\<not> ob_panic (snd (ob_run e cd marshal c cutoff as
           (W_mem, outbox_new db (zero_config\<lparr>oc_memory_max := m\<rparr>))))"
  using safe_backoff_run[OF _ assms] safe_backoff_new by (fastforce simp: safe_backoff_def)

theorem backoff_never_panics_witness:
  "\<not> ob_panic (snd (ob_run (calm\<lparr>env_rpc := \<lambda>_. Some (Msg ''unavailable'')\<rparr>) example_codec Inr background
      (\<lambda>_. '''') [A_submit ''u'' ''p'', A_update (outbox_config_from_proto None), A_drain]
      (W_mem, outbox_new example_db (zero_config\<lparr>oc_memory_max := 5\<rparr>))))"
  by (rule backoff_never_panics) (auto simp: server_update_def)

text \<open>
  A prune with no failing statement leaves exactly the newest rows that are within the
  retention, at most as many as the cap.
\<close>

theorem prune_keeps_newest:
  assumes "fault_free e" and "spill_wf (ob_db b)"
  shows "oldest_first (sp_rows (ob_db (prune_once e background cutoff b)))
      = last_n (nat (oc_spill_max_rows (ob_cfg b)))
          (filter (\<lambda>r. \<not> sr_created_at r < cutoff (oc_spill_retention (ob_cfg b)))
            (oldest_first (sp_rows (ob_db b))))
    \<and> length (sp_rows (ob_db (prune_once e background cutoff b)))
        \<le> nat (oc_spill_max_rows (ob_cfg b))"
proof -
  note r = prune_once_rows[OF assms, of cutoff]
  have "length (oldest_first (sp_rows (ob_db (prune_once e background cutoff b))))
      \<le> nat (oc_spill_max_rows (ob_cfg b))"
    unfolding r by simp
  then have "length (sp_rows (ob_db (prune_once e background cutoff b)))
      \<le> nat (oc_spill_max_rows (ob_cfg b))" by simp
  with r show ?thesis by (rule conjI)
qed

theorem prune_keeps_newest_witness:
  "length (sp_rows (ob_db (prune_once calm background (\<lambda>_. ''2'')
      (example_outbox\<lparr>ob_cfg := (ob_cfg example_outbox)\<lparr>oc_spill_max_rows := 1\<rparr>\<rparr>)))) \<le> 1"
proof -
  let ?b = "example_outbox\<lparr>ob_cfg := (ob_cfg example_outbox)\<lparr>oc_spill_max_rows := 1\<rparr>\<rparr>"
  have "spill_wf (ob_db ?b)"
    by (simp add: spill_wf_def example_db_def example_row_def example_outbox_def outbox_new_def Let_def)
  from conjunct2[OF prune_keeps_newest[OF fault_free_calm this, of "\<lambda>_. ''2''"]] show ?thesis by simp
qed

text \<open>
  At shutdown the items still in the channel are not written to the table: when the context
  is cancelled, the worker handles one item, returns from the drain and stops, and everything
  behind it stays in memory, which ends with the process. (\<open>deliver\<close> persists the item in
  hand "so we retry next start"; the rest of the channel is lost.)
\<close>

theorem shutdown_leaves_memory:
  assumes "ob_mem b = it # rest" and "\<forall>t. c t \<noteq> None"
  shows "fst (ob_run e cd marshal c cutoff [A_drain, A_select Sel_done] (W_mem, b)) = W_stopped
    \<and> ob_mem (snd (ob_run e cd marshal c cutoff [A_drain, A_select Sel_done] (W_mem, b))) = rest"
  using assms by (simp add: ob_action_def Let_def)

theorem shutdown_leaves_memory_witness:
  "ob_mem (snd (ob_run calm example_codec Inr (\<lambda>_. Some Canceled) (\<lambda>_. '''') [A_drain, A_select Sel_done]
     (W_mem, example_outbox\<lparr>ob_mem := [example_item ''a'', example_item ''b'']\<rparr>))) = [example_item ''b'']"
  using shutdown_leaves_memory[of "example_outbox\<lparr>ob_mem := [example_item ''a'', example_item ''b'']\<rparr>"
      "example_item ''a''" "[example_item ''b'']" "\<lambda>_. Some Canceled" calm example_codec Inr "\<lambda>_. ''''"]
  by simp

end
