(* ===== verification/GoStrings.thy ===== *)
theory GoStrings
  imports Prelude
begin

text \<open>
  The functions of Go's strings and strconv packages the program uses, on byte strings, with
  the lemmas the components share.
\<close>

section \<open>Prefixes and occurrences\<close>

definition has_prefix :: "string \<Rightarrow> string \<Rightarrow> bool" where
  "has_prefix s p \<longleftrightarrow> take (length p) s = p"

definition has_suffix :: "string \<Rightarrow> string \<Rightarrow> bool" where
  "has_suffix s p \<longleftrightarrow> has_prefix (rev s) (rev p)"

fun contains :: "string \<Rightarrow> string \<Rightarrow> bool" where
  "contains [] p \<longleftrightarrow> p = []"
| "contains (c # s) p \<longleftrightarrow> has_prefix (c # s) p \<or> contains s p"

lemma has_prefix_iff: "has_prefix s p \<longleftrightarrow> (\<exists>r. s = p @ r)"
  unfolding has_prefix_def by (metis append_eq_conv_conj append_take_drop_id)

lemma has_prefix_simps [simp]:
  "has_prefix s []"
  "has_prefix [] (d # p) \<longleftrightarrow> False"
  "has_prefix (c # s) (d # p) \<longleftrightarrow> c = d \<and> has_prefix s p"
  by (auto simp: has_prefix_def)

lemma has_prefix_append [simp]: "has_prefix (p @ s) p"
  by (auto simp: has_prefix_iff)

lemma has_suffix_iff: "has_suffix s p \<longleftrightarrow> (\<exists>r. s = r @ p)"
  by (metis has_prefix_iff has_suffix_def rev_append rev_rev_ident)

lemma contains_iff: "contains s p \<longleftrightarrow> (\<exists>x y. s = x @ p @ y)"
proof (induction s)
  case (Cons c s)
  have "(\<exists>x y. c # s = x @ p @ y) \<longleftrightarrow> has_prefix (c # s) p \<or> (\<exists>x y. s = x @ p @ y)" (is "?l \<longleftrightarrow> ?r")
  proof
    assume ?l
    then obtain x y where "c # s = x @ p @ y" by blast
    then show ?r by (cases x) (auto simp: has_prefix_iff)
  next
    assume ?r
    then show ?l unfolding has_prefix_iff by (metis append_Cons append_Nil)
  qed
  with Cons show ?case by simp
qed simp

lemma contains_append_left [intro]: "contains s p \<Longrightarrow> contains (t @ s) p"
  unfolding contains_iff by (metis append.assoc)

lemma contains_append_right [intro]: "contains s p \<Longrightarrow> contains (s @ t) p"
  unfolding contains_iff by (metis append.assoc)

lemma contains_set: "contains s p \<Longrightarrow> set p \<subseteq> set s"
  by (auto simp: contains_iff)

lemma contains_Cons_other:
  assumes "c \<notin> set p" and "p \<noteq> []"
  shows "contains (c # s) p = contains s p"
  using assms by (cases p) auto

lemma contains_append_other:
  assumes "set t \<inter> set p = {}" and "p \<noteq> []"
  shows "contains (t @ s) p = contains s p"
  using assms(1) by (induction t) (auto simp: contains_Cons_other[OF _ assms(2)] simp del: contains.simps)

section \<open>Replacing and cutting\<close>

text \<open>\<open>strings.ReplaceAll\<close> with a non-empty old string; with an empty one the code returns first.\<close>

function replace_all :: "string \<Rightarrow> string \<Rightarrow> string \<Rightarrow> string" where
  "replace_all old new s =
    (if old = [] then s
     else case s of
       [] \<Rightarrow> []
     | c # cs \<Rightarrow> if has_prefix s old then new @ replace_all old new (drop (length old) s)
                 else c # replace_all old new cs)"
  by pat_completeness auto
termination by (relation "measure (\<lambda>(old, new, s). length s)") auto

declare replace_all.simps [simp del]

lemma replace_all_Nil [simp]: "replace_all old new [] = []"
  by (subst replace_all.simps) simp

lemma replace_all_match [simp]:
  "has_prefix s old \<Longrightarrow> old \<noteq> [] \<Longrightarrow> replace_all old new s = new @ replace_all old new (drop (length old) s)"
  by (subst replace_all.simps[of old new s], cases s) (auto simp: has_prefix_def)

lemma replace_all_other [simp]:
  assumes "\<not> has_prefix (c # s) old"
  shows "replace_all old new (c # s) = c # replace_all old new s"
proof -
  have "old \<noteq> []" using assms by (cases old) simp_all
  with assms show ?thesis using replace_all.simps[of old new "c # s"] by (simp del: replace_all_match)
qed

lemma replace_all_cases [case_names nil match other]:
  assumes "old \<noteq> []" and "P []"
    and "\<And>s. has_prefix s old \<Longrightarrow> P (drop (length old) s) \<Longrightarrow> P s"
    and "\<And>c s. \<not> has_prefix (c # s) old \<Longrightarrow> P s \<Longrightarrow> P (c # s)"
  shows "P s"
proof (induction "length s" arbitrary: s rule: less_induct)
  case less
  show ?case
  proof (cases s)
    case (Cons c t)
    show ?thesis
    proof (cases "has_prefix s old")
      case True
      have "length (drop (length old) s) < length s" using Cons assms(1) by simp
      then show ?thesis using assms(3) True less by blast
    next
      case False
      then show ?thesis using assms(4) less Cons by simp
    qed
  qed (simp add: assms(2))
qed

lemma replace_all_absent:
  assumes "\<not> contains s old"
  shows "replace_all old new s = s"
  using assms by (induction s) auto

text \<open>
  When the new string shares no character with the old one, no occurrence of the old string
  is left, and none is formed across the seams.
\<close>

lemma replace_all_prefix:
  assumes "old \<noteq> []" and "new \<noteq> []" and "set new \<inter> set p = {}"
    and "has_prefix (replace_all old new s) p"
  shows "has_prefix s p"
  using assms(3,4)
proof (induction s arbitrary: p rule: replace_all_cases[OF assms(1), consumes 0])
  case 1
  then show ?case by simp
next
  case (2 s)
  show ?case
  proof (cases p)
    case (Cons d q)
    with 2 assms show ?thesis by (cases new) auto
  qed simp
next
  case (3 c s)
  show ?case
  proof (cases p)
    case (Cons d q)
    with 3 show ?thesis by auto
  qed simp
qed

lemma replace_all_removes:
  assumes "old \<noteq> []" and "new \<noteq> []" and "set new \<inter> set old = {}"
  shows "\<not> contains (replace_all old new s) old"
proof (induction s rule: replace_all_cases[OF assms(1), consumes 0])
  case 1
  then show ?case using assms(1) by simp
next
  case (2 s)
  then show ?case using assms by (simp add: contains_append_other)
next
  case (3 c s)
  have "\<not> has_prefix (c # replace_all old new s) old"
  proof
    assume "has_prefix (c # replace_all old new s) old"
    with 3 have "has_prefix (replace_all old new (c # s)) old" by simp
    from replace_all_prefix[OF assms this] 3 show False by simp
  qed
  with 3 show ?case by simp
qed

text \<open>\<open>strings.Cut(s, sep)\<close> at a separator of one byte.\<close>

definition cut :: "string \<Rightarrow> char \<Rightarrow> string \<times> string \<times> bool" where
  "cut s c = (if c \<in> set s then (takeWhile (\<lambda>x. x \<noteq> c) s, tl (dropWhile (\<lambda>x. x \<noteq> c) s), True)
              else (s, [], False))"

fun join :: "string \<Rightarrow> string list \<Rightarrow> string" where
  "join sep [] = []"
| "join sep [x] = x"
| "join sep (x # y # xs) = x @ sep @ join sep (y # xs)"

text \<open>\<open>strings.Split(s, sep)\<close> at a separator of one byte.\<close>

fun split_on :: "char \<Rightarrow> string \<Rightarrow> string list" where
  "split_on c [] = [[]]"
| "split_on c (x # xs) =
    (if x = c then [] # split_on c xs
     else case split_on c xs of [] \<Rightarrow> [[x]] | y # ys \<Rightarrow> (x # y) # ys)"

lemma split_on_not_Nil [simp]: "split_on c s \<noteq> []"
  by (induction s) (auto split: list.split)

lemma join_split_on: "join [c] (split_on c s) = s"
proof (induction s)
  case (Cons x xs)
  obtain y ys where y: "split_on c xs = y # ys" by (cases "split_on c xs") auto
  show ?case using Cons y by (cases ys) auto
qed simp

section \<open>Case and white space\<close>

text \<open>
  \<open>strings.ToLower\<close> on ASCII letters. The two letters outside ASCII that Go lowers to an
  ASCII letter (the Kelvin sign and the capital I with a dot) keep their bytes here.
\<close>

definition lower_char :: "char \<Rightarrow> char" where
  "lower_char c = (let n = of_char c :: nat in if 65 \<le> n \<and> n \<le> 90 then char_of (n + 32) else c)"

definition to_lower :: "string \<Rightarrow> string" where
  "to_lower = map lower_char"

definition is_space :: "char \<Rightarrow> bool" where
  "is_space c \<longleftrightarrow> (let n = of_char c :: nat in n \<in> {9, 10, 11, 12, 13, 32})"

definition trim_space :: "string \<Rightarrow> string" where
  "trim_space s = rev (dropWhile is_space (rev (dropWhile is_space s)))"

lemma set_trim_space: "set (trim_space s) \<subseteq> set s"
  by (metis (no_types, lifting) set_dropWhileD set_rev subsetI trim_space_def)

section \<open>Decimal numbers\<close>

definition digit :: "nat \<Rightarrow> char" where
  "digit n = char_of (48 + n mod 10)"

fun show_nat :: "nat \<Rightarrow> string" where
  "show_nat n = (if n < 10 then [digit n] else show_nat (n div 10) @ [digit n])"

declare show_nat.simps [simp del]

definition show_int :: "int \<Rightarrow> string" where
  "show_int i = (if i < 0 then CHR ''-'' # show_nat (nat (- i)) else show_nat (nat i))"

lemma show_nat_ne [simp]: "show_nat n \<noteq> []"
  by (subst show_nat.simps) simp

lemma digit_inj: "digit m = digit n \<Longrightarrow> m mod 10 = n mod 10"
proof -
  assume "digit m = digit n"
  then have "(of_char (digit m) :: nat) = of_char (digit n)" by simp
  then have "(48 + m mod 10) mod 256 = (48 + n mod 10) mod 256"
    by (simp add: digit_def of_char_of)
  moreover have "m mod 10 < 10" "n mod 10 < 10" by simp_all
  ultimately show ?thesis by (simp add: mod_less)
qed

lemma show_nat_inj: "show_nat m = show_nat n \<Longrightarrow> m = n"
proof (induction m arbitrary: n rule: show_nat.induct)
  case (1 m)
  show ?case
  proof (cases "m < 10")
    case True
    have "show_nat m = [digit m]" using True by (subst show_nat.simps) simp
    with 1(2) have n: "show_nat n = [digit m]" by simp
    have "n < 10 \<and> digit n = digit m"
    proof (cases "n < 10")
      case True
      then have "show_nat n = [digit n]" by (subst show_nat.simps) simp
      with n True show ?thesis by simp
    next
      case False
      then have "show_nat n = show_nat (n div 10) @ [digit n]" by (subst show_nat.simps) simp
      with n show ?thesis by (simp add: append_eq_Cons_conv)
    qed
    then show ?thesis using True digit_inj[of n m] by simp
  next
    case False
    then have m: "show_nat m = show_nat (m div 10) @ [digit m]" by (subst show_nat.simps) simp
    have n: "\<not> n < 10"
    proof
      assume "n < 10"
      then have "show_nat n = [digit n]" by (subst show_nat.simps) simp
      with m 1(2) show False by (auto dest: sym)
    qed
    then have "show_nat n = show_nat (n div 10) @ [digit n]" by (subst show_nat.simps) simp
    with m 1(2) have "show_nat (m div 10) = show_nat (n div 10)" and "digit m = digit n" by simp_all
    with 1(1)[OF False] digit_inj have "m div 10 = n div 10" and "m mod 10 = n mod 10" by blast+
    then show ?thesis by (metis div_mult_mod_eq)
  qed
qed

definition is_digit :: "char \<Rightarrow> bool" where
  "is_digit ch \<longleftrightarrow> 48 \<le> (of_char ch :: nat) \<and> (of_char ch :: nat) \<le> 57"

definition digits_value :: "string \<Rightarrow> int" where
  "digits_value ds = foldl (\<lambda>n ch. 10 * n + (of_char ch - 48)) 0 ds"

text \<open>\<open>strconv.Atoi\<close>: an optional sign and decimal digits, within 64 bits.\<close>

definition atoi :: "string \<Rightarrow> int option" where
  "atoi s =
    (let ds = (case s of ch # rest \<Rightarrow> if ch = CHR ''-'' \<or> ch = CHR ''+'' then rest else s | [] \<Rightarrow> []);
         n = (if s \<noteq> '''' \<and> hd s = CHR ''-'' then - digits_value ds else digits_value ds)
     in if ds = [] \<or> \<not> list_all is_digit ds \<or> n < - (2 ^ 63) \<or> n \<ge> 2 ^ 63 then None else Some n)"

section \<open>Words\<close>

text \<open>\<open>strings.Fields\<close> on white space.\<close>

fun split_fields_from :: "string \<Rightarrow> string \<Rightarrow> string list" where
  "split_fields_from w [] = (if w = '''' then [] else [w])"
| "split_fields_from w (ch # s) =
    (if is_space ch then (if w = '''' then split_fields_from '''' s else w # split_fields_from '''' s)
     else split_fields_from (w @ [ch]) s)"

definition split_fields :: "string \<Rightarrow> string list" where
  "split_fields s = split_fields_from '''' s"

section \<open>Environment variables\<close>

text \<open>\<open>os.Getenv\<close> returns the empty string for a variable that is not set.\<close>

definition getenv :: "(string \<rightharpoonup> string) \<Rightarrow> string \<Rightarrow> string" where
  "getenv environ name = (case environ name of None \<Rightarrow> '''' | Some v \<Rightarrow> v)"

end
