(* ===== verification/Redact.thy ===== *)
theory Redact
  imports GoStrings
begin

text \<open>
  Masking secrets in what is logged or reported (agent/internal/redact/redact.go).
\<close>

definition mask :: string where
  "mask = ''*****''"

definition sensitive_patterns :: "string list" where
  "sensitive_patterns = [''password'', ''secret'', ''token'', ''credential'']"

definition redact_string :: "string \<Rightarrow> string \<Rightarrow> string" where
  "redact_string s sensitive = (if sensitive = '''' then s else replace_all sensitive mask s)"

definition is_sensitive :: "string \<Rightarrow> bool" where
  "is_sensitive name = (let lower = to_lower name
     in list_ex (\<lambda>p. contains lower p) sensitive_patterns)"

definition redact_env :: "string list \<Rightarrow> string list" where
  "redact_env env = map (\<lambda>entry. case cut entry (CHR ''='') of (k, _, ok) \<Rightarrow>
     if ok \<and> is_sensitive k then k @ ''='' @ mask else entry) env"

text \<open>The loop of \<open>Args\<close>; the first argument is \<open>redactNext\<close>.\<close>

fun redact_args_from :: "bool \<Rightarrow> string list \<Rightarrow> string list" where
  "redact_args_from redactNext [] = []"
| "redact_args_from redactNext (arg # args) =
    (if redactNext then mask # redact_args_from False args
     else arg # redact_args_from (has_prefix arg ''-'' \<and> is_sensitive arg) args)"

definition redact_args :: "string list \<Rightarrow> string list" where
  "redact_args args = redact_args_from False args"

lemma mask_ne [simp]: "mask \<noteq> []"
  by (simp add: mask_def)

lemma set_mask: "set mask = {CHR ''*''}"
  by (simp add: mask_def)

lemma length_redact_args_from [simp]: "length (redact_args_from b args) = length args"
  by (induction args arbitrary: b) auto

lemma redact_string_removes:
  "secret \<noteq> [] \<Longrightarrow> CHR ''*'' \<notin> set secret \<Longrightarrow> \<not> contains (redact_string s secret) secret"
  by (simp add: redact_string_def replace_all_removes set_mask)

lemma redact_string_absent: "\<not> contains s secret \<Longrightarrow> redact_string s secret = s"
  by (simp add: redact_string_def replace_all_absent)

lemma not_sensitive_mask: "\<not> (has_prefix mask ''-'' \<and> is_sensitive mask)"
  by (simp add: mask_def)

lemma redact_args_from_nth:
  "i < length args \<Longrightarrow> redact_args_from b args ! i =
    (if (if i = 0 then b else has_prefix (redact_args_from b args ! (i - 1)) ''-''
           \<and> is_sensitive (redact_args_from b args ! (i - 1)))
     then mask else args ! i)"
proof (induction args arbitrary: i b)
  case (Cons a args)
  show ?case
  proof (cases i)
    case (Suc j)
    then have j: "j < length args" using Cons.prems by simp
    show ?thesis
      using Cons.IH[OF j, of False] Cons.IH[OF j, of "has_prefix a ''-'' \<and> is_sensitive a"]
        Suc not_sensitive_mask
      by (cases j) auto
  qed simp
qed simp

text \<open>
  Redacting a text with a secret leaves no occurrence of the secret in it, neither an old
  one nor one formed where a masked piece meets the text around it, for every secret that is
  not empty and has no asterisk; a text without the secret is returned unchanged.
\<close>

theorem redact_hides_secret:
  assumes "secret \<noteq> ''''" and "CHR ''*'' \<notin> set secret"
  shows "\<not> contains (redact_string s secret) secret
    \<and> (\<not> contains s secret \<longrightarrow> redact_string s secret = s)"
  using assms by (simp add: redact_string_removes redact_string_absent)

theorem redact_hides_secret_witness:
  "\<not> contains (redact_string ''pass hunter2 end'' ''hunter2'') ''hunter2''"
  using redact_hides_secret[of "''hunter2''" "''pass hunter2 end''"] by simp

text \<open>
  In the logged copy of a command line, the argument after a flag whose name is sensitive
  is the mask, and every other argument is the original one: the copy has the same length,
  and position \<open>i\<close> is masked exactly when the argument printed before it is a sensitive flag.
\<close>

theorem redact_args_masks_after_flag:
  assumes "i < length args"
  shows "length (redact_args args) = length args
    \<and> redact_args args ! i =
      (if 0 < i \<and> has_prefix (redact_args args ! (i - 1)) ''-'' \<and> is_sensitive (redact_args args ! (i - 1))
       then mask else args ! i)"
  using redact_args_from_nth[OF assms, of False] by (auto simp: redact_args_def)

theorem redact_args_masks_after_flag_witness:
  "redact_args [''--repo'', ''/data'', ''--Password'', ''x''] ! 3 = mask"
proof -
  have "redact_args [''--repo'', ''/data'', ''--Password'', ''x''] ! 2 = ''--Password''
    \<and> is_sensitive ''--Password''" by code_simp
  then show ?thesis
    using redact_args_masks_after_flag[of 3 "[''--repo'', ''/data'', ''--Password'', ''x'']"] by simp
qed

end
