(* ===== verification/Restic.thy ===== *)
theory Restic
  imports Redact
begin

text \<open>
  The restic driver of the agent (agent/internal/executor/restic.go): bounded capture of a
  command's output, the command lines of each restic operation, and what is made of the
  output. The machine is a parameter: what a process prints and how it ends is a function
  of the commands attempted before it and of the command itself. So are the clock (in
  nanoseconds, by how often it was read), the inherited environment, the fresh ids of the
  uuid package, and how times and durations are printed.
\<close>

section \<open>Processes and the clock\<close>

text \<open>A command line; the timeout, in seconds, is the deadline its context is given.\<close>

record command =
  cm_name :: string
  cm_args :: "string list"
  cm_env :: "string list"
  cm_dir :: string
  cm_timeout :: "int option"

text \<open>What running a command does; \<open>po_stderr\<close> is the list of writes to standard error.\<close>

record proc_outcome =
  po_pipe :: "go_error option"
  po_start :: "go_error option"
  po_stdout :: string
  po_stderr :: "string list"
  po_wait :: "go_error option"

record machine =
  m_run :: "command list \<Rightarrow> command \<Rightarrow> proc_outcome"
  m_clock :: "nat \<Rightarrow> int"
  m_environ :: "string list"
  m_tmp :: string
  m_uuid :: "nat \<Rightarrow> string"
  m_rfc3339 :: "int \<Rightarrow> string"
  m_duration :: "int \<Rightarrow> string"

text \<open>The commands attempted so far, and how often the clock was read.\<close>

record world =
  w_cmds :: "command list"
  w_tick :: nat

definition attempt :: "command \<Rightarrow> world \<Rightarrow> world" where
  "attempt cmd w = w\<lparr>w_cmds := w_cmds w @ [cmd]\<rparr>"

definition tick :: "world \<Rightarrow> world" where
  "tick w = w\<lparr>w_tick := Suc (w_tick w)\<rparr>"

lemma world_simps [simp]:
  "w_cmds (attempt cmd w) = w_cmds w @ [cmd]" "w_tick (attempt cmd w) = w_tick w"
  "w_cmds (tick w) = w_cmds w" "w_tick (tick w) = Suc (w_tick w)"
  by (simp_all add: attempt_def tick_def)

text \<open>\<open>Duration.Milliseconds\<close>: the division truncates towards zero.\<close>

definition milliseconds :: "int \<Rightarrow> int" where
  "milliseconds d = sgn d * (\<bar>d\<bar> div 1000000)"

section \<open>The tail buffer\<close>

record tail_buffer =
  tb_max :: nat
  tb_buf :: string
  tb_truncated :: bool

definition max_stdout_bytes :: nat where "max_stdout_bytes = 1048576"
definition max_stderr_bytes :: nat where "max_stderr_bytes = 4096"
definition max_scanner_line_bytes :: nat where "max_scanner_line_bytes = 1048576"
definition max_backup_tail_lines :: nat where "max_backup_tail_lines = 200"

definition new_tail_buffer :: "nat \<Rightarrow> tail_buffer" where
  "new_tail_buffer n = \<lparr>tb_max = n, tb_buf = [], tb_truncated = False\<rparr>"

definition tb_write :: "string \<Rightarrow> tail_buffer \<Rightarrow> tail_buffer" where
  "tb_write p t =
    (let n = length p in
     if length (tb_buf t) + n \<le> tb_max t then t\<lparr>tb_buf := tb_buf t @ p\<rparr>
     else if n \<ge> tb_max t then t\<lparr>tb_truncated := True, tb_buf := drop (n - tb_max t) p\<rparr>
     else (let keep = tb_max t - n
           in t\<lparr>tb_truncated := True, tb_buf := drop (length (tb_buf t) - keep) (tb_buf t) @ p\<rparr>))"

definition nl :: string where "nl = [CHR 0x0A]"

definition truncation_marker :: string where
  "truncation_marker = ''...[truncated]...'' @ nl"

definition tb_string :: "tail_buffer \<Rightarrow> string" where
  "tb_string t = (if tb_truncated t then truncation_marker @ tb_buf t else tb_buf t)"

lemma tb_max_write [simp]: "tb_max (tb_write p t) = tb_max t"
  by (simp add: tb_write_def Let_def)

lemma tb_write_buf:
  "length (tb_buf t) \<le> tb_max t \<Longrightarrow> tb_buf (tb_write p t) = last_n (tb_max t) (tb_buf t @ p)"
  by (auto simp: tb_write_def last_n_def Let_def)

lemma tb_write_truncated:
  "tb_truncated (tb_write p t) \<longleftrightarrow> tb_truncated t \<or> tb_max t < length (tb_buf t) + length p"
  by (auto simp: tb_write_def Let_def)

lemma tb_writes:
  assumes "length (tb_buf t) \<le> tb_max t"
  shows "tb_buf (fold tb_write ws t) = last_n (tb_max t) (tb_buf t @ concat ws)
    \<and> (tb_truncated (fold tb_write ws t)
        \<longleftrightarrow> tb_truncated t \<or> tb_max t < length (tb_buf t) + length (concat ws))"
  using assms
proof (induction ws arbitrary: t)
  case (Cons p ws)
  have "length (tb_buf (tb_write p t)) \<le> tb_max (tb_write p t)"
    using Cons.prems by (simp add: tb_write_buf)
  from Cons.IH[OF this] show ?case
    using Cons.prems last_n_append[of "tb_max t" "tb_buf t @ p" "concat ws"]
    by (auto simp: tb_write_buf tb_write_truncated)
qed (simp add: last_n_short)

lemma tb_fresh_writes:
  "tb_buf (fold tb_write ws (new_tail_buffer n)) = last_n n (concat ws)"
  "tb_truncated (fold tb_write ws (new_tail_buffer n)) \<longleftrightarrow> n < length (concat ws)"
  using tb_writes[of "new_tail_buffer n" ws] by (auto simp: new_tail_buffer_def)

section \<open>Reading lines\<close>

text \<open>
  \<open>bufio.Scanner\<close> with its default split function: lines end at a newline, one carriage
  return before it is dropped, the last line needs no newline, and the scan stops at a line
  that does not fit the buffer. The second component says whether it stopped that way.
\<close>

definition drop_cr :: "string \<Rightarrow> string" where
  "drop_cr s = (if s \<noteq> [] \<and> last s = CHR 0x0D then butlast s else s)"

lemma drop_cr_id: "CHR 0x0D \<notin> set s \<Longrightarrow> drop_cr s = s"
  by (metis drop_cr_def last_in_set)

function scan_lines :: "nat \<Rightarrow> string \<Rightarrow> string list \<times> bool" where
  "scan_lines n s =
    (if s = [] then ([], False)
     else (let l = takeWhile (\<lambda>c. c \<noteq> CHR 0x0A) s in
       if n \<le> length l then ([], True)
       else (case scan_lines n (drop (Suc (length l)) s) of (ls, e) \<Rightarrow> (drop_cr l # ls, e))))"
  by pat_completeness auto
termination by (relation "measure (\<lambda>(n, s). length s)") auto

declare scan_lines.simps [simp del]

lemma scan_lines_Nil [simp]: "scan_lines n [] = ([], False)"
  by (subst scan_lines.simps) simp

lemma scan_lines_line:
  assumes "CHR 0x0A \<notin> set l" and "length l < n"
  shows "scan_lines n (l @ nl @ s) = (drop_cr l # fst (scan_lines n s), snd (scan_lines n s))"
proof -
  have "takeWhile (\<lambda>c. c \<noteq> CHR 0x0A) (l @ nl @ s) = l"
    using assms(1) by (subst takeWhile_append2) (auto simp: nl_def)
  then show ?thesis
    by (subst scan_lines.simps) (simp add: Let_def assms(2) nl_def not_le split: prod.split)
qed

lemma scan_lines_concat:
  assumes "\<forall>l\<in>set ls. CHR 0x0A \<notin> set l \<and> length l < n"
  shows "scan_lines n (concat (map (\<lambda>l. l @ nl) ls)) = (map drop_cr ls, False)"
  using assms by (induction ls) (auto simp: scan_lines_line)

section \<open>Data\<close>

record repository =
  repo_id :: string
  repo_name :: string
  repo_type :: string
  repo_path :: string
  repo_password :: string

record backup_result =
  br_snapshot_id :: string
  br_files_new :: int
  br_files_changed :: int
  br_files_unmodified :: int
  br_bytes_added :: int
  br_total_bytes :: int
  br_duration_ms :: int
  br_stderr :: string

record snapshot_info =
  si_id :: string
  si_long_id :: string
  si_time :: string
  si_hostname :: string
  si_tags :: "string list"
  si_paths :: "string list"

record file_entry =
  fe_name :: string
  fe_type :: string
  fe_path :: string
  fe_size :: int
  fe_mtime :: string

record retention_policy =
  rp_keep_last :: int
  rp_keep_hourly :: int
  rp_keep_daily :: int
  rp_keep_weekly :: int
  rp_keep_monthly :: int
  rp_keep_yearly :: int

record restic_summary =
  rs_files_new :: int
  rs_files_changed :: int
  rs_files_unmodified :: int
  rs_data_added :: int
  rs_total_bytes :: int
  rs_snapshot_id :: string

definition zero_summary :: restic_summary where
  "zero_summary = \<lparr>rs_files_new = 0, rs_files_changed = 0, rs_files_unmodified = 0,
     rs_data_added = 0, rs_total_bytes = 0, rs_snapshot_id = ''''\<rparr>"

text \<open>
  The decoders of \<open>encoding/json\<close>: the message type of a line, a summary decoded into an
  existing value (which a failing call may have changed), a snapshot list and a file entry.
\<close>

record restic_json =
  js_message_type :: "string \<Rightarrow> string result"
  js_summary :: "restic_summary \<Rightarrow> string \<Rightarrow> restic_summary \<times> go_error option"
  js_snapshots :: "string \<Rightarrow> snapshot_info list result"
  js_file_entry :: "string \<Rightarrow> file_entry result"

section \<open>Running restic\<close>

definition extra_env :: "string \<Rightarrow> repository \<Rightarrow> string list" where
  "extra_env rclone repo = [''RESTIC_PASSWORD='' @ repo_password repo]
     @ (if rclone \<noteq> '''' then [''RCLONE_CONFIG='' @ rclone] else [])"

definition restic_command :: "machine \<Rightarrow> string \<Rightarrow> repository \<Rightarrow> string list \<Rightarrow> command" where
  "restic_command m rclone repo args =
    \<lparr>cm_name = ''restic'', cm_args = args, cm_env = m_environ m @ extra_env rclone repo, cm_dir = '''',
     cm_timeout = None\<rparr>"

text \<open>What is logged of a command: its arguments and the added environment, both masked.\<close>

definition restic_log :: "string \<Rightarrow> repository \<Rightarrow> string list \<Rightarrow> string list \<times> string list" where
  "restic_log rclone repo args = (redact_args args, redact_env (extra_env rclone repo))"

definition stream_restic ::
  "machine \<Rightarrow> string \<Rightarrow> repository \<Rightarrow> string list \<Rightarrow> (string \<Rightarrow> 'a \<Rightarrow> 'a) \<Rightarrow> 'a \<Rightarrow> world
    \<Rightarrow> (string \<times> go_error option \<times> 'a) \<times> world" where
  "stream_restic m rclone repo args onStdoutLine x w =
    (let cmd = restic_command m rclone repo args;
         p = m_run m (w_cmds w) cmd;
         w' = attempt cmd w
     in case po_pipe p of
          Some er \<Rightarrow> (('''', Some (Wrap ''restic stdout pipe'' er), x), w')
        | None \<Rightarrow>
          (case po_start p of
             Some er \<Rightarrow> (('''', Some (Wrap ''restic start'' er), x), w')
           | None \<Rightarrow>
             (let x' = fold onStdoutLine (fst (scan_lines max_scanner_line_bytes (po_stdout p))) x;
                  stderrBuf = fold tb_write (po_stderr p) (new_tail_buffer max_stderr_bytes)
              in ((redact_string (tb_string stderrBuf) (repo_password repo), po_wait p, x'), w'))))"

definition run_restic ::
  "machine \<Rightarrow> string \<Rightarrow> repository \<Rightarrow> string list \<Rightarrow> world
    \<Rightarrow> (string \<times> string \<times> go_error option) \<times> world" where
  "run_restic m rclone repo args w =
    (case stream_restic m rclone repo args (\<lambda>line t. tb_write nl (tb_write line t))
            (new_tail_buffer max_stdout_bytes) w
     of ((stderr, er, stdoutBuf), w') \<Rightarrow> ((tb_string stdoutBuf, stderr, er), w'))"

definition with_stderr :: "string \<Rightarrow> go_error \<Rightarrow> string \<Rightarrow> go_error" where
  "with_stderr what er stderr = Wrap what (Annot er (nl @ ''stderr: '' @ stderr))"

section \<open>Operations\<close>

text \<open>What the backup callback collects from the lines of standard output.\<close>

record backup_scan =
  bs_summary :: restic_summary
  bs_found :: bool
  bs_tail :: "string list"
  bs_lines :: nat
  bs_status :: nat

definition start_scan :: backup_scan where
  "start_scan = \<lparr>bs_summary = zero_summary, bs_found = False, bs_tail = [], bs_lines = 0, bs_status = 0\<rparr>"

definition add_tail :: "string \<Rightarrow> backup_scan \<Rightarrow> backup_scan" where
  "add_tail line s =
    (if length (bs_tail s) < max_backup_tail_lines then s\<lparr>bs_tail := bs_tail s @ [line]\<rparr>
     else s\<lparr>bs_tail := tl (bs_tail s) @ [line]\<rparr>)"

definition backup_line :: "restic_json \<Rightarrow> string \<Rightarrow> backup_scan \<Rightarrow> backup_scan" where
  "backup_line js line s0 =
    (let s = s0\<lparr>bs_lines := Suc (bs_lines s0)\<rparr>
     in case js_message_type js line of
          Inl _ \<Rightarrow> add_tail line s
        | Inr ty \<Rightarrow>
          (if ty = ''status'' then s\<lparr>bs_status := Suc (bs_status s)\<rparr>
           else if ty = ''summary'' then
             (case js_summary js (bs_summary s) line of
                (v, None) \<Rightarrow> s\<lparr>bs_summary := v, bs_found := True\<rparr>
              | (v, Some _) \<Rightarrow> add_tail line (s\<lparr>bs_summary := v\<rparr>))
           else add_tail line s))"

definition flag_each :: "string \<Rightarrow> string list \<Rightarrow> string list" where
  "flag_each flag xs = concat (map (\<lambda>x. [flag, x]) xs)"

definition backup_args :: "repository \<Rightarrow> string list \<Rightarrow> string list \<Rightarrow> string list \<Rightarrow> string list" where
  "backup_args repo paths excludes tags =
    [''backup'', ''--json'', ''--repo'', repo_path repo]
      @ flag_each ''--tag'' tags @ flag_each ''--exclude'' excludes @ paths"

definition restic_backup ::
  "machine \<Rightarrow> restic_json \<Rightarrow> string \<Rightarrow> repository \<Rightarrow> string list \<Rightarrow> string list \<Rightarrow> string list \<Rightarrow> world
    \<Rightarrow> backup_result result \<times> world" where
  "restic_backup m js rclone repo paths excludes tags w0 =
    (let start = m_clock m (w_tick w0) in
     case stream_restic m rclone repo (backup_args repo paths excludes tags) (backup_line js) start_scan
            (tick w0)
     of ((stderr, err, s), w) \<Rightarrow>
       (let durationMs = milliseconds (m_clock m (w_tick w) - start);
            w' = tick w
        in case err of
             Some er \<Rightarrow> (Inl (with_stderr ''restic backup'' er stderr), w')
           | None \<Rightarrow>
             (if \<not> bs_found s then
                (Inl (Msg (''restic backup did not produce a summary message ('' @ show_nat (bs_lines s)
                   @ '' lines, '' @ show_nat (bs_status s) @ '' status updates)'' @ nl
                   @ ''stdout tail: '' @ join nl (bs_tail s))), w')
              else
                (Inr \<lparr>br_snapshot_id = rs_snapshot_id (bs_summary s),
                   br_files_new = rs_files_new (bs_summary s),
                   br_files_changed = rs_files_changed (bs_summary s),
                   br_files_unmodified = rs_files_unmodified (bs_summary s),
                   br_bytes_added = rs_data_added (bs_summary s),
                   br_total_bytes = rs_total_bytes (bs_summary s),
                   br_duration_ms = durationMs, br_stderr = trim_space stderr\<rparr>, w'))))"

definition keep_flag :: "string \<Rightarrow> int \<Rightarrow> string list" where
  "keep_flag flag n = (if n > 0 then [flag, show_int n] else [])"

definition forget_args :: "repository \<Rightarrow> retention_policy \<Rightarrow> string list \<Rightarrow> string list" where
  "forget_args repo rp tags =
    [''forget'', ''--repo'', repo_path repo]
      @ keep_flag ''--keep-last'' (rp_keep_last rp)
      @ keep_flag ''--keep-hourly'' (rp_keep_hourly rp)
      @ keep_flag ''--keep-daily'' (rp_keep_daily rp)
      @ keep_flag ''--keep-weekly'' (rp_keep_weekly rp)
      @ keep_flag ''--keep-monthly'' (rp_keep_monthly rp)
      @ keep_flag ''--keep-yearly'' (rp_keep_yearly rp)
      @ flag_each ''--tag'' tags"

text \<open>The shape of the operations that only report whether the command failed.\<close>

definition run_checked ::
  "machine \<Rightarrow> string \<Rightarrow> string \<Rightarrow> repository \<Rightarrow> string list \<Rightarrow> world \<Rightarrow> unit result \<times> world" where
  "run_checked m what rclone repo args w =
    (case run_restic m rclone repo args w of
       ((_, stderr, Some er), w') \<Rightarrow> (Inl (with_stderr what er stderr), w')
     | ((_, _, None), w') \<Rightarrow> (Inr (), w'))"

definition restic_forget ::
  "machine \<Rightarrow> string \<Rightarrow> repository \<Rightarrow> retention_policy \<Rightarrow> string list \<Rightarrow> world \<Rightarrow> unit result \<times> world" where
  "restic_forget m rclone repo rp tags w =
    run_checked m ''restic forget'' rclone repo (forget_args repo rp tags) w"

definition restic_prune :: "machine \<Rightarrow> string \<Rightarrow> repository \<Rightarrow> world \<Rightarrow> unit result \<times> world" where
  "restic_prune m rclone repo w =
    run_checked m ''restic prune'' rclone repo [''prune'', ''--repo'', repo_path repo] w"

definition restic_snapshots ::
  "machine \<Rightarrow> restic_json \<Rightarrow> string \<Rightarrow> repository \<Rightarrow> world \<Rightarrow> snapshot_info list result \<times> world" where
  "restic_snapshots m js rclone repo w =
    (case run_restic m rclone repo [''snapshots'', ''--json'', ''--repo'', repo_path repo] w of
       ((_, stderr, Some er), w') \<Rightarrow> (Inl (with_stderr ''restic snapshots'' er stderr), w')
     | ((stdout, _, None), w') \<Rightarrow>
       ((case js_snapshots js stdout of
           Inl er \<Rightarrow> Inl (Wrap ''parsing restic snapshots'' er)
         | Inr snapshots \<Rightarrow> Inr snapshots), w'))"

definition ls_args :: "repository \<Rightarrow> string \<Rightarrow> string \<Rightarrow> string list" where
  "ls_args repo snapshotID path =
    [''ls'', ''--json'', ''--repo'', repo_path repo, snapshotID] @ (if path \<noteq> '''' then [path] else [])"

fun file_entries :: "restic_json \<Rightarrow> string list \<Rightarrow> file_entry list" where
  "file_entries js [] = []"
| "file_entries js (line0 # lines) =
    (let line = trim_space line0 in
     if line = '''' then file_entries js lines
     else case js_file_entry js line of
       Inl _ \<Rightarrow> file_entries js lines
     | Inr entry \<Rightarrow>
       (if fe_path entry \<noteq> '''' then entry # file_entries js lines else file_entries js lines))"

definition restic_list_files ::
  "machine \<Rightarrow> restic_json \<Rightarrow> string \<Rightarrow> repository \<Rightarrow> string \<Rightarrow> string \<Rightarrow> world
    \<Rightarrow> file_entry list result \<times> world" where
  "restic_list_files m js rclone repo snapshotID path w =
    (case run_restic m rclone repo (ls_args repo snapshotID path) w of
       ((_, stderr, Some er), w') \<Rightarrow> (Inl (with_stderr ''restic ls'' er stderr), w')
     | ((stdout, _, None), w') \<Rightarrow> (Inr (file_entries js (split_on (CHR 0x0A) stdout)), w'))"

definition restore_args :: "repository \<Rightarrow> string \<Rightarrow> string list \<Rightarrow> string \<Rightarrow> string list" where
  "restore_args repo snapshotID paths target =
    [''restore'', ''--repo'', repo_path repo, ''--target'', target]
      @ flag_each ''--include'' paths @ [snapshotID]"

definition restic_restore ::
  "machine \<Rightarrow> string \<Rightarrow> repository \<Rightarrow> string \<Rightarrow> string list \<Rightarrow> string \<Rightarrow> world \<Rightarrow> unit result \<times> world" where
  "restic_restore m rclone repo snapshotID paths target w =
    run_checked m ''restic restore'' rclone repo (restore_args repo snapshotID paths target) w"

definition already_initialized :: "string \<Rightarrow> bool" where
  "already_initialized s \<longleftrightarrow> contains s ''already initialized'' \<or> contains s ''already exists''"

definition ensure_repo :: "machine \<Rightarrow> string \<Rightarrow> repository \<Rightarrow> world \<Rightarrow> unit result \<times> world" where
  "ensure_repo m rclone repo w =
    (case run_restic m rclone repo [''snapshots'', ''--repo'', repo_path repo, ''--json''] w of
       ((_, _, None), w1) \<Rightarrow> (Inr (), w1)
     | ((_, _, Some _), w1) \<Rightarrow>
       (case run_restic m rclone repo [''init'', ''--repo'', repo_path repo] w1 of
          ((_, _, None), w2) \<Rightarrow> (Inr (), w2)
        | ((_, initStderr, Some er), w2) \<Rightarrow>
          (if already_initialized initStderr then (Inr (), w2)
           else (Inl (with_stderr ''restic init'' er initStderr), w2))))"

section \<open>How a run behaves\<close>

lemma stream_restic_world [simp]:
  "snd (stream_restic m rclone repo args f x w) = attempt (restic_command m rclone repo args) w"
  by (simp add: stream_restic_def Let_def split: option.split)

lemma run_restic_world [simp]:
  "snd (run_restic m rclone repo args w) = attempt (restic_command m rclone repo args) w"
proof -
  obtain a b t w' where s: "stream_restic m rclone repo args (\<lambda>line t. tb_write nl (tb_write line t))
      (new_tail_buffer max_stdout_bytes) w = ((a, b, t), w')" by (metis prod.exhaust)
  then have "w' = attempt (restic_command m rclone repo args) w"
    using stream_restic_world by (metis snd_conv)
  with s show ?thesis by (simp add: run_restic_def)
qed

lemma stream_restic_hides:
  assumes "repo_password repo \<noteq> ''''" and "CHR ''*'' \<notin> set (repo_password repo)"
  shows "\<not> contains (fst (fst (stream_restic m rclone repo args f x w))) (repo_password repo)"
  using assms by (cases "repo_password repo")
    (auto simp: stream_restic_def Let_def redact_string_removes split: option.split)

lemma stream_restic_ran:
  assumes "m_run m (w_cmds w) (restic_command m rclone repo args) = p"
    and "po_pipe p = None" and "po_start p = None"
  shows "fst (stream_restic m rclone repo args f x w) =
    (redact_string (tb_string (fold tb_write (po_stderr p) (new_tail_buffer max_stderr_bytes)))
       (repo_password repo),
     po_wait p, fold f (fst (scan_lines max_scanner_line_bytes (po_stdout p))) x)"
  using assms by (simp add: stream_restic_def Let_def)

lemma run_restic_ran:
  assumes "m_run m (w_cmds w) (restic_command m rclone repo args) = p"
    and "po_pipe p = None" and "po_start p = None"
  shows "fst (run_restic m rclone repo args w) =
    (tb_string (fold (\<lambda>line t. tb_write nl (tb_write line t))
       (fst (scan_lines max_scanner_line_bytes (po_stdout p))) (new_tail_buffer max_stdout_bytes)),
     redact_string (tb_string (fold tb_write (po_stderr p) (new_tail_buffer max_stderr_bytes)))
       (repo_password repo), po_wait p)"
  using assms by (simp add: run_restic_def stream_restic_def Let_def)

lemma tb_line_writes:
  "fold (\<lambda>line t. tb_write nl (tb_write line t)) ls t
    = fold tb_write (concat (map (\<lambda>l. [l, nl]) ls)) t"
  by (induction ls arbitrary: t) auto

lemma concat_line_writes: "concat (concat (map (\<lambda>l. [l, nl]) ls)) = concat (map (\<lambda>l. l @ nl) ls)"
  by (induction ls) auto

lemma redact_env_password:
  "redact_env (extra_env rclone (repo\<lparr>repo_password := p\<rparr>)) = redact_env (extra_env rclone repo)"
proof -
  have "redact_env [''RESTIC_PASSWORD='' @ q] = [''RESTIC_PASSWORD='' @ mask]" for q
  proof -
    have "cut (''RESTIC_PASSWORD='' @ q) (CHR ''='') = (''RESTIC_PASSWORD'', q, True)"
      by (simp add: cut_def)
    moreover have "is_sensitive ''RESTIC_PASSWORD''" by code_simp
    ultimately show ?thesis by (simp add: redact_env_def)
  qed
  then have "redact_env ([''RESTIC_PASSWORD='' @ q] @ r) = [''RESTIC_PASSWORD='' @ mask] @ redact_env r" for q r
    by (simp add: redact_env_def)
  then show ?thesis by (simp add: extra_env_def)
qed

section \<open>What the backup callback collects\<close>

definition is_summary :: "restic_json \<Rightarrow> string \<Rightarrow> bool" where
  "is_summary js l \<longleftrightarrow> js_message_type js l = Inr ''summary'' \<and> snd (js_summary js zero_summary l) = None"

definition is_status :: "restic_json \<Rightarrow> string \<Rightarrow> bool" where
  "is_status js l \<longleftrightarrow> js_message_type js l = Inr ''status''"

text \<open>Whether decoding a summary succeeds does not depend on the value decoded into.\<close>

definition stable_decoder :: "restic_json \<Rightarrow> bool" where
  "stable_decoder js \<longleftrightarrow> (\<forall>v l. snd (js_summary js v l) = snd (js_summary js zero_summary l))"

lemma add_tail_simps [simp]:
  "bs_summary (add_tail l s) = bs_summary s" "bs_found (add_tail l s) = bs_found s"
  "bs_lines (add_tail l s) = bs_lines s" "bs_status (add_tail l s) = bs_status s"
  by (simp_all add: add_tail_def)

lemma add_tail_tail:
  "length (bs_tail s) \<le> max_backup_tail_lines \<Longrightarrow>
    bs_tail (add_tail l s) = last_n max_backup_tail_lines (bs_tail s @ [l])"
  by (auto simp: add_tail_def last_n_def drop_Suc max_backup_tail_lines_def)

lemma backup_line_simps:
  assumes "stable_decoder js"
  shows "bs_lines (backup_line js l s) = Suc (bs_lines s)"
    and "bs_found (backup_line js l s) = (bs_found s \<or> is_summary js l)"
    and "bs_status (backup_line js l s) = bs_status s + (if is_status js l then 1 else 0)"
    and "length (bs_tail s) \<le> max_backup_tail_lines \<Longrightarrow>
      bs_tail (backup_line js l s) = (if is_status js l \<or> is_summary js l then bs_tail s
        else last_n max_backup_tail_lines (bs_tail s @ [l]))"
proof -
  have d: "snd (js_summary js v l) = snd (js_summary js zero_summary l)" for v
    using assms by (simp add: stable_decoder_def)
  obtain v er where v: "js_summary js (bs_summary s) l = (v, er)" by fastforce
  then have er: "snd (js_summary js zero_summary l) = er" using d[of "bs_summary s"] by simp
  show "bs_lines (backup_line js l s) = Suc (bs_lines s)"
    and "bs_found (backup_line js l s) = (bs_found s \<or> is_summary js l)"
    and "bs_status (backup_line js l s) = bs_status s + (if is_status js l then 1 else 0)"
    and "length (bs_tail s) \<le> max_backup_tail_lines \<Longrightarrow>
      bs_tail (backup_line js l s) = (if is_status js l \<or> is_summary js l then bs_tail s
        else last_n max_backup_tail_lines (bs_tail s @ [l]))"
    using v er
    by (auto simp: backup_line_def Let_def is_summary_def is_status_def add_tail_tail
        split: sum.split option.split)
qed

lemma backup_scan_from:
  assumes "stable_decoder js" and "length (bs_tail s) \<le> max_backup_tail_lines"
  shows "bs_lines (fold (backup_line js) ls s) = bs_lines s + length ls
    \<and> (bs_found (fold (backup_line js) ls s) \<longleftrightarrow> bs_found s \<or> list_ex (is_summary js) ls)
    \<and> bs_status (fold (backup_line js) ls s) = bs_status s + length (filter (is_status js) ls)
    \<and> bs_tail (fold (backup_line js) ls s) = last_n max_backup_tail_lines
        (bs_tail s @ filter (\<lambda>l. \<not> (is_status js l \<or> is_summary js l)) ls)"
  using assms(2)
proof (induction ls arbitrary: s)
  case (Cons l ls)
  note step = backup_line_simps[OF assms(1), where l = l and s = s]
  have "length (bs_tail (backup_line js l s)) \<le> max_backup_tail_lines"
    using Cons.prems by (simp add: step(4))
  from Cons.IH[OF this] show ?case
    using Cons.prems step last_n_append[of max_backup_tail_lines "bs_tail s @ [l]"] by auto
qed (simp add: last_n_short)

lemma backup_scan:
  assumes "stable_decoder js"
  shows "bs_lines (fold (backup_line js) ls start_scan) = length ls
    \<and> (bs_found (fold (backup_line js) ls start_scan) \<longleftrightarrow> list_ex (is_summary js) ls)
    \<and> bs_status (fold (backup_line js) ls start_scan) = length (filter (is_status js) ls)
    \<and> bs_tail (fold (backup_line js) ls start_scan) = last_n max_backup_tail_lines
        (filter (\<lambda>l. \<not> (is_status js l \<or> is_summary js l)) ls)"
  using backup_scan_from[OF assms, of start_scan ls] by (simp add: start_scan_def)

section \<open>Concrete decoders and processes\<close>

definition example_json :: restic_json where
  "example_json = \<lparr>
     js_message_type = (\<lambda>l. if has_prefix l ''{sum'' then Inr ''summary''
       else if has_prefix l ''{st'' then Inr ''status'' else Inl (Msg ''invalid character'')),
     js_summary = (\<lambda>v l. (v\<lparr>rs_files_new := 3, rs_snapshot_id := ''abc''\<rparr>, None)),
     js_snapshots = (\<lambda>s. Inr []),
     js_file_entry = (\<lambda>l. Inl (Msg ''invalid character''))\<rparr>"

definition prints :: "string \<Rightarrow> string list \<Rightarrow> proc_outcome" where
  "prints out err = \<lparr>po_pipe = None, po_start = None, po_stdout = out, po_stderr = err, po_wait = None\<rparr>"

definition example_machine :: "proc_outcome \<Rightarrow> machine" where
  "example_machine p = \<lparr>m_run = \<lambda>_ _. p, m_clock = \<lambda>t. int t * 1000000000,
     m_environ = [''PATH=/bin''], m_tmp = ''/tmp'',
     m_uuid = (\<lambda>t. ''job-'' @ show_nat t), m_rfc3339 = (\<lambda>_. ''now''), m_duration = (\<lambda>_. ''1s'')\<rparr>"

definition example_repo :: repository where
  "example_repo = \<lparr>repo_id = ''r1'', repo_name = ''nas'', repo_type = ''local'', repo_path = ''/data'',
     repo_password = ''hunter2''\<rparr>"

definition start_world :: world where
  "start_world = \<lparr>w_cmds = [], w_tick = 0\<rparr>"

lemma stable_example_json: "stable_decoder example_json"
  by (simp add: stable_decoder_def example_json_def)

section \<open>Properties\<close>

text \<open>
  The tail buffer holds exactly the last \<open>max\<close> bytes of everything written to it, however
  the writes are cut into pieces, and is marked truncated exactly when more was written; it
  never holds more than \<open>max\<close> bytes.
\<close>

theorem tail_buffer_keeps_last:
  "tb_buf (fold tb_write ws (new_tail_buffer n)) = last_n n (concat ws)
    \<and> (tb_truncated (fold tb_write ws (new_tail_buffer n)) \<longleftrightarrow> n < length (concat ws))
    \<and> length (tb_buf (fold tb_write ws (new_tail_buffer n))) \<le> n"
  by (simp add: tb_fresh_writes)

text \<open>
  What \<open>runRestic\<close> returns as standard output is the output of the process: for a process
  that starts and prints lines without carriage returns, each shorter than the scanner's
  buffer, it is the text itself when it fits in 1 MiB, and the truncation marker followed by
  the last 1 MiB of it otherwise.
\<close>

theorem run_restic_returns_output:
  assumes "m_run m (w_cmds w) (restic_command m rclone repo args) = p"
    and "po_pipe p = None" and "po_start p = None"
    and "po_stdout p = concat (map (\<lambda>l. l @ nl) ls)"
    and "\<forall>l\<in>set ls. CHR 0x0A \<notin> set l \<and> CHR 0x0D \<notin> set l \<and> length l < max_scanner_line_bytes"
  shows "fst (fst (run_restic m rclone repo args w)) =
      (if length (po_stdout p) \<le> max_stdout_bytes then po_stdout p
       else truncation_marker @ last_n max_stdout_bytes (po_stdout p))
    \<and> snd (snd (fst (run_restic m rclone repo args w))) = po_wait p"
proof -
  have "map drop_cr ls = ls"
    using assms(5) by (auto intro!: map_idI drop_cr_id)
  then have "fst (scan_lines max_scanner_line_bytes (po_stdout p)) = ls"
    using scan_lines_concat[of ls max_scanner_line_bytes] assms(4,5) by simp
  then show ?thesis
    unfolding run_restic_ran[OF assms(1-3)]
    by (simp add: tb_line_writes tb_fresh_writes concat_line_writes assms(4) tb_string_def last_n_short)
qed

theorem run_restic_returns_output_witness:
  "fst (fst (run_restic (example_machine (prints (''ab'' @ nl @ ''c'' @ nl) [])) '''' example_repo [] start_world))
    = ''ab'' @ nl @ ''c'' @ nl"
  using run_restic_returns_output[of "example_machine (prints (''ab'' @ nl @ ''c'' @ nl) [])" start_world "''''"
      example_repo "[]" "prints (''ab'' @ nl @ ''c'' @ nl) []" "[''ab'', ''c'']"]
  by (simp add: example_machine_def prints_def max_scanner_line_bytes_def max_stdout_bytes_def nl_def)

text \<open>
  A backup succeeds exactly when restic could be started, exited without an error, and one
  of the lines it printed is a summary that decodes; then the figures of the result are those
  of the decoded summary. The lines kept for the error message are the last 200 lines that
  are neither a status message nor a summary.
\<close>

theorem backup_succeeds_iff_summary:
  assumes "stable_decoder js"
    and "p = m_run m (w_cmds w) (restic_command m rclone repo (backup_args repo paths excludes tags))"
    and "lines = fst (scan_lines max_scanner_line_bytes (po_stdout p))"
  shows "((\<exists>r. fst (restic_backup m js rclone repo paths excludes tags w) = Inr r) \<longleftrightarrow>
      po_pipe p = None \<and> po_start p = None \<and> po_wait p = None \<and> list_ex (is_summary js) lines)
    \<and> bs_tail (fold (backup_line js) lines start_scan) = last_n max_backup_tail_lines
        (filter (\<lambda>l. \<not> (is_status js l \<or> is_summary js l)) lines)"
  using assms(2,3) backup_scan[OF assms(1), of lines]
  by (auto simp: restic_backup_def stream_restic_def Let_def split: option.splits)

theorem backup_succeeds_iff_summary_witness:
  "\<exists>r. fst (restic_backup (example_machine (prints (''{st'' @ nl @ ''{sum'' @ nl) [])) example_json ''''
    example_repo [''/etc''] [] [] start_world) = Inr r"
proof -
  let ?p = "prints (''{st'' @ nl @ ''{sum'' @ nl) []"
  have "fst (scan_lines max_scanner_line_bytes (po_stdout ?p)) = [''{st'', ''{sum'']"
    using scan_lines_concat[of "[''{st'', ''{sum'']" max_scanner_line_bytes]
    by (simp add: prints_def max_scanner_line_bytes_def drop_cr_def)
  with backup_succeeds_iff_summary[OF stable_example_json, of ?p "example_machine ?p" start_world "''''"
      example_repo "[''/etc'']" "[]" "[]"]
  show ?thesis
    by (simp add: example_machine_def prints_def is_summary_def example_json_def has_prefix_def)
qed

text \<open>
  \<open>EnsureRepo\<close> succeeds exactly when the snapshot list could be read, or the repository
  could be initialised, or restic says it already exists; the \<open>init\<close> command runs only after
  the snapshot list failed, and no other command runs.
\<close>

theorem ensure_repo_outcomes:
  "let probe = [''snapshots'', ''--repo'', repo_path repo, ''--json''];
       ini = [''init'', ''--repo'', repo_path repo]
   in case run_restic m rclone repo probe w of
      ((_, _, None), w1) \<Rightarrow> ensure_repo m rclone repo w = (Inr (), w1)
        \<and> w1 = attempt (restic_command m rclone repo probe) w
    | ((_, _, Some _), w1) \<Rightarrow>
        snd (ensure_repo m rclone repo w)
          = attempt (restic_command m rclone repo ini) (attempt (restic_command m rclone repo probe) w)
        \<and> (fst (ensure_repo m rclone repo w) = Inr () \<longleftrightarrow>
            snd (snd (fst (run_restic m rclone repo ini w1))) = None
            \<or> already_initialized (fst (snd (fst (run_restic m rclone repo ini w1)))))"
proof -
  let ?probe = "[''snapshots'', ''--repo'', repo_path repo, ''--json'']"
  let ?ini = "[''init'', ''--repo'', repo_path repo]"
  obtain so1 se1 e1 w1 where 1: "run_restic m rclone repo ?probe w = ((so1, se1, e1), w1)"
    by (metis prod.exhaust)
  obtain so2 se2 e2 w2 where 2: "run_restic m rclone repo ?ini w1 = ((so2, se2, e2), w2)"
    by (metis prod.exhaust)
  have "w1 = attempt (restic_command m rclone repo ?probe) w"
    using run_restic_world[of m rclone repo ?probe w] 1 by simp
  moreover have "w2 = attempt (restic_command m rclone repo ?ini) w1"
    using run_restic_world[of m rclone repo ?ini w1] 2 by simp
  ultimately show ?thesis
    using 1 2 unfolding ensure_repo_def Let_def by (auto split: option.split)
qed



text \<open>
  The password is masked only after the tail was cut, so a password that the cut splits
  is not found by the mask: when its first part \<open>x\<close> falls outside the last 4096 bytes, the
  rest \<open>y\<close> is returned in clear.
\<close>

theorem cut_password_leaks:
  assumes "m_run m (w_cmds w) (restic_command m rclone repo args) = p"
    and "po_pipe p = None" and "po_start p = None"
    and "repo_password repo = x @ y" and "x \<noteq> ''''"
    and "concat (po_stderr p) = pre @ x @ y @ post" and "length (y @ post) = max_stderr_bytes"
    and "\<not> contains (truncation_marker @ y @ post) (x @ y)"
  shows "fst (fst (stream_restic m rclone repo args f z w)) = truncation_marker @ y @ post
    \<and> contains (fst (fst (stream_restic m rclone repo args f z w))) y"
proof -
  have "last_n max_stderr_bytes (concat (po_stderr p)) = y @ post"
    using last_n_append_long[of max_stderr_bytes "y @ post" "pre @ x"] last_n_short[of "y @ post" max_stderr_bytes]
      assms(6,7) by simp
  moreover have "max_stderr_bytes < length (concat (po_stderr p))"
    using assms(5-7) by (cases x) auto
  ultimately have r: "fst (fst (stream_restic m rclone repo args f z w)) = truncation_marker @ y @ post"
    unfolding stream_restic_ran[OF assms(1-3)] using assms(4,8)
    by (simp add: tb_string_def tb_fresh_writes redact_string_absent)
  moreover have "contains (truncation_marker @ y @ post) y" unfolding contains_iff by blast
  ultimately show ?thesis by simp
qed

theorem cut_password_leaks_witness:
  "contains (fst (fst (stream_restic (example_machine (prints [] [''hunter2'' @ replicate 4090 (CHR ''.'')]))
      '''' example_repo [''prune''] (\<lambda>_ x. x) () start_world))) ''unter2''"
proof -
  let ?dots = "replicate 4090 (CHR ''.'')"
  have "CHR ''h'' \<notin> set (truncation_marker @ ''unter2'' @ ?dots)"
    by (simp add: truncation_marker_def nl_def)
  then have "\<not> contains (truncation_marker @ ''unter2'' @ ?dots) (''h'' @ ''unter2'')"
    using contains_set by fastforce
  then show ?thesis
    by (intro conjunct2[OF cut_password_leaks[where x = "''h''" and y = "''unter2''" and pre = "[]"
          and post = ?dots and p = "prints [] [''hunter2'' @ ?dots]"]])
      (simp_all add: example_machine_def prints_def example_repo_def max_stderr_bytes_def)
qed

section \<open>The commands each operation attempts\<close>

lemma run_checked_world [simp]:
  "snd (run_checked m what rclone repo args w) = attempt (restic_command m rclone repo args) w"
  using run_restic_world[of m rclone repo args w]
  by (auto simp: run_checked_def simp del: run_restic_world split: prod.split option.split)

lemma restic_backup_cmds [simp]:
  "w_cmds (snd (restic_backup m js rclone repo paths excludes tags w)) =
    w_cmds w @ [restic_command m rclone repo (backup_args repo paths excludes tags)]"
  using stream_restic_world[of m rclone repo "backup_args repo paths excludes tags" "backup_line js"
      start_scan "tick w"]
  by (auto simp: restic_backup_def Let_def simp del: stream_restic_world split: prod.split option.split)

lemma ensure_repo_cmds:
  "w_cmds (snd (ensure_repo m rclone repo w)) = w_cmds w @
      [restic_command m rclone repo [''snapshots'', ''--repo'', repo_path repo, ''--json'']]
    \<and> fst (ensure_repo m rclone repo w) = Inr ()
    \<or> w_cmds (snd (ensure_repo m rclone repo w)) = w_cmds w @
      [restic_command m rclone repo [''snapshots'', ''--repo'', repo_path repo, ''--json''],
       restic_command m rclone repo [''init'', ''--repo'', repo_path repo]]"
proof -
  let ?probe = "[''snapshots'', ''--repo'', repo_path repo, ''--json'']"
  let ?ini = "[''init'', ''--repo'', repo_path repo]"
  obtain so1 se1 e1 w1 where 1: "run_restic m rclone repo ?probe w = ((so1, se1, e1), w1)"
    by (metis prod.exhaust)
  obtain so2 se2 e2 w2 where 2: "run_restic m rclone repo ?ini w1 = ((so2, se2, e2), w2)"
    by (metis prod.exhaust)
  have "w1 = attempt (restic_command m rclone repo ?probe) w"
    using run_restic_world[of m rclone repo ?probe w] 1 by simp
  moreover have "w2 = attempt (restic_command m rclone repo ?ini) w1"
    using run_restic_world[of m rclone repo ?ini w1] 2 by simp
  ultimately show ?thesis using 1 2 by (auto simp: ensure_repo_def split: option.split)
qed

end
