(* ===== verification/ShellQuote.thy ===== *)
theory ShellQuote
  imports GoStrings
begin

text \<open>
  Quoting and template expansion of hook commands (\<open>shellQuote\<close> and \<open>expandTemplate\<close> of
  agent/internal/executor/hooks.go), and the quoting rules of the POSIX shell they rely on,
  as an abstract scanner that says which characters of a command are literal.
\<close>

section \<open>The code\<close>

definition squote :: char where "squote = CHR 0x27"
definition backslash :: char where "backslash = CHR 0x5C"
definition dquote :: char where "dquote = CHR 0x22"

definition shell_quote :: "string \<Rightarrow> string" where
  "shell_quote s = [squote] @ replace_all [squote] [squote, backslash, squote, squote] s @ [squote]"

record hook_context =
  hc_plan_name :: string
  hc_hostname :: string
  hc_status :: string
  hc_duration :: string
  hc_bytes_added :: string
  hc_files_new :: string
  hc_files_changed :: string
  hc_snapshot_id :: string
  hc_error :: string
  hc_started_at :: string
  hc_finished_at :: string

definition placeholders :: "(string \<times> (hook_context \<Rightarrow> string)) list" where
  "placeholders =
    [(''{{.PlanName}}'', hc_plan_name), (''{{.Hostname}}'', hc_hostname), (''{{.Status}}'', hc_status),
     (''{{.Duration}}'', hc_duration), (''{{.BytesAdded}}'', hc_bytes_added),
     (''{{.FilesNew}}'', hc_files_new), (''{{.FilesChanged}}'', hc_files_changed),
     (''{{.SnapshotID}}'', hc_snapshot_id), (''{{.Error}}'', hc_error),
     (''{{.StartedAt}}'', hc_started_at), (''{{.FinishedAt}}'', hc_finished_at)]"

text \<open>
  \<open>strings.NewReplacer\<close>: from left to right, at each position the first old string that
  matches is replaced, and the replacement is not scanned again.
\<close>

function replacer :: "(string \<times> 'v) list \<Rightarrow> ('v \<Rightarrow> string) \<Rightarrow> string \<Rightarrow> string" where
  "replacer tbl val s =
    (case s of
       [] \<Rightarrow> []
     | c # cs \<Rightarrow>
       (case find (\<lambda>(k, _). k \<noteq> [] \<and> has_prefix s k) tbl of
          Some (k, v) \<Rightarrow> val v @ replacer tbl val (drop (length k) s)
        | None \<Rightarrow> c # replacer tbl val cs))"
  by pat_completeness auto
termination
  by (relation "measure (\<lambda>(_, _, s). length s)") (auto simp: find_Some_iff)

declare replacer.simps [simp del]

definition expand_template :: "string \<Rightarrow> hook_context \<Rightarrow> string" where
  "expand_template cmdStr hctx = replacer placeholders (\<lambda>f. shell_quote (f hctx)) cmdStr"

section \<open>A template as a list of pieces\<close>

datatype 'v piece = Lit char | Hole 'v

function pieces :: "(string \<times> 'v) list \<Rightarrow> string \<Rightarrow> 'v piece list" where
  "pieces tbl s =
    (case s of
       [] \<Rightarrow> []
     | c # cs \<Rightarrow>
       (case find (\<lambda>(k, _). k \<noteq> [] \<and> has_prefix s k) tbl of
          Some (k, v) \<Rightarrow> Hole v # pieces tbl (drop (length k) s)
        | None \<Rightarrow> Lit c # pieces tbl cs))"
  by pat_completeness auto
termination
  by (relation "measure (\<lambda>(_, s). length s)") (auto simp: find_Some_iff)

declare pieces.simps [simp del]

fun render :: "('v \<Rightarrow> string) \<Rightarrow> 'v piece \<Rightarrow> string" where
  "render val (Lit c) = [c]"
| "render val (Hole v) = val v"

lemma replacer_pieces: "replacer tbl val s = concat (map (render val) (pieces tbl s))"
proof (induction tbl val s rule: replacer.induct)
  case (1 tbl val s)
  show ?case
  proof (cases s)
    case (Cons c cs)
    show ?thesis
    proof (cases "find (\<lambda>(k, _). k \<noteq> [] \<and> has_prefix s k) tbl")
      case None
      with 1(1)[OF Cons None] Cons show ?thesis
        by (subst replacer.simps, subst pieces.simps) simp
    next
      case (Some kv)
      obtain k v where kv: "kv = (k, v)" by fastforce
      with 1(2)[OF Cons Some, of k v] Cons Some show ?thesis
        by (subst replacer.simps, subst pieces.simps) simp
    qed
  qed (simp add: replacer.simps pieces.simps)
qed

section \<open>The shell's quoting rules\<close>

text \<open>
  Section 2.2 of the POSIX shell: a backslash outside quotes and everything between single
  quotes is literal, double quotes leave the dollar sign, the backquote and the backslash
  special, and a number sign at the start of a word begins a comment. Where the text nests
  its own quoting (backquotes, expansions inside double quotes, here-documents, the
  dollar-single-quote form), the scanner gives up in \<open>Unknown\<close> and calls every further
  character active.
\<close>

datatype mode = Start | Word | Dollar | Less | Esc | Single | Double | DDollar | DEsc | Comment | Unknown

datatype token = Literal char | Active char

definition plain_step :: "bool \<Rightarrow> char \<Rightarrow> mode \<times> token list" where
  "plain_step start c =
    (if c = squote then (Single, [])
     else if c = dquote then (Double, [])
     else if c = backslash then (Esc, [])
     else if c = CHR ''`'' then (Unknown, [Active c])
     else if c = CHR ''$'' then (Dollar, [Active c])
     else if c = CHR ''<'' then (Less, [Active c])
     else if start \<and> c = CHR ''#'' then (Comment, [])
     else if c \<in> set '' ;&|()>'' \<or> c = CHR 0x0A \<or> c = CHR 0x09 then (Start, [Active c])
     else (Word, [Active c]))"

definition double_step :: "char \<Rightarrow> mode \<times> token list" where
  "double_step c =
    (if c = dquote then (Word, [])
     else if c = backslash then (DEsc, [])
     else if c = CHR ''`'' then (Unknown, [Active c])
     else if c = CHR ''$'' then (DDollar, [Active c])
     else (Double, [Literal c]))"

fun sh_step :: "mode \<Rightarrow> char \<Rightarrow> mode \<times> token list" where
  "sh_step Start c = plain_step True c"
| "sh_step Word c = plain_step False c"
| "sh_step Dollar c = (if c = squote \<or> c = CHR ''{'' \<or> c = CHR ''('' then (Unknown, [Active c])
                       else plain_step False c)"
| "sh_step Less c = (if c = CHR ''<'' then (Unknown, [Active c]) else plain_step True c)"
| "sh_step Esc c = (Word, [Literal c])"
| "sh_step Single c = (if c = squote then (Word, []) else (Single, [Literal c]))"
| "sh_step Double c = double_step c"
| "sh_step DDollar c = (if c = CHR ''{'' \<or> c = CHR ''('' then (Unknown, [Active c]) else double_step c)"
| "sh_step DEsc c = (Double, if c \<in> {CHR ''$'', CHR ''`'', dquote, backslash, CHR 0x0A} then [Literal c]
                             else [Literal backslash, Literal c])"
| "sh_step Comment c = (if c = CHR 0x0A then (Start, [Active c]) else (Comment, []))"
| "sh_step Unknown c = (Unknown, [Active c])"

fun sh_scan :: "mode \<Rightarrow> string \<Rightarrow> mode \<times> token list" where
  "sh_scan md [] = (md, [])"
| "sh_scan md (c # s) =
    (case sh_step md c of (md1, ts) \<Rightarrow> (case sh_scan md1 s of (md2, us) \<Rightarrow> (md2, ts @ us)))"

lemma sh_scan_Cons:
  "sh_scan md (c # s) = (fst (sh_scan (fst (sh_step md c)) s),
     snd (sh_step md c) @ snd (sh_scan (fst (sh_step md c)) s))"
  by (simp split: prod.split)

declare sh_scan.simps(2) [simp del]
declare sh_scan_Cons [simp]

lemma sh_scan_append:
  "sh_scan md (s @ t) = (fst (sh_scan (fst (sh_scan md s)) t),
     snd (sh_scan md s) @ snd (sh_scan (fst (sh_scan md s)) t))"
  by (induction s arbitrary: md) simp_all

lemma quote_char_simps [simp]:
  "squote \<noteq> backslash" "backslash \<noteq> squote" "squote \<noteq> dquote" "dquote \<noteq> squote"
  "backslash \<noteq> dquote" "dquote \<noteq> backslash"
  by (simp_all add: squote_def backslash_def dquote_def)

lemma sh_scan_single:
  "sh_scan Single (replace_all [squote] [squote, backslash, squote, squote] s @ [squote])
    = (Word, map Literal s)"
proof (induction s)
  case (Cons c s)
  show ?case
  proof (cases "c = squote")
    case True
    with Cons show ?thesis by (simp add: plain_step_def)
  next
    case False
    then have "\<not> has_prefix (c # s) [squote]" by simp
    with Cons False show ?thesis by simp
  qed
qed simp

lemma shell_quote_scan:
  "md = Start \<or> md = Word \<Longrightarrow> sh_scan md (shell_quote s) = (Word, map Literal s)"
  using sh_scan_single[of s] by (auto simp: shell_quote_def plain_step_def)

text \<open>Whether every hole of a template is met outside quotes, escapes and comments.\<close>

fun holes_plain :: "mode \<Rightarrow> 'v piece list \<Rightarrow> bool" where
  "holes_plain md [] \<longleftrightarrow> True"
| "holes_plain md (Lit c # ps) \<longleftrightarrow> holes_plain (fst (sh_step md c)) ps"
| "holes_plain md (Hole v # ps) \<longleftrightarrow> (md = Start \<or> md = Word) \<and> holes_plain Word ps"

text \<open>The tokens of a template whose holes are filled with literal text.\<close>

fun scan_pieces :: "('v \<Rightarrow> string) \<Rightarrow> mode \<Rightarrow> 'v piece list \<Rightarrow> token list" where
  "scan_pieces val md [] = []"
| "scan_pieces val md (Lit c # ps) = snd (sh_step md c) @ scan_pieces val (fst (sh_step md c)) ps"
| "scan_pieces val md (Hole v # ps) = map Literal (val v) @ scan_pieces val Word ps"

lemma scan_rendered:
  assumes "holes_plain md ps"
  shows "snd (sh_scan md (concat (map (render (\<lambda>v. shell_quote (val v))) ps))) = scan_pieces val md ps"
  using assms
proof (induction ps arbitrary: md)
  case (Cons p ps)
  show ?case
  proof (cases p)
    case (Lit c)
    with Cons show ?thesis by simp
  next
    case (Hole v)
    with Cons show ?thesis
      by (auto simp: sh_scan_append shell_quote_scan split: prod.split)
  qed
qed simp

text \<open>
  For the shell, a quoted value is one word whose characters are all literal: scanning
  \<open>shellQuote(s)\<close> outside quotes yields exactly the characters of \<open>s\<close>, none of them active,
  and ends outside quotes again, for every string \<open>s\<close>.
\<close>

theorem shell_quote_is_literal:
  "sh_scan Start (shell_quote s) = (Word, map Literal s)
    \<and> sh_scan Word (shell_quote s) = (Word, map Literal s)"
  by (simp add: shell_quote_scan)


definition no_context :: hook_context where
  "no_context = \<lparr>hc_plan_name = '''', hc_hostname = '''', hc_status = '''', hc_duration = '''',
     hc_bytes_added = '''', hc_files_new = '''', hc_files_changed = '''', hc_snapshot_id = '''',
     hc_error = '''', hc_started_at = '''', hc_finished_at = ''''\<rparr>"


text \<open>
  A placeholder inside quotes the template's author wrote loses its protection: inside
  single quotes the quote that opens the value closes the author's, and every character of a
  value without quotes, here a semicolon, is active. (\<open>expandTemplate\<close> says that values
  cannot break out of the argument.)
\<close>

theorem quoted_placeholder_breaks_out:
  assumes "squote \<notin> set v" and "v \<noteq> []" and "hd v = CHR '';''"
  shows "\<exists>ts. snd (sh_scan Start (expand_template ([squote] @ ''{{.PlanName}}'' @ [squote])
      (hctx\<lparr>hc_plan_name := v\<rparr>))) = Active (CHR '';'') # ts"
proof -
  have p: "pieces placeholders ([squote] @ ''{{.PlanName}}'' @ [squote])
      = [Lit squote, Hole hc_plan_name, Lit squote]"
    by (simp add: pieces.simps placeholders_def squote_def)
  have "\<not> contains v [squote]" using assms(1) contains_set by fastforce
  then have "replace_all [squote] [squote, backslash, squote, squote] v = v"
    by (rule replace_all_absent)
  moreover obtain w where "v = CHR '';'' # w" using assms(2,3) by (cases v) auto
  moreover have "expand_template ([squote] @ ''{{.PlanName}}'' @ [squote]) (hctx\<lparr>hc_plan_name := v\<rparr>)
      = [squote] @ shell_quote v @ [squote]"
    unfolding expand_template_def replacer_pieces p by simp
  ultimately show ?thesis
    by (simp add: shell_quote_def plain_step_def squote_def dquote_def backslash_def)
qed

theorem quoted_placeholder_breaks_out_witness:
  "\<exists>ts. snd (sh_scan Start (expand_template ([squote] @ ''{{.PlanName}}'' @ [squote])
      (no_context\<lparr>hc_plan_name := '';reboot''\<rparr>))) = Active (CHR '';'') # ts"
  using quoted_placeholder_breaks_out[of "'';reboot''" no_context] by (simp add: squote_def)

end
