(* ===== verification/Hooks.thy ===== *)
theory Hooks
  imports Restic ShellQuote "HOL-Library.Multiset"
begin

text \<open>
  Running hooks (agent/internal/executor/hooks.go): the environment a hook gets, one hook,
  and the hooks of an event in order, stopped by a failing hook that aborts.
\<close>

section \<open>The environment of a hook\<close>

definition safe_env_names :: "string list" where
  "safe_env_names = [''PATH'', ''HOME'', ''USER'', ''LOGNAME'', ''SHELL'', ''LANG'', ''LC_ALL'',
     ''TMP'', ''TMPDIR'', ''TERM'', ''COLORTERM'']"

definition env_key :: "string \<Rightarrow> string" where
  "env_key entry = fst (cut entry (CHR ''=''))"

definition safe_key :: "string \<Rightarrow> bool" where
  "safe_key k \<longleftrightarrow> k \<in> set safe_env_names \<or> has_prefix k ''LC_''"

definition backup_vars :: "hook_context \<Rightarrow> string list" where
  "backup_vars h =
    [''BACKUP_PLAN_NAME='' @ hc_plan_name h, ''BACKUP_HOSTNAME='' @ hc_hostname h,
     ''BACKUP_STATUS='' @ hc_status h, ''BACKUP_DURATION='' @ hc_duration h,
     ''BACKUP_BYTES_ADDED='' @ hc_bytes_added h, ''BACKUP_FILES_NEW='' @ hc_files_new h,
     ''BACKUP_FILES_CHANGED='' @ hc_files_changed h, ''BACKUP_SNAPSHOT_ID='' @ hc_snapshot_id h,
     ''BACKUP_ERROR='' @ hc_error h, ''BACKUP_STARTED_AT='' @ hc_started_at h,
     ''BACKUP_FINISHED_AT='' @ hc_finished_at h]"

definition hook_env :: "string list \<Rightarrow> hook_context \<Rightarrow> string list" where
  "hook_env environ hctx = filter (\<lambda>entry. safe_key (env_key entry)) environ @ backup_vars hctx"

section \<open>Running one hook\<close>

record resolved_hook =
  rh_name :: string
  rh_on_event :: string
  rh_sort_order :: int
  rh_type :: string
  rh_command :: string
  rh_timeout_seconds :: int
  rh_on_error :: string

record hook_result =
  hr_hook_name :: string
  hr_phase :: string
  hr_status :: string
  hr_error :: string
  hr_output :: string
  hr_duration_ms :: int

definition hook_timeout :: "resolved_hook \<Rightarrow> int" where
  "hook_timeout hook = (if rh_timeout_seconds hook \<le> 0 then 60 else rh_timeout_seconds hook)"

definition hook_command :: "machine \<Rightarrow> resolved_hook \<Rightarrow> hook_context \<Rightarrow> command" where
  "hook_command m hook hctx =
    \<lparr>cm_name = ''sh'', cm_args = [''-c'', expand_template (rh_command hook) hctx],
     cm_env = hook_env (m_environ m) hctx, cm_dir = m_tmp m, cm_timeout = Some (hook_timeout hook)\<rparr>"

text \<open>\<open>cmd.Run\<close>: a command that could not be set up or started wrote nothing.\<close>

definition cmd_run :: "proc_outcome \<Rightarrow> go_error option \<times> string \<times> string" where
  "cmd_run p = (case po_pipe p of Some er \<Rightarrow> (Some er, [], [])
    | None \<Rightarrow> (case po_start p of Some er \<Rightarrow> (Some er, [], [])
      | None \<Rightarrow> (po_wait p, po_stdout p, concat (po_stderr p))))"

definition hook_output :: "string \<Rightarrow> string \<Rightarrow> string" where
  "hook_output out err =
    (let o1 = (if length out > 0 then trim_space out else '''')
     in if length err > 0 then o1 @ (if length o1 > 0 then nl else '''') @ trim_space err else o1)"

definition run_hook :: "machine \<Rightarrow> resolved_hook \<Rightarrow> hook_context \<Rightarrow> world \<Rightarrow> hook_result \<times> world" where
  "run_hook m hook hctx w0 =
    (let start = m_clock m (w_tick w0);
         cmd = hook_command m hook hctx;
         w1 = attempt cmd (tick w0)
     in case cmd_run (m_run m (w_cmds w0) cmd) of
          (err, out, stderr) \<Rightarrow>
            (\<lparr>hr_hook_name = rh_name hook, hr_phase = rh_on_event hook,
               hr_status = (case err of None \<Rightarrow> ''success'' | Some _ \<Rightarrow> ''failed''),
               hr_error = (case err of None \<Rightarrow> ''''
                 | Some er \<Rightarrow> if length stderr > 0 then trim_space stderr else error_text er),
               hr_output = hook_output out stderr,
               hr_duration_ms = milliseconds (m_clock m (w_tick w1) - start)\<rparr>,
             tick w1))"

section \<open>Running the hooks of an event\<close>

text \<open>The loop of \<open>RunHooks\<close> over the matching hooks, in order.\<close>

fun run_hook_list ::
  "machine \<Rightarrow> resolved_hook list \<Rightarrow> hook_context \<Rightarrow> world \<Rightarrow> (hook_result list \<times> bool) \<times> world" where
  "run_hook_list m [] hctx w = (([], False), w)"
| "run_hook_list m (hook # hooks) hctx w =
    (case run_hook m hook hctx w of (r, w1) \<Rightarrow>
       if hr_status r = ''failed'' \<and> rh_on_error hook = ''abort'' then (([r], True), w1)
       else (case run_hook_list m hooks hctx w1 of ((rs, aborted), w2) \<Rightarrow> ((r # rs, aborted), w2)))"

text \<open>
  \<open>sort.Slice\<close> is not stable, so which of two hooks with the same sort order comes first is
  up to it: it is an argument, of which only the contract of the locale below is used.
\<close>

definition run_hooks ::
  "machine \<Rightarrow> (resolved_hook list \<Rightarrow> resolved_hook list) \<Rightarrow> resolved_hook list \<Rightarrow> string \<Rightarrow> hook_context
    \<Rightarrow> world \<Rightarrow> (hook_result list \<times> bool) \<times> world" where
  "run_hooks m srt hooks event hctx w =
    run_hook_list m (srt (filter (\<lambda>h. rh_on_event h = event) hooks)) hctx w"

locale hook_sorter =
  fixes srt :: "resolved_hook list \<Rightarrow> resolved_hook list"
  assumes permutes: "mset (srt hooks) = mset hooks"
    and ordered: "sorted (map rh_sort_order (srt hooks))"
begin

lemma set_srt: "set (srt hooks) = set hooks"
  using permutes[of hooks] by (metis set_mset_mset)

lemma matching: "h \<in> set (srt (filter (\<lambda>h. rh_on_event h = event) hooks)) \<longleftrightarrow> h \<in> set hooks \<and> rh_on_event h = event"
  by (auto simp: set_srt)

end

interpretation stable_sort: hook_sorter "sort_key rh_sort_order"
  by unfold_locales simp_all

lemma w_cmds_run_hook: "w_cmds (snd (run_hook m hook hctx w)) = w_cmds w @ [hook_command m hook hctx]"
  by (simp add: run_hook_def Let_def split: prod.split)

lemma run_hook_names [simp]:
  "hr_hook_name (fst (run_hook m hook hctx w)) = rh_name hook"
  "hr_phase (fst (run_hook m hook hctx w)) = rh_on_event hook"
  by (simp_all add: run_hook_def Let_def split: prod.split)

text \<open>Whether the hook failed in this run and asks to abort.\<close>

definition aborts :: "resolved_hook \<Rightarrow> hook_result \<Rightarrow> bool" where
  "aborts hook r \<longleftrightarrow> hr_status r = ''failed'' \<and> rh_on_error hook = ''abort''"

lemma run_hook_list_spec:
  assumes "run_hook_list m hooks hctx w = ((rs, aborted), w')"
  shows "length rs \<le> length hooks
    \<and> map hr_hook_name rs = map rh_name (take (length rs) hooks)
    \<and> w_cmds w' = w_cmds w @ map (\<lambda>h. hook_command m h hctx) (take (length rs) hooks)
    \<and> (\<forall>i < length rs. aborts (hooks ! i) (rs ! i) \<longleftrightarrow> aborted \<and> Suc i = length rs)
    \<and> (if aborted then rs \<noteq> [] else length rs = length hooks)"
  using assms
proof (induction hooks arbitrary: w rs)
  case (Cons hook hooks)
  obtain r w1 where r: "run_hook m hook hctx w = (r, w1)" by fastforce
  have w1: "w_cmds w1 = w_cmds w @ [hook_command m hook hctx]" and rn: "hr_hook_name r = rh_name hook"
    using w_cmds_run_hook[of m hook hctx w] run_hook_names(1)[of m hook hctx w] r by simp_all
  obtain rs2 b w2 where 2: "run_hook_list m hooks hctx w1 = ((rs2, b), w2)" by (metis prod.exhaust)
  show ?case
  proof (cases "aborts hook r")
    case True
    then have "rs = [r] \<and> aborted \<and> w' = w1" using Cons.prems r by (auto simp: aborts_def)
    with True w1 rn show ?thesis by auto
  next
    case False
    then have e: "rs = r # rs2 \<and> aborted = b \<and> w' = w2" using Cons.prems r 2 by (auto simp: aborts_def)
    from Cons.IH[of w1 rs2] 2 e w1 rn False show ?thesis
      by (auto simp: nth_Cons less_Suc_eq_0_disj split: nat.split)
  qed
qed simp
section \<open>Properties\<close>

text \<open>
  The hooks of an event run one after another in sort order, each once, as a prefix of
  one ordering of the matching hooks: with no abort all of them run, and with an abort the
  last one that ran failed and has \<open>on_error = abort\<close>, no earlier one did, and nothing after
  it runs.
\<close>

theorem run_hooks_order:
  assumes "hook_sorter srt" and "run_hooks m srt hooks event hctx w = ((rs, aborted), w')"
  shows "\<exists>hs. mset hs = mset (filter (\<lambda>h. rh_on_event h = event) hooks)
    \<and> sorted (map rh_sort_order hs) \<and> length rs \<le> length hs
    \<and> map hr_hook_name rs = map rh_name (take (length rs) hs)
    \<and> w_cmds w' = w_cmds w @ map (\<lambda>h. hook_command m h hctx) (take (length rs) hs)
    \<and> (\<forall>i < length rs. aborts (hs ! i) (rs ! i) \<longleftrightarrow> aborted \<and> Suc i = length rs)
    \<and> (if aborted then rs \<noteq> [] else length rs = length hs)"
  using hook_sorter.permutes[OF assms(1), of "filter (\<lambda>h. rh_on_event h = event) hooks"]
    hook_sorter.ordered[OF assms(1), of "filter (\<lambda>h. rh_on_event h = event) hooks"]
    run_hook_list_spec[OF assms(2)[unfolded run_hooks_def]]
  by blast

definition example_hook :: "string \<Rightarrow> int \<Rightarrow> string \<Rightarrow> resolved_hook" where
  "example_hook n k on_error = \<lparr>rh_name = n, rh_on_event = ''pre_backup'', rh_sort_order = k,
     rh_type = ''command'', rh_command = ''true'', rh_timeout_seconds = 0, rh_on_error = on_error\<rparr>"

definition failing :: proc_outcome where
  "failing = \<lparr>po_pipe = None, po_start = None, po_stdout = [], po_stderr = [''no space''],
     po_wait = Some (Msg ''exit status 1'')\<rparr>"

theorem run_hooks_order_witness:
  "\<exists>hs. mset hs = mset [example_hook ''b'' 2 ''abort'', example_hook ''a'' 1 ''abort'']
    \<and> map hr_hook_name (fst (fst (run_hooks (example_machine failing) (sort_key rh_sort_order)
        [example_hook ''b'' 2 ''abort'', example_hook ''a'' 1 ''abort''] ''pre_backup'' no_context start_world)))
      = map rh_name (take 1 hs)"
proof -
  let ?hooks = "[example_hook ''b'' 2 ''abort'', example_hook ''a'' 1 ''abort'']"
  obtain rs ab w' where r: "run_hooks (example_machine failing) (sort_key rh_sort_order) ?hooks ''pre_backup''
      no_context start_world = ((rs, ab), w')" by (metis prod.exhaust)
  then have "length rs = 1"
    by (auto simp: run_hooks_def example_hook_def run_hook_def cmd_run_def failing_def example_machine_def Let_def)
  with run_hooks_order[OF stable_sort.hook_sorter_axioms r] r show ?thesis
    by (auto simp: example_hook_def)
qed

text \<open>
  A hook's environment holds the \<open>BACKUP_\<close> variables and, of the agent's own environment,
  only entries whose name is on the safe list or begins with \<open>LC_\<close>: no entry with another
  name, such as \<open>RESTIC_PASSWORD\<close>, is passed on, and what other entries hold has no
  influence on what a hook sees.
\<close>

theorem hook_env_is_safe:
  assumes "filter (\<lambda>x. safe_key (env_key x)) environ = filter (\<lambda>x. safe_key (env_key x)) environ'"
    and "x \<in> set (hook_env environ hctx)"
  shows "hook_env environ hctx = hook_env environ' hctx
    \<and> (x \<in> set (backup_vars hctx) \<or> x \<in> set environ \<and> safe_key (env_key x))
    \<and> \<not> safe_key ''RESTIC_PASSWORD'' \<and> \<not> safe_key ''RCLONE_CONFIG''"
proof -
  have "hook_env environ hctx = hook_env environ' hctx" using assms(1) by (simp add: hook_env_def)
  moreover have "x \<in> set (backup_vars hctx) \<or> x \<in> set environ \<and> safe_key (env_key x)"
    using assms(2) by (auto simp: hook_env_def)
  moreover have "\<not> safe_key ''RESTIC_PASSWORD'' \<and> \<not> safe_key ''RCLONE_CONFIG''" by code_simp
  ultimately show ?thesis by blast
qed

theorem hook_env_is_safe_witness:
  "hook_env [''PATH=/bin'', ''RESTIC_PASSWORD=x''] no_context = hook_env [''PATH=/bin''] no_context"
proof -
  have "filter (\<lambda>x. safe_key (env_key x)) [''PATH=/bin'', ''RESTIC_PASSWORD=x'']
      = filter (\<lambda>x. safe_key (env_key x)) [''PATH=/bin'']" by code_simp
  moreover have "''BACKUP_STATUS='' \<in> set (hook_env [''PATH=/bin'', ''RESTIC_PASSWORD=x''] no_context)"
    by (simp add: hook_env_def backup_vars_def no_context_def)
  ultimately show ?thesis using hook_env_is_safe by blast
qed

end
