(* ===== verification/Backup.thy ===== *)
theory Backup
  imports Hooks
begin

text \<open>
  The backup job (agent/internal/executor/backup.go): hooks, the backup of every repository
  of the plan with retention and pruning, the status of the job, and its report. Log lines
  are not modelled.
\<close>

section \<open>Messages\<close>

record backup_plan =
  bp_id :: string
  bp_name :: string
  bp_paths :: "string list"
  bp_excludes :: "string list"
  bp_tags :: "string list"
  bp_repository_ids :: "string list"
  bp_schedule :: string
  bp_forget_after_backup :: bool
  bp_prune_after_forget :: bool
  bp_prune_schedule :: string
  bp_retention :: "retention_policy option"
  bp_hooks :: "resolved_hook list"
  bp_enabled :: bool

record repository_result =
  rr_repository_id :: string
  rr_repository_name :: string
  rr_status :: string
  rr_snapshot_id :: string
  rr_error :: string
  rr_files_new :: int
  rr_files_changed :: int
  rr_files_unmodified :: int
  rr_bytes_added :: int
  rr_total_bytes :: int
  rr_duration_ms :: int

record hook_report =
  hp_hook_name :: string
  hp_phase :: string
  hp_status :: string
  hp_error :: string
  hp_duration_ms :: int

record job_report =
  jr_job_id :: string
  jr_plan_id :: string
  jr_plan_name :: string
  jr_type :: string
  jr_trigger :: string
  jr_status :: string
  jr_started_at :: int
  jr_finished_at :: int
  jr_repository_results :: "repository_result list"
  jr_hook_results :: "hook_report list"

record orchestrator =
  jo_rclone :: string
  jo_agent_name :: string

definition empty_result :: repository_result where
  "empty_result = \<lparr>rr_repository_id = '''', rr_repository_name = '''', rr_status = '''',
     rr_snapshot_id = '''', rr_error = '''', rr_files_new = 0, rr_files_changed = 0,
     rr_files_unmodified = 0, rr_bytes_added = 0, rr_total_bytes = 0, rr_duration_ms = 0\<rparr>"

section \<open>One repository\<close>

definition resolve_retention ::
  "retention_policy option \<Rightarrow> retention_policy option \<Rightarrow> retention_policy option" where
  "resolve_retention planRetention defaultRetention =
    (case planRetention of Some r \<Rightarrow> Some r | None \<Rightarrow> defaultRetention)"

text \<open>The forget and prune steps after a successful backup; their failures are only logged.\<close>

definition forget_and_prune ::
  "machine \<Rightarrow> string \<Rightarrow> repository \<Rightarrow> backup_plan \<Rightarrow> string list \<Rightarrow> retention_policy option
    \<Rightarrow> world \<Rightarrow> world" where
  "forget_and_prune m rclone repo plan tags defaultRetention w =
    (if bp_forget_after_backup plan then
       (case resolve_retention (bp_retention plan) defaultRetention of
          None \<Rightarrow> w
        | Some rp \<Rightarrow>
          (let w1 = snd (restic_forget m rclone repo rp tags w)
           in if bp_prune_after_forget plan then snd (restic_prune m rclone repo w1) else w1))
     else w)"

definition backup_to_repo ::
  "machine \<Rightarrow> restic_json \<Rightarrow> orchestrator \<Rightarrow> repository \<Rightarrow> backup_plan \<Rightarrow> string list
    \<Rightarrow> retention_policy option \<Rightarrow> world \<Rightarrow> repository_result \<times> world" where
  "backup_to_repo m js jo repo plan tags defaultRetention w0 =
    (let rclone = jo_rclone jo;
         repoStart = m_clock m (w_tick w0);
         since = (\<lambda>w. milliseconds (m_clock m (w_tick w) - repoStart))
     in case ensure_repo m rclone repo (tick w0) of
          (Inl er, w1) \<Rightarrow>
            (empty_result\<lparr>rr_status := ''failed'', rr_error := ''ensure repo: '' @ error_text er,
               rr_duration_ms := since w1\<rparr>, tick w1)
        | (Inr _, w1) \<Rightarrow>
          (case restic_backup m js rclone repo (bp_paths plan) (bp_excludes plan) tags w1 of
             (Inl er, w2) \<Rightarrow>
               (empty_result\<lparr>rr_status := ''failed'', rr_error := ''backup: '' @ error_text er,
                  rr_duration_ms := since w2\<rparr>, tick w2)
           | (Inr b, w2) \<Rightarrow>
             (let w3 = forget_and_prune m rclone repo plan tags defaultRetention w2
              in (empty_result\<lparr>rr_status := ''success'', rr_snapshot_id := br_snapshot_id b,
                    rr_files_new := br_files_new b, rr_files_changed := br_files_changed b,
                    rr_files_unmodified := br_files_unmodified b, rr_bytes_added := br_bytes_added b,
                    rr_total_bytes := br_total_bytes b, rr_duration_ms := since w3\<rparr>, tick w3))))"

section \<open>All repositories of a plan\<close>

definition repo_map :: "repository list \<Rightarrow> string \<Rightarrow> repository option" where
  "repo_map repos = map_of (rev (map (\<lambda>r. (repo_id r, r)) repos))"

definition skipped_result :: "string \<Rightarrow> repository_result" where
  "skipped_result repoID = empty_result\<lparr>rr_repository_id := repoID, rr_repository_name := ''unknown'',
     rr_status := ''skipped'', rr_error := ''repository not found in config''\<rparr>"

definition backup_repo_id ::
  "machine \<Rightarrow> restic_json \<Rightarrow> orchestrator \<Rightarrow> repository list \<Rightarrow> backup_plan \<Rightarrow> string list
    \<Rightarrow> retention_policy option \<Rightarrow> string \<Rightarrow> world \<Rightarrow> repository_result \<times> world" where
  "backup_repo_id m js jo repos plan tags defaultRetention repoID w =
    (case repo_map repos repoID of
       None \<Rightarrow> (skipped_result repoID, w)
     | Some repo \<Rightarrow>
       (case backup_to_repo m js jo repo plan tags defaultRetention w of
          (r, w1) \<Rightarrow> (r\<lparr>rr_repository_id := repoID, rr_repository_name := repo_name repo\<rparr>, w1)))"

fun backup_repos ::
  "machine \<Rightarrow> restic_json \<Rightarrow> orchestrator \<Rightarrow> repository list \<Rightarrow> backup_plan \<Rightarrow> string list
    \<Rightarrow> retention_policy option \<Rightarrow> string list \<Rightarrow> world \<Rightarrow> repository_result list \<times> world" where
  "backup_repos m js jo repos plan tags dr [] w = ([], w)"
| "backup_repos m js jo repos plan tags dr (repoID # ids) w =
    (case backup_repo_id m js jo repos plan tags dr repoID w of (r, w1) \<Rightarrow>
       (case backup_repos m js jo repos plan tags dr ids w1 of (rs, w2) \<Rightarrow> (r # rs, w2)))"

text \<open>The counters of the loop, and the status they give.\<close>

definition success_count :: "repository_result list \<Rightarrow> nat" where
  "success_count rs = length (filter (\<lambda>r. rr_status r = ''success'') rs)"

definition fail_count :: "repository_result list \<Rightarrow> nat" where
  "fail_count rs = length (filter (\<lambda>r. rr_status r \<noteq> ''success'') rs)"

definition aggregate_status :: "repository_result list \<Rightarrow> string" where
  "aggregate_status rs =
    (if fail_count rs = 0 then ''success'' else if success_count rs = 0 then ''failed'' else ''partial'')"

text \<open>The sums shown to hooks wrap like \<open>int64\<close>.\<close>

definition sum64 :: "(repository_result \<Rightarrow> int) \<Rightarrow> repository_result list \<Rightarrow> int" where
  "sum64 f rs = fold (\<lambda>r acc. to_int64 (acc + f r)) (filter (\<lambda>r. rr_status r = ''success'') rs) 0"

definition last_snapshot :: "repository_result list \<Rightarrow> string" where
  "last_snapshot rs = fold (\<lambda>r s. if rr_status r = ''success'' \<and> rr_snapshot_id r \<noteq> ''''
     then rr_snapshot_id r else s) rs ''''"

section \<open>The job\<close>

definition job_tags :: "string \<Rightarrow> backup_plan \<Rightarrow> string \<Rightarrow> string list" where
  "job_tags agentName plan trigger =
    [''agent:'' @ agentName, ''plan:'' @ bp_name plan, ''trigger:'' @ trigger] @ bp_tags plan"

definition convert_hook_results :: "hook_result list \<Rightarrow> hook_report list" where
  "convert_hook_results rs = map (\<lambda>r. \<lparr>hp_hook_name = hr_hook_name r, hp_phase = hr_phase r,
     hp_status = hr_status r, hp_error = hr_error r, hp_duration_ms = hr_duration_ms r\<rparr>) rs"

definition pre_context :: "machine \<Rightarrow> orchestrator \<Rightarrow> backup_plan \<Rightarrow> int \<Rightarrow> hook_context" where
  "pre_context m jo plan startedAt = no_context\<lparr>hc_plan_name := bp_name plan,
     hc_hostname := jo_agent_name jo, hc_started_at := m_rfc3339 m startedAt\<rparr>"

definition post_context ::
  "machine \<Rightarrow> orchestrator \<Rightarrow> backup_plan \<Rightarrow> int \<Rightarrow> int \<Rightarrow> repository_result list \<Rightarrow> hook_context" where
  "post_context m jo plan startedAt finishedAt rs =
    (pre_context m jo plan startedAt)\<lparr>hc_status := aggregate_status rs,
       hc_duration := m_duration m (finishedAt - startedAt),
       hc_finished_at := m_rfc3339 m finishedAt,
       hc_bytes_added := show_int (sum64 rr_bytes_added rs),
       hc_files_new := show_int (sum64 rr_files_new rs),
       hc_files_changed := show_int (sum64 rr_files_changed rs),
       hc_snapshot_id := last_snapshot rs,
       hc_error := (if aggregate_status rs = ''failed'' then ''all repositories failed'' else '''')\<rparr>"

definition execute_backup_job ::
  "machine \<Rightarrow> restic_json \<Rightarrow> (resolved_hook list \<Rightarrow> resolved_hook list) \<Rightarrow> orchestrator \<Rightarrow> backup_plan
    \<Rightarrow> repository list \<Rightarrow> retention_policy option \<Rightarrow> string \<Rightarrow> world \<Rightarrow> job_report \<times> world" where
  "execute_backup_job m js srt jo plan repos defaultRetention trigger w0 =
    (let jobID = m_uuid m (w_tick w0);
         startedAt = m_clock m (w_tick w0);
         tags = job_tags (jo_agent_name jo) plan trigger;
         hctx = pre_context m jo plan startedAt;
         report = (\<lambda>status finishedAt rs hrs.
           \<lparr>jr_job_id = jobID, jr_plan_id = bp_id plan, jr_plan_name = bp_name plan,
            jr_type = ''backup'', jr_trigger = trigger, jr_status = status,
            jr_started_at = startedAt, jr_finished_at = finishedAt,
            jr_repository_results = rs, jr_hook_results = convert_hook_results hrs\<rparr>)
     in case run_hooks m srt (bp_hooks plan) ''pre_backup'' hctx (tick w0) of
          ((preResults, aborted), w1) \<Rightarrow>
            if aborted then
              (let finishedAt = m_clock m (w_tick w1);
                   hctx1 = hctx\<lparr>hc_status := ''failed'', hc_finished_at := m_rfc3339 m finishedAt,
                             hc_error := ''pre_backup hook aborted''\<rparr>
               in case run_hooks m srt (bp_hooks plan) ''on_failure'' hctx1 (tick w1) of
                    ((failResults, _), w2) \<Rightarrow> (report ''failed'' finishedAt [] (preResults @ failResults), w2))
            else
              (case backup_repos m js jo repos plan tags defaultRetention (bp_repository_ids plan) w1 of
                 (rs, w2) \<Rightarrow>
                   (let finishedAt = m_clock m (w_tick w2);
                        status = aggregate_status rs;
                        hctx2 = post_context m jo plan startedAt finishedAt rs
                    in case run_hooks m srt (bp_hooks plan) ''post_backup'' hctx2 (tick w2) of
                         ((postResults, _), w3) \<Rightarrow>
                           (case run_hooks m srt (bp_hooks plan)
                                   (if status = ''success'' then ''on_success'' else ''on_failure'') hctx2 w3 of
                              ((endResults, _), w4) \<Rightarrow>
                                (report status finishedAt rs (preResults @ postResults @ endResults), w4)))))"

section \<open>The commands of a job\<close>

definition verb :: "command \<Rightarrow> string" where
  "verb c = hd (cm_args c)"

lemma verb_restic [simp]: "verb (restic_command m rclone repo (v # args)) = v"
  by (simp add: verb_def restic_command_def)

definition cleanup_verbs :: "backup_plan \<Rightarrow> retention_policy option \<Rightarrow> string list" where
  "cleanup_verbs plan dr =
    (if bp_forget_after_backup plan \<and> resolve_retention (bp_retention plan) dr \<noteq> None
     then ''forget'' # (if bp_prune_after_forget plan then [''prune''] else []) else [])"

lemma forget_and_prune_verbs:
  "map verb (w_cmds (forget_and_prune m rclone repo plan tags dr w)) = map verb (w_cmds w) @ cleanup_verbs plan dr"
  by (auto simp: forget_and_prune_def cleanup_verbs_def restic_forget_def restic_prune_def
      forget_args_def Let_def split: option.split)

lemma backup_to_repo_verbs:
  assumes "backup_to_repo m js jo repo plan tags dr w = (r, w')"
  shows "\<exists>ini. (ini = [] \<or> ini = [''init''])
    \<and> (rr_status r = ''failed'' \<and> map verb (w_cmds w') = map verb (w_cmds w) @ [''snapshots'', ''init'']
       \<or> rr_status r = ''failed''
          \<and> map verb (w_cmds w') = map verb (w_cmds w) @ [''snapshots''] @ ini @ [''backup'']
       \<or> rr_status r = ''success''
          \<and> map verb (w_cmds w') = map verb (w_cmds w) @ [''snapshots''] @ ini @ [''backup''] @ cleanup_verbs plan dr)"
proof -
  obtain e1 w1 where 1: "ensure_repo m (jo_rclone jo) repo (tick w) = (e1, w1)" by fastforce
  obtain b w2 where 2: "restic_backup m js (jo_rclone jo) repo (bp_paths plan) (bp_excludes plan) tags w1
      = (b, w2)" by fastforce
  have c2: "map verb (w_cmds w2) = map verb (w_cmds w1) @ [''backup'']"
    using restic_backup_cmds[of m js "jo_rclone jo" repo "bp_paths plan" "bp_excludes plan" tags w1] 2
    by (simp add: backup_args_def)
  from ensure_repo_cmds[of m "jo_rclone jo" repo "tick w"] 1
  consider (probe) "e1 = Inr ()" "map verb (w_cmds w1) = map verb (w_cmds w) @ [''snapshots'']"
    | (ini) "map verb (w_cmds w1) = map verb (w_cmds w) @ [''snapshots'', ''init'']"
    by auto
  then show ?thesis
  proof cases
    case probe
    then show ?thesis using assms 1 2 c2
      by (cases b) (auto simp: backup_to_repo_def forget_and_prune_verbs Let_def intro!: exI[of _ "[]"])
  next
    case ini
    then show ?thesis using assms 1 2 c2
      by (cases e1; cases b) (auto simp: backup_to_repo_def forget_and_prune_verbs Let_def intro!: exI[of _ "[''init'']"])
  qed
qed

lemma backup_repo_id_simps:
  "rr_repository_id (fst (backup_repo_id m js jo repos plan tags dr i w)) = i"
  by (auto simp: backup_repo_id_def skipped_result_def split: option.split prod.split)

lemma backup_repos_ids:
  "map rr_repository_id (fst (backup_repos m js jo repos plan tags dr ids w)) = ids"
proof (induction ids arbitrary: w)
  case (Cons i ids)
  obtain r w1 where 1: "backup_repo_id m js jo repos plan tags dr i w = (r, w1)" by fastforce
  then have "rr_repository_id r = i" using backup_repo_id_simps by (metis fst_conv)
  then show ?case using Cons[of w1] 1 by (auto split: prod.split)
qed simp

lemma aggregate_status_cases:
  "aggregate_status rs = (if list_all (\<lambda>r. rr_status r = ''success'') rs then ''success''
     else if list_all (\<lambda>r. rr_status r \<noteq> ''success'') rs then ''failed'' else ''partial'')"
  by (auto simp: aggregate_status_def fail_count_def success_count_def filter_empty_conv list_all_iff)

lemma run_hook_list_phases:
  "r \<in> set (fst (fst (run_hook_list m hooks hctx w))) \<Longrightarrow> hr_phase r \<in> rh_on_event ` set hooks"
proof (induction hooks arbitrary: w)
  case (Cons h hooks)
  obtain r1 w1 where 1: "run_hook m h hctx w = (r1, w1)" by fastforce
  have "hr_phase r1 = rh_on_event h" using run_hook_names(2)[of m h hctx w] 1 by simp
  with Cons.prems 1 Cons.IH[of w1] show ?case
    by (auto split: prod.splits if_splits)
qed simp

lemma run_hooks_phase:
  assumes "hook_sorter srt" and "run_hooks m srt hooks event hctx w = ((rs, ab), w')" and "r \<in> set rs"
  shows "hr_phase r = event"
proof -
  have "hr_phase r \<in> rh_on_event ` set (srt (filter (\<lambda>h. rh_on_event h = event) hooks))"
    using run_hook_list_phases assms(2,3) unfolding run_hooks_def by (metis fst_conv)
  then show ?thesis using hook_sorter.set_srt[OF assms(1)] by auto
qed

lemma run_hook_list_names:
  assumes "run_hook_list m hooks hctx w = ((rs, ab), w')"
  shows "\<exists>cs. w_cmds w' = w_cmds w @ cs \<and> (\<forall>c\<in>set cs. cm_name c = ''sh'')"
proof -
  have "w_cmds w' = w_cmds w @ map (\<lambda>h. hook_command m h hctx) (take (length rs) hooks)"
    using run_hook_list_spec[OF assms] by blast
  then show ?thesis by (auto simp: hook_command_def)
qed

lemma run_hooks_names:
  "run_hooks m srt hooks event hctx w = ((rs, ab), w') \<Longrightarrow>
    \<exists>cs. w_cmds w' = w_cmds w @ cs \<and> (\<forall>c\<in>set cs. cm_name c = ''sh'')"
  unfolding run_hooks_def by (rule run_hook_list_names)

lemma run_hooks_exist: "\<exists>rs ab w'. run_hooks m srt hooks event hctx w = ((rs, ab), w')"
  by (metis prod.exhaust)

section \<open>Properties\<close>

text \<open>
  Backing up one repository runs the commands in the order snapshots, init (only when the
  snapshots command failed), backup, forget, prune: the result is a failure when the
  repository could not be reached or the backup failed, and then neither forget nor prune
  runs; after a successful backup forget runs when it is configured and a policy exists,
  prune only after forget, and their failures leave the result a success.
\<close>

theorem repository_backup_steps:
  "\<exists>ini verbs. (ini = [] \<or> ini = [''init''])
    \<and> map verb (w_cmds (snd (backup_to_repo m js jo repo plan tags dr w))) = map verb (w_cmds w) @ verbs
    \<and> (case rr_status (fst (backup_to_repo m js jo repo plan tags dr w)) = ''success'' of
         True \<Rightarrow> verbs = [''snapshots''] @ ini @ [''backup''] @ cleanup_verbs plan dr
       | False \<Rightarrow> rr_status (fst (backup_to_repo m js jo repo plan tags dr w)) = ''failed''
           \<and> verbs \<in> {[''snapshots'', ''init''], [''snapshots''] @ ini @ [''backup'']})"
proof -
  obtain r w' where r: "backup_to_repo m js jo repo plan tags dr w = (r, w')" by fastforce
  from backup_to_repo_verbs[OF r] show ?thesis unfolding r by auto
qed

text \<open>
  C32. The report of a job whose pre-backup hooks did not abort has one result per repository
  id of the plan, in the plan's order, and its status is success when every repository
  succeeded, failed when none did, and partial otherwise.
\<close>

theorem job_report_status:
  assumes "run_hooks m srt (bp_hooks plan) ''pre_backup'' (pre_context m jo plan (m_clock m (w_tick w))) (tick w)
      = ((rs, False), w1)"
    and "r = fst (execute_backup_job m js srt jo plan repos dr trigger w)"
  shows "map rr_repository_id (jr_repository_results r) = bp_repository_ids plan
    \<and> jr_status r =
       (if list_all (\<lambda>x. rr_status x = ''success'') (jr_repository_results r) then ''success''
        else if list_all (\<lambda>x. rr_status x \<noteq> ''success'') (jr_repository_results r) then ''failed''
        else ''partial'')"
  using assms backup_repos_ids[of m js jo repos plan "job_tags (jo_agent_name jo) plan trigger" dr
      "bp_repository_ids plan" w1]
  by (auto simp: execute_backup_job_def Let_def aggregate_status_cases split: prod.splits)

definition example_plan :: backup_plan where
  "example_plan = \<lparr>bp_id = ''p1'', bp_name = ''etc'', bp_paths = [''/etc''], bp_excludes = [],
     bp_tags = [], bp_repository_ids = [''r1'', ''r2''], bp_schedule = ''@daily'',
     bp_forget_after_backup = True, bp_prune_after_forget = False, bp_prune_schedule = '''',
     bp_retention = None, bp_hooks = [], bp_enabled = True\<rparr>"

definition example_orchestrator :: orchestrator where
  "example_orchestrator = \<lparr>jo_rclone = '''', jo_agent_name = ''web''\<rparr>"

theorem job_report_status_witness:
  "map rr_repository_id (jr_repository_results (fst (execute_backup_job (example_machine failing) example_json
      (sort_key rh_sort_order) example_orchestrator example_plan [example_repo] None ''manual'' start_world)))
    = [''r1'', ''r2'']"
  using job_report_status[of "example_machine failing" "sort_key rh_sort_order" example_plan example_orchestrator
      start_world "[]" "tick start_world", OF _ refl]
  by (simp add: example_plan_def run_hooks_def)

text \<open>
  When a pre-backup hook aborts, no restic command runs: every command of the job is a
  hook, the report has no repository result and the status failed; of the other hooks only
  those of \<open>on_failure\<close> run. The post-backup hooks do not run, although the step list of
  \<open>ExecuteBackupJob\<close> says that they always do.
\<close>

theorem aborted_job_runs_no_backup:
  assumes "hook_sorter srt"
    and "run_hooks m srt (bp_hooks plan) ''pre_backup'' (pre_context m jo plan (m_clock m (w_tick w))) (tick w)
      = ((pre, True), w1)"
    and "execute_backup_job m js srt jo plan repos dr trigger w = (r, w')"
  shows "jr_status r = ''failed'' \<and> jr_repository_results r = []
    \<and> (\<exists>cs. w_cmds w' = w_cmds w @ cs \<and> list_all (\<lambda>c. cm_name c = ''sh'') cs)
    \<and> list_all (\<lambda>h. hp_phase h \<in> {''pre_backup'', ''on_failure''}) (jr_hook_results r)"
proof -
  define h where h: "h = (pre_context m jo plan (m_clock m (w_tick w)))\<lparr>hc_status := ''failed'',
      hc_finished_at := m_rfc3339 m (m_clock m (w_tick w1)), hc_error := ''pre_backup hook aborted''\<rparr>"
  obtain fl ab w2 where fl: "run_hooks m srt (bp_hooks plan) ''on_failure'' h (tick w1) = ((fl, ab), w2)"
    using run_hooks_exist by blast
  have r: "jr_status r = ''failed'' \<and> jr_repository_results r = [] \<and> w' = w2
      \<and> jr_hook_results r = convert_hook_results (pre @ fl)"
    using assms(2,3) fl unfolding h by (auto simp: execute_backup_job_def Let_def)
  obtain c1 c2 where "w_cmds w1 = w_cmds w @ c1" "\<forall>c\<in>set c1. cm_name c = ''sh''"
      "w_cmds w2 = w_cmds w1 @ c2" "\<forall>c\<in>set c2. cm_name c = ''sh''"
    using run_hooks_names[OF assms(2)] run_hooks_names[OF fl] by auto
  then have "\<exists>cs. w_cmds w' = w_cmds w @ cs \<and> list_all (\<lambda>c. cm_name c = ''sh'') cs"
    using r by (intro exI[of _ "c1 @ c2"]) (auto simp: list_all_iff)
  moreover have "list_all (\<lambda>h. hp_phase h \<in> {''pre_backup'', ''on_failure''}) (jr_hook_results r)"
    using r run_hooks_phase[OF assms(1,2)] run_hooks_phase[OF assms(1) fl]
    by (auto simp: convert_hook_results_def list_all_iff)
  ultimately show ?thesis using r by simp
qed

theorem aborted_job_runs_no_backup_witness:
  "jr_status (fst (execute_backup_job (example_machine failing) example_json (sort_key rh_sort_order)
      example_orchestrator (example_plan\<lparr>bp_hooks := [example_hook ''a'' 1 ''abort'']\<rparr>) [example_repo] None
      ''manual'' start_world)) = ''failed''"
proof -
  let ?plan = "example_plan\<lparr>bp_hooks := [example_hook ''a'' 1 ''abort'']\<rparr>"
  let ?m = "example_machine failing"
  obtain pre ab w1 where 1: "run_hooks ?m (sort_key rh_sort_order) (bp_hooks ?plan) ''pre_backup''
      (pre_context ?m example_orchestrator ?plan (m_clock ?m (w_tick start_world))) (tick start_world)
      = ((pre, ab), w1)" using run_hooks_exist by blast
  then have ab by (auto simp: run_hooks_def example_hook_def run_hook_def cmd_run_def failing_def
      example_machine_def Let_def)
  with 1 have "run_hooks ?m (sort_key rh_sort_order) (bp_hooks ?plan) ''pre_backup''
      (pre_context ?m example_orchestrator ?plan (m_clock ?m (w_tick start_world))) (tick start_world)
      = ((pre, True), w1)" by simp
  from aborted_job_runs_no_backup[OF stable_sort.hook_sorter_axioms this] show ?thesis
    by (metis prod.collapse)
qed

text \<open>
  A job for a plan that names no repository reports success, although nothing was backed
  up: no result is in the report, and no command ran but the plan's hooks.
\<close>

theorem plan_without_repositories_succeeds:
  assumes "bp_repository_ids plan = []" and "bp_hooks plan = []" and "hook_sorter srt"
  shows "jr_status (fst (execute_backup_job m js srt jo plan repos dr trigger w)) = ''success''
    \<and> w_cmds (snd (execute_backup_job m js srt jo plan repos dr trigger w)) = w_cmds w"
proof -
  have "srt [] = []" using hook_sorter.set_srt[OF assms(3), of "[]"] by simp
  then show ?thesis using assms(1,2)
    by (simp add: execute_backup_job_def run_hooks_def Let_def aggregate_status_cases)
qed

theorem plan_without_repositories_succeeds_witness:
  "jr_status (fst (execute_backup_job (example_machine failing) example_json (sort_key rh_sort_order)
      example_orchestrator (example_plan\<lparr>bp_repository_ids := []\<rparr>) [example_repo] None ''manual'' start_world))
    = ''success''"
  using plan_without_repositories_succeeds[of "example_plan\<lparr>bp_repository_ids := []\<rparr>" "sort_key rh_sort_order",
      OF _ _ stable_sort.hook_sorter_axioms]
  by (simp add: example_plan_def)

text \<open>
  The forget command of a plan reaches snapshots of other plans: restic considers the
  snapshots that carry any of the \<open>--tag\<close> lists of the command, and the job passes each of
  its tags as a list of its own, so a snapshot that shares only the agent's tag is considered
  too. (\<open>selects\<close> stands for restic's filter; the hypothesis is its documented behaviour for a
  tag without a comma.)
\<close>

theorem forget_reaches_other_plans:
  assumes "\<And>pre v post st. v \<in> set st \<Longrightarrow> CHR '','' \<notin> set v \<Longrightarrow> selects (pre @ [''--tag'', v] @ post) st"
    and "CHR '','' \<notin> set agent"
  shows "selects (forget_args repo rp (job_tags agent plan trigger)) (job_tags agent other trigger')"
proof -
  have "\<exists>pre post. forget_args repo rp (job_tags agent plan trigger)
      = pre @ [''--tag'', ''agent:'' @ agent] @ post"
    by (simp add: forget_args_def job_tags_def flag_each_def)
      (metis append.assoc append_Cons append_Nil)
  moreover have "CHR '','' \<notin> set (''agent:'' @ agent)" using assms(2) by simp
  ultimately show ?thesis using assms(1)[of "''agent:'' @ agent"] by (fastforce simp: job_tags_def)
qed

theorem forget_reaches_other_plans_witness:
  "\<exists>pre v post. forget_args example_repo rp (job_tags ''web'' example_plan ''manual'') = pre @ [''--tag'', v] @ post
    \<and> v \<in> set (job_tags ''web'' (example_plan\<lparr>bp_name := ''home''\<rparr>) ''scheduled'')"
  using forget_reaches_other_plans[of "\<lambda>args st. \<exists>pre v post. args = pre @ [''--tag'', v] @ post \<and> v \<in> set st"
      "''web''" example_repo rp example_plan "''manual''" "example_plan\<lparr>bp_name := ''home''\<rparr>" "''scheduled''"]
  by auto

end

