(* ===== verification/Scheduler.thy ===== *)
theory Scheduler
  imports Backup
begin

text \<open>
  The scheduler of the agent (agent/internal/scheduler/scheduler.go): the cron table, and the
  concurrency policy. Every trigger runs in a goroutine of its own; the goroutines are
  threads of a step relation that interleaves their critical sections in any order.
\<close>

section \<open>Running jobs\<close>

record job_status =
  js_plan_name :: string
  js_started_at :: int
  js_progress :: int

text \<open>
  The map from plan ids to running jobs, as the list of its entries in the order an iteration
  happens to meet them.
\<close>

type_synonym job_table = "(string \<times> job_status) list"

definition new_status :: "string \<Rightarrow> int \<Rightarrow> job_status" where
  "new_status planName now = \<lparr>js_plan_name = planName, js_started_at = now, js_progress = - 1\<rparr>"

definition try_start_job :: "string \<Rightarrow> string \<Rightarrow> int \<Rightarrow> job_table \<Rightarrow> bool \<times> job_table" where
  "try_start_job planID planName now jobs =
    (case map_of jobs planID of
       Some _ \<Rightarrow> (False, jobs)
     | None \<Rightarrow> (True, jobs @ [(planID, new_status planName now)]))"

definition clear_current_job :: "string \<Rightarrow> job_table \<Rightarrow> job_table" where
  "clear_current_job planID jobs = filter (\<lambda>e. fst e \<noteq> planID) jobs"

definition set_current_job :: "string \<Rightarrow> string \<Rightarrow> int \<Rightarrow> job_table \<Rightarrow> job_table" where
  "set_current_job planID planName now jobs =
    clear_current_job planID jobs @ [(planID, new_status planName now)]"

definition earlier :: "job_status option \<Rightarrow> string \<times> job_status \<Rightarrow> job_status option" where
  "earlier acc e = (case acc of None \<Rightarrow> Some (snd e)
     | Some a \<Rightarrow> if js_started_at (snd e) < js_started_at a then Some (snd e) else Some a)"

definition job_status_func :: "job_table \<Rightarrow> job_status option" where
  "job_status_func jobs = (if jobs = [] then None else foldl earlier None jobs)"

lemma foldl_earlier:
  "\<exists>b. foldl earlier (Some a) jobs = Some b \<and> b \<in> insert a (snd ` set jobs)
    \<and> (\<forall>x\<in>insert a (snd ` set jobs). js_started_at b \<le> js_started_at x)"
proof (induction jobs arbitrary: a)
  case (Cons e jobs)
  define c where "c = (if js_started_at (snd e) < js_started_at a then snd e else a)"
  have c: "earlier (Some a) e = Some c" "c \<in> {a, snd e}"
    "js_started_at c \<le> js_started_at a" "js_started_at c \<le> js_started_at (snd e)"
    by (auto simp: earlier_def c_def)
  obtain b where "foldl earlier (Some c) jobs = Some b" "b \<in> insert c (snd ` set jobs)"
    "\<forall>x\<in>insert c (snd ` set jobs). js_started_at b \<le> js_started_at x"
    using Cons.IH[of c] by blast
  with c show ?case by (intro exI[of _ b]) auto
qed simp

lemma fst_clear [simp]: "fst ` set (clear_current_job p jobs) = fst ` set jobs - {p}"
  by (auto simp: clear_current_job_def)

lemma distinct_clear [simp]:
  "distinct (map fst jobs) \<Longrightarrow> distinct (map fst (clear_current_job p jobs))"
  by (induction jobs) (auto simp: clear_current_job_def)

text \<open>
  The heartbeat reports a running job that started no later than any other, whatever the
  order in which the map is iterated, and nothing exactly when no job runs.
\<close>

theorem heartbeat_reports_earliest:
  "(job_status_func jobs = None \<longleftrightarrow> jobs = [])
    \<and> (case job_status_func jobs of None \<Rightarrow> True
       | Some s \<Rightarrow> s \<in> snd ` set jobs \<and> list_all (\<lambda>e. js_started_at s \<le> js_started_at (snd e)) jobs)"
proof (cases jobs)
  case (Cons e rest)
  have "foldl earlier None jobs = foldl earlier (Some (snd e)) rest"
    by (simp add: Cons earlier_def)
  then obtain b where b: "foldl earlier None jobs = Some b" "b \<in> insert (snd e) (snd ` set rest)"
    "\<forall>x\<in>insert (snd e) (snd ` set rest). js_started_at b \<le> js_started_at x"
    using foldl_earlier[of "snd e" rest] by auto
  then have "job_status_func jobs = Some b" and "b \<in> snd ` set jobs"
    by (auto simp: job_status_func_def Cons)
  with b(3) Cons show ?thesis by (auto simp: list_all_iff)
qed (simp add: job_status_func_def)

section \<open>The cron table\<close>

text \<open>
  The cron package: adding an entry parses the schedule (\<open>parses\<close>, a parameter) and returns
  a fresh id, removing one deletes it.
\<close>

record cron_entry =
  ce_id :: nat
  ce_schedule :: string
  ce_plan :: backup_plan
  ce_repos :: "repository list"
  ce_retention :: "retention_policy option"

record cron_state =
  cs_next :: nat
  cs_entries :: "cron_entry list"
  cs_entry_ids :: "(string \<times> nat) list"

definition cron_remove :: "nat \<Rightarrow> cron_state \<Rightarrow> cron_state" where
  "cron_remove i s = s\<lparr>cs_entries := filter (\<lambda>e. ce_id e \<noteq> i) (cs_entries s)\<rparr>"

definition remove_all :: "cron_state \<Rightarrow> cron_state" where
  "remove_all s = (fold (\<lambda>(_, i). cron_remove i) (cs_entry_ids s) s)\<lparr>cs_entry_ids := []\<rparr>"

definition add_plan ::
  "(string \<Rightarrow> bool) \<Rightarrow> repository list \<Rightarrow> retention_policy option \<Rightarrow> backup_plan \<Rightarrow> cron_state \<Rightarrow> cron_state" where
  "add_plan parses repos dr plan s =
    (if \<not> bp_enabled plan then s
     else if bp_schedule plan = '''' then s
     else if \<not> parses (bp_schedule plan) then s
     else s\<lparr>cs_next := Suc (cs_next s),
         cs_entries := cs_entries s @ [\<lparr>ce_id = cs_next s, ce_schedule = bp_schedule plan,
           ce_plan = plan, ce_repos = repos, ce_retention = dr\<rparr>],
         cs_entry_ids := filter (\<lambda>p. fst p \<noteq> bp_id plan) (cs_entry_ids s) @ [(bp_id plan, cs_next s)]\<rparr>)"

definition update_schedule ::
  "(string \<Rightarrow> bool) \<Rightarrow> backup_plan list \<Rightarrow> repository list \<Rightarrow> retention_policy option \<Rightarrow> cron_state
    \<Rightarrow> cron_state" where
  "update_schedule parses plans repos dr s = fold (add_plan parses repos dr) plans (remove_all s)"

text \<open>Every cron entry is in the map of entry ids, so that the next update finds it.\<close>

definition cron_wf :: "cron_state \<Rightarrow> bool" where
  "cron_wf s \<longleftrightarrow> ce_id ` set (cs_entries s) \<subseteq> snd ` set (cs_entry_ids s)"

definition schedulable :: "(string \<Rightarrow> bool) \<Rightarrow> backup_plan \<Rightarrow> bool" where
  "schedulable parses plan \<longleftrightarrow> bp_enabled plan \<and> bp_schedule plan \<noteq> '''' \<and> parses (bp_schedule plan)"

lemma remove_entries:
  "cs_entries (fold (\<lambda>(_, i). cron_remove i) ids s) = filter (\<lambda>e. ce_id e \<notin> snd ` set ids) (cs_entries s)"
  by (induction ids arbitrary: s) (auto simp: cron_remove_def conj_commute intro: filter_cong)

lemma remove_all_entries: "cron_wf s \<Longrightarrow> cs_entries (remove_all s) = [] \<and> cs_entry_ids (remove_all s) = []"
  by (auto simp: remove_all_def remove_entries cron_wf_def filter_empty_conv)

lemma add_plans:
  assumes "distinct (map bp_id plans)" and "bp_id ` set plans \<inter> fst ` set (cs_entry_ids s) = {}"
    and "cron_wf s"
  shows "cron_wf (fold (add_plan parses repos dr) plans s)
    \<and> map (\<lambda>e. (ce_schedule e, ce_plan e, ce_repos e, ce_retention e)) (cs_entries (fold (add_plan parses repos dr) plans s))
      = map (\<lambda>e. (ce_schedule e, ce_plan e, ce_repos e, ce_retention e)) (cs_entries s)
        @ map (\<lambda>p. (bp_schedule p, p, repos, dr)) (filter (schedulable parses) plans)"
  using assms
proof (induction plans arbitrary: s)
  case (Cons p plans)
  have keep: "filter (\<lambda>x. fst x \<noteq> bp_id p) (cs_entry_ids s) = cs_entry_ids s"
    using Cons.prems(2) by (force simp: filter_id_conv)
  have wf: "cron_wf (add_plan parses repos dr p s)"
    using Cons.prems(3) keep by (auto simp: add_plan_def cron_wf_def)
  have dis: "bp_id ` set plans \<inter> fst ` set (cs_entry_ids (add_plan parses repos dr p s)) = {}"
    using Cons.prems(1,2) keep by (auto simp: add_plan_def)
  from Cons.IH[OF _ dis wf] Cons.prems(1) show ?case
    by (auto simp: add_plan_def schedulable_def)
qed simp

text \<open>
  After a configuration update the cron table holds exactly one entry for each plan that
  is enabled, has a schedule and whose schedule parses, in the order of the plans, and each
  entry runs the pushed plan with the pushed repositories and retention: nothing of the old
  table is left, provided the plan ids are distinct; and then the next update can again
  remove all of them.
\<close>

theorem update_schedule_replaces:
  assumes "cron_wf s" and "distinct (map bp_id plans)"
  shows "map (\<lambda>e. (ce_schedule e, ce_plan e, ce_repos e, ce_retention e))
        (cs_entries (update_schedule parses plans repos dr s))
      = map (\<lambda>p. (bp_schedule p, p, repos, dr)) (filter (schedulable parses) plans)
    \<and> cron_wf (update_schedule parses plans repos dr s)"
  using add_plans[OF assms(2), of "remove_all s" parses repos dr] remove_all_entries[OF assms(1)]
  by (simp add: update_schedule_def cron_wf_def)

theorem update_schedule_replaces_witness:
  "map ce_plan (cs_entries (update_schedule (\<lambda>_. True) [example_plan] [] None
     \<lparr>cs_next = 1, cs_entries = [], cs_entry_ids = []\<rparr>)) = [example_plan]"
proof -
  let ?s = "\<lparr>cs_next = 1, cs_entries = [], cs_entry_ids = []\<rparr>"
  have "cron_wf ?s" and "distinct (map bp_id [example_plan])" by (simp_all add: cron_wf_def)
  from update_schedule_replaces[OF this, of "\<lambda>_. True" "[]" None]
  have "map (\<lambda>x. fst (snd x)) (map (\<lambda>e. (ce_schedule e, ce_plan e, ce_repos e, ce_retention e))
      (cs_entries (update_schedule (\<lambda>_. True) [example_plan] [] None ?s))) = [example_plan]"
    by (simp add: schedulable_def) (simp add: example_plan_def)
  then show ?thesis by (simp add: comp_def)
qed

section \<open>Triggers as threads\<close>

text \<open>
  The states of \<open>runJob\<close>: before \<open>tryStartJob\<close>, refused by it, running the job with the slot
  held, with the report of the job, with the report delivered and the slot still held (the
  deferred call is due), and returned.
\<close>

datatype phase = Ready | Refused | Busy | Finished job_report | Reported | Gone

record thread =
  th_plan :: backup_plan
  th_repos :: "repository list"
  th_retention :: "retention_policy option"
  th_trigger :: string
  th_phase :: phase

record sched =
  sd_cron :: cron_state
  sd_jobs :: job_table
  sd_threads :: "thread list"
  sd_reports :: "(nat \<times> job_report) list"

definition aborted_report :: "backup_plan \<Rightarrow> string \<Rightarrow> string \<Rightarrow> int \<Rightarrow> job_report" where
  "aborted_report plan trigger uuid now =
    \<lparr>jr_job_id = uuid, jr_plan_id = bp_id plan, jr_plan_name = bp_name plan, jr_type = ''backup'',
     jr_trigger = trigger, jr_status = ''aborted'', jr_started_at = now, jr_finished_at = now,
     jr_repository_results = [], jr_hook_results = []\<rparr>"

definition new_thread ::
  "backup_plan \<Rightarrow> repository list \<Rightarrow> retention_policy option \<Rightarrow> string \<Rightarrow> thread" where
  "new_thread plan repos dr trigger = \<lparr>th_plan = plan, th_repos = repos, th_retention = dr,
     th_trigger = trigger, th_phase = Ready\<rparr>"

definition fire :: "cron_entry \<Rightarrow> thread" where
  "fire e = new_thread (ce_plan e) (ce_repos e) (ce_retention e) ''scheduled''"

text \<open>\<open>TriggerNow\<close>: the first plan with the id, if there is one, gets a goroutine.\<close>

definition trigger_now ::
  "string \<Rightarrow> backup_plan list \<Rightarrow> repository list \<Rightarrow> retention_policy option \<Rightarrow> thread list" where
  "trigger_now planID plans repos dr =
    (case find (\<lambda>p. bp_id p = planID) plans of
       None \<Rightarrow> []
     | Some p \<Rightarrow> [new_thread p repos dr ''manual''])"

definition set_phase :: "nat \<Rightarrow> phase \<Rightarrow> sched \<Rightarrow> sched" where
  "set_phase i ph s = s\<lparr>sd_threads := (sd_threads s)[i := (sd_threads s ! i)\<lparr>th_phase := ph\<rparr>]\<rparr>"

definition emit :: "nat \<Rightarrow> job_report \<Rightarrow> sched \<Rightarrow> sched" where
  "emit i r s = s\<lparr>sd_reports := sd_reports s @ [(i, r)]\<rparr>"

abbreviation plan_of :: "sched \<Rightarrow> nat \<Rightarrow> string" where
  "plan_of s i \<equiv> bp_id (th_plan (sd_threads s ! i))"

abbreviation phase_of :: "sched \<Rightarrow> nat \<Rightarrow> phase" where
  "phase_of s i \<equiv> th_phase (sd_threads s ! i)"

text \<open>
  One step of the agent's scheduler. \<open>exec\<close> says which reports \<open>ExecuteBackupJob\<close> may return
  for a thread's plan; the reporter is set, as it is in the agent.
\<close>

inductive sched_step ::
  "(thread \<Rightarrow> job_report \<Rightarrow> bool) \<Rightarrow> sched \<Rightarrow> sched \<Rightarrow> bool"
  for exec :: "thread \<Rightarrow> job_report \<Rightarrow> bool" where
  update: "sched_step exec s (s\<lparr>sd_cron := update_schedule parses plans repos dr (sd_cron s)\<rparr>)"
| fires: "e \<in> set (cs_entries (sd_cron s)) \<Longrightarrow>
    sched_step exec s (s\<lparr>sd_threads := sd_threads s @ [fire e]\<rparr>)"
| manual: "sched_step exec s (s\<lparr>sd_threads := sd_threads s @ trigger_now planID plans repos dr\<rparr>)"
| start: "i < length (sd_threads s) \<Longrightarrow> phase_of s i = Ready \<Longrightarrow>
    try_start_job (plan_of s i) (bp_name (th_plan (sd_threads s ! i))) now (sd_jobs s) = (True, jobs) \<Longrightarrow>
    sched_step exec s (set_phase i Busy (s\<lparr>sd_jobs := jobs\<rparr>))"
| refuse: "i < length (sd_threads s) \<Longrightarrow> phase_of s i = Ready \<Longrightarrow>
    try_start_job (plan_of s i) (bp_name (th_plan (sd_threads s ! i))) now (sd_jobs s) = (False, jobs) \<Longrightarrow>
    sched_step exec s (set_phase i Refused (s\<lparr>sd_jobs := jobs\<rparr>))"
| abort: "i < length (sd_threads s) \<Longrightarrow> phase_of s i = Refused \<Longrightarrow>
    sched_step exec s (set_phase i Gone (emit i
      (aborted_report (th_plan (sd_threads s ! i)) (th_trigger (sd_threads s ! i)) uuid now) s))"
| execute: "i < length (sd_threads s) \<Longrightarrow> phase_of s i = Busy \<Longrightarrow> exec (sd_threads s ! i) r \<Longrightarrow>
    sched_step exec s (set_phase i (Finished r) s)"
| report: "i < length (sd_threads s) \<Longrightarrow> phase_of s i = Finished r \<Longrightarrow>
    sched_step exec s (set_phase i Reported (emit i r s))"
| clear: "i < length (sd_threads s) \<Longrightarrow> phase_of s i = Reported \<Longrightarrow>
    sched_step exec s (set_phase i Gone (s\<lparr>sd_jobs := clear_current_job (plan_of s i) (sd_jobs s)\<rparr>))"

inductive_cases sched_stepE: "sched_step exec s s'"

definition sched_init :: sched where
  "sched_init = \<lparr>sd_cron = \<lparr>cs_next = 1, cs_entries = [], cs_entry_ids = []\<rparr>,
     sd_jobs = [], sd_threads = [], sd_reports = []\<rparr>"

inductive sched_reach :: "(thread \<Rightarrow> job_report \<Rightarrow> bool) \<Rightarrow> sched \<Rightarrow> bool"
  for exec :: "thread \<Rightarrow> job_report \<Rightarrow> bool" where
  init: "sched_reach exec sched_init"
| step: "sched_reach exec s \<Longrightarrow> sched_step exec s s' \<Longrightarrow> sched_reach exec s'"

text \<open>What \<open>ExecuteBackupJob\<close> returns, in whatever world the command runs.\<close>

definition job_exec ::
  "machine \<Rightarrow> restic_json \<Rightarrow> (resolved_hook list \<Rightarrow> resolved_hook list) \<Rightarrow> orchestrator
    \<Rightarrow> thread \<Rightarrow> job_report \<Rightarrow> bool" where
  "job_exec m js srt jo t r \<longleftrightarrow>
    (\<exists>w. r = fst (execute_backup_job m js srt jo (th_plan t) (th_repos t) (th_retention t) (th_trigger t) w))"

section \<open>The invariant\<close>

fun holding :: "phase \<Rightarrow> bool" where
  "holding Busy = True"
| "holding (Finished r) = True"
| "holding Reported = True"
| "holding _ = False"

fun reported :: "phase \<Rightarrow> bool" where
  "reported Reported = True"
| "reported Gone = True"
| "reported _ = False"

definition holders :: "sched \<Rightarrow> nat set" where
  "holders s = {i. i < length (sd_threads s) \<and> holding (phase_of s i)}"

definition reports_of :: "nat \<Rightarrow> sched \<Rightarrow> job_report list" where
  "reports_of i s = map snd (filter (\<lambda>p. fst p = i) (sd_reports s))"

definition sched_inv :: "sched \<Rightarrow> bool" where
  "sched_inv s \<longleftrightarrow>
    distinct (map fst (sd_jobs s))
    \<and> set (map fst (sd_jobs s)) = plan_of s ` holders s
    \<and> inj_on (plan_of s) (holders s)
    \<and> (\<forall>i. length (reports_of i s) = (if i < length (sd_threads s) \<and> reported (phase_of s i) then 1 else 0))"

lemma set_phase_simps [simp]:
  "length (sd_threads (set_phase i ph s)) = length (sd_threads s)"
  "sd_jobs (set_phase i ph s) = sd_jobs s" "sd_reports (set_phase i ph s) = sd_reports s"
  "sd_cron (set_phase i ph s) = sd_cron s"
  "reports_of j (set_phase i ph s) = reports_of j s"
  by (simp_all add: set_phase_def reports_of_def)

lemma plan_of_set_phase [simp]:
  "plan_of (set_phase i ph s) j = plan_of s j"
  by (cases "i < length (sd_threads s)"; cases "i = j") (simp_all add: set_phase_def not_less list_update_beyond)

lemma phase_of_set_phase [simp]:
  "i < length (sd_threads s) \<Longrightarrow> phase_of (set_phase i ph s) j = (if j = i then ph else phase_of s j)"
  by (simp add: set_phase_def)

lemma holders_set_phase:
  "i < length (sd_threads s) \<Longrightarrow>
    holders (set_phase i ph s) = (if holding ph then insert i (holders s) else holders s - {i})"
  by (auto simp: holders_def)

lemma emit_simps [simp]:
  "sd_threads (emit i r s) = sd_threads s" "sd_jobs (emit i r s) = sd_jobs s" "sd_cron (emit i r s) = sd_cron s"
  "reports_of j (emit i r s) = reports_of j s @ (if j = i then [r] else [])"
  by (auto simp: emit_def reports_of_def)

lemma holders_emit [simp]: "holders (emit i r s) = holders s"
  by (simp add: holders_def)

lemma jobs_update_simps [simp]:
  "holders (s\<lparr>sd_jobs := jobs\<rparr>) = holders s" "reports_of i (s\<lparr>sd_jobs := jobs\<rparr>) = reports_of i s"
  "holders (s\<lparr>sd_cron := c\<rparr>) = holders s" "reports_of i (s\<lparr>sd_cron := c\<rparr>) = reports_of i s"
  by (simp_all add: holders_def reports_of_def)

text \<open>New threads are ready: they hold no slot and have no report.\<close>

lemma sched_inv_spawn:
  assumes "sched_inv s" and "\<forall>t\<in>set ts. th_phase t = Ready"
  shows "sched_inv (s\<lparr>sd_threads := sd_threads s @ ts\<rparr>)"
proof -
  let ?s = "s\<lparr>sd_threads := sd_threads s @ ts\<rparr>"
  have ph: "phase_of ?s i = Ready" if "length (sd_threads s) \<le> i" "i < length (sd_threads ?s)" for i
  proof -
    have "sd_threads ?s ! i \<in> set ts" using that by (auto simp: nth_append)
    then show ?thesis using assms(2) by blast
  qed
  have old: "sd_threads ?s ! i = sd_threads s ! i" if "i < length (sd_threads s)" for i
    using that by (simp add: nth_append)
  have h: "holders ?s = holders s"
  proof
    show "holders ?s \<subseteq> holders s"
    proof
      fix i assume "i \<in> holders ?s"
      then have i: "i < length (sd_threads ?s)" "holding (phase_of ?s i)" by (auto simp: holders_def)
      show "i \<in> holders s"
      proof (cases "i < length (sd_threads s)")
        case True with i old show ?thesis by (simp add: holders_def)
      next
        case False with i ph[of i] show ?thesis by simp
      qed
    qed
    show "holders s \<subseteq> holders ?s" using old by (auto simp: holders_def)
  qed
  have p: "plan_of ?s i = plan_of s i" if "i \<in> holders s" for i
    using that old by (simp add: holders_def)
  have r: "reports_of i ?s = reports_of i s" for i by (simp add: reports_of_def)
  have "(i < length (sd_threads ?s) \<and> reported (phase_of ?s i))
      = (i < length (sd_threads s) \<and> reported (phase_of s i))" for i
    using ph[of i] old[of i] by (cases "i < length (sd_threads s)") auto
  then show ?thesis
    using assms(1) h p r by (auto simp: sched_inv_def inj_on_def image_def simp del: select_convs update_convs)
qed

lemma try_start_Some:
  "try_start_job p n now jobs = (True, jobs') \<Longrightarrow>
    p \<notin> set (map fst jobs) \<and> set (map fst jobs') = insert p (set (map fst jobs))
    \<and> (distinct (map fst jobs) \<longrightarrow> distinct (map fst jobs'))"
  by (auto simp: try_start_job_def map_of_eq_None_iff split: option.splits)

lemma try_start_None:
  "try_start_job p n now jobs = (False, jobs') \<Longrightarrow> jobs' = jobs \<and> p \<in> set (map fst jobs)"
  by (auto simp: try_start_job_def split: option.splits dest: map_of_SomeD intro: rev_image_eqI)

lemma sched_inv_phase:
  assumes "sched_inv s" and "i < length (sd_threads s)"
    and "holding ph \<longleftrightarrow> holding (phase_of s i)" and "reported ph \<longleftrightarrow> reported (phase_of s i)"
  shows "sched_inv (set_phase i ph s)"
proof -
  have "holders (set_phase i ph s) = holders s"
    using assms(2,3) by (auto simp: holders_set_phase holders_def)
  then show ?thesis using assms by (simp add: sched_inv_def inj_on_def)
qed

lemma sched_inv_report:
  assumes "sched_inv s" and "i < length (sd_threads s)"
    and "holding ph \<longleftrightarrow> holding (phase_of s i)" and "reported ph" and "\<not> reported (phase_of s i)"
  shows "sched_inv (set_phase i ph (emit i r s))"
proof -
  have "holders (set_phase i ph (emit i r s)) = holders s"
    using assms(2,3) by (auto simp: holders_set_phase holders_def)
  then show ?thesis using assms by (auto simp: sched_inv_def inj_on_def)
qed

lemma sched_inv_start:
  assumes "sched_inv s" and "i < length (sd_threads s)" and "phase_of s i = Ready"
    and "try_start_job (plan_of s i) n now (sd_jobs s) = (True, jobs)"
  shows "sched_inv (set_phase i Busy (s\<lparr>sd_jobs := jobs\<rparr>))"
proof -
  let ?s = "set_phase i Busy (s\<lparr>sd_jobs := jobs\<rparr>)"
  have h: "holders ?s = insert i (holders s)" using assms(2) by (simp add: holders_set_phase)
  note t = try_start_Some[OF assms(4)]
  have "plan_of s i \<notin> plan_of s ` holders s" using t assms(1) by (simp add: sched_inv_def)
  then have "inj_on (plan_of s) (insert i (holders s))"
    using assms(1) by (auto simp: sched_inv_def)
  then show ?thesis using assms(1-3) t h
    by (simp add: sched_inv_def inj_on_def)
qed

lemma sched_inv_clear:
  assumes "sched_inv s" and "i < length (sd_threads s)" and "phase_of s i = Reported"
  shows "sched_inv (set_phase i Gone (s\<lparr>sd_jobs := clear_current_job (plan_of s i) (sd_jobs s)\<rparr>))"
proof -
  let ?s = "set_phase i Gone (s\<lparr>sd_jobs := clear_current_job (plan_of s i) (sd_jobs s)\<rparr>)"
  have i: "i \<in> holders s" using assms(2,3) by (simp add: holders_def)
  have h: "holders ?s = holders s - {i}" using assms(2) by (simp add: holders_set_phase)
  have inj: "inj_on (plan_of s) (holders s)" using assms(1) by (simp add: sched_inv_def)
  then have "plan_of s ` (holders s - {i}) = plan_of s ` holders s - {plan_of s i}"
    using i by (auto simp: inj_on_def)
  then show ?thesis using assms h inj_on_diff[OF inj, of "{i}"]
    by (simp add: sched_inv_def inj_on_def)
qed

lemma sched_inv_step:
  assumes "sched_inv s" and "sched_step exec s s'"
  shows "sched_inv s'"
  using assms(2)
proof cases
  case update
  then show ?thesis using assms(1) by (simp add: sched_inv_def)
next
  case (fires e)
  then show ?thesis using sched_inv_spawn[OF assms(1), of "[fire e]"] by (simp add: fire_def new_thread_def)
next
  case (manual p plans repos dr)
  have "\<forall>t\<in>set (trigger_now p plans repos dr). th_phase t = Ready"
    by (auto simp: trigger_now_def new_thread_def split: option.split)
  then show ?thesis using manual sched_inv_spawn[OF assms(1)] by simp
next
  case (start i now jobs)
  then show ?thesis using sched_inv_start[OF assms(1)] by simp
next
  case (refuse i now jobs)
  then have "jobs = sd_jobs s" using try_start_None by blast
  then show ?thesis using refuse sched_inv_phase[OF assms(1), of i Refused] by simp
next
  case (abort i uuid now)
  then show ?thesis using sched_inv_report[OF assms(1), of i Gone] by simp
next
  case (execute i r)
  then show ?thesis using sched_inv_phase[OF assms(1), of i "Finished r"] by simp
next
  case (report i r)
  then show ?thesis using sched_inv_report[OF assms(1), of i Reported] by simp
next
  case (clear i)
  then show ?thesis using sched_inv_clear[OF assms(1)] by simp
qed

lemma sched_inv_reach: "sched_reach exec s \<Longrightarrow> sched_inv s"
proof (induction rule: sched_reach.induct)
  case init
  then show ?case by (simp add: sched_inv_def sched_init_def holders_def reports_of_def)
next
  case (step s s')
  then show ?case using sched_inv_step by blast
qed

text \<open>What a report says: it is the job's, or the refusal of the same trigger.\<close>

definition job_of :: "sched \<Rightarrow> nat \<Rightarrow> thread" where
  "job_of s i = (sd_threads s ! i)\<lparr>th_phase := Busy\<rparr>"

definition is_refusal :: "thread \<Rightarrow> job_report \<Rightarrow> bool" where
  "is_refusal t r \<longleftrightarrow> r = aborted_report (th_plan t) (th_trigger t) (jr_job_id r) (jr_started_at r)"

definition content_inv :: "(thread \<Rightarrow> job_report \<Rightarrow> bool) \<Rightarrow> sched \<Rightarrow> bool" where
  "content_inv exec s \<longleftrightarrow> (\<forall>i < length (sd_threads s).
    (\<forall>r. phase_of s i = Finished r \<longrightarrow> exec (job_of s i) r)
    \<and> (\<forall>r \<in> set (reports_of i s). exec (job_of s i) r \<or> is_refusal (job_of s i) r))"

lemma job_of_simps [simp]:
  "job_of (set_phase i ph s) j = job_of s j" "job_of (emit i r s) j = job_of s j"
  "job_of (s\<lparr>sd_jobs := jobs\<rparr>) j = job_of s j" "job_of (s\<lparr>sd_cron := c\<rparr>) j = job_of s j"
  "th_plan (job_of s j) = th_plan (sd_threads s ! j)"
  "th_trigger (job_of s j) = th_trigger (sd_threads s ! j)"
  by (cases "i < length (sd_threads s)"; cases "i = j";
      simp add: job_of_def set_phase_def not_less list_update_beyond)+

lemma job_of_same: "phase_of s i = Busy \<Longrightarrow> job_of s i = sd_threads s ! i"
  by (simp add: job_of_def)

lemma content_inv_spawn:
  assumes "content_inv exec s" and "sched_inv s" and "\<forall>t\<in>set ts. th_phase t = Ready"
  shows "content_inv exec (s\<lparr>sd_threads := sd_threads s @ ts\<rparr>)"
  unfolding content_inv_def
proof (intro allI impI)
  fix i assume i: "i < length (sd_threads (s\<lparr>sd_threads := sd_threads s @ ts\<rparr>))"
  let ?s = "s\<lparr>sd_threads := sd_threads s @ ts\<rparr>"
  have r: "reports_of i ?s = reports_of i s" by (simp add: reports_of_def)
  show "(\<forall>r. phase_of ?s i = Finished r \<longrightarrow> exec (job_of ?s i) r)
    \<and> (\<forall>r \<in> set (reports_of i ?s). exec (job_of ?s i) r \<or> is_refusal (job_of ?s i) r)"
  proof (cases "i < length (sd_threads s)")
    case True
    then show ?thesis using assms(1) r by (simp add: content_inv_def job_of_def nth_append)
  next
    case False
    then have "sd_threads ?s ! i \<in> set ts" using i by (auto simp: nth_append)
    then have "phase_of ?s i = Ready" using assms(3) by blast
    moreover have "length (reports_of i s) = 0"
      using assms(2) False unfolding sched_inv_def by (metis (no_types, lifting))
    ultimately show ?thesis using r by simp
  qed
qed

lemma content_inv_step:
  assumes "content_inv exec s" and "sched_inv s" and "sched_step exec s s'"
  shows "content_inv exec s'"
  using assms(3)
proof cases
  case (fires e)
  then show ?thesis using content_inv_spawn[OF assms(1,2), of "[fire e]"] by (simp add: fire_def new_thread_def)
next
  case (manual p plans repos dr)
  have "\<forall>t\<in>set (trigger_now p plans repos dr). th_phase t = Ready"
    by (auto simp: trigger_now_def new_thread_def split: option.split)
  then show ?thesis using manual content_inv_spawn[OF assms(1,2)] by simp
next
  case (abort i uuid now)
  then show ?thesis using assms(1)
    by (auto simp: content_inv_def is_refusal_def aborted_report_def)
next
  case (execute i r)
  then show ?thesis using assms(1) job_of_same[of s i] by (auto simp: content_inv_def)
qed (use assms(1) in \<open>auto simp: content_inv_def\<close>)

lemma content_inv_reach: "sched_reach exec s \<Longrightarrow> content_inv exec s"
proof (induction rule: sched_reach.induct)
  case init
  then show ?case by (simp add: content_inv_def sched_init_def)
next
  case (step s s')
  then show ?case using content_inv_step sched_inv_reach by blast
qed


section \<open>Properties of the policy\<close>

text \<open>
  C28. The same plan never runs twice at once: in every reachable state, under every
  interleaving of triggers, updates and finishing jobs, two threads that hold a slot are for
  different plans, and the map of running jobs names exactly the plans of the threads that
  hold a slot, so a trigger is refused exactly while a thread of the same plan holds it.
\<close>

theorem one_job_per_plan:
  assumes "sched_reach exec s"
  shows "inj_on (plan_of s) (holders s)
    \<and> (fst (try_start_job p n now (sd_jobs s)) \<longleftrightarrow> p \<notin> plan_of s ` holders s)"
proof -
  have inv: "sched_inv s" using sched_inv_reach[OF assms] .
  have "fst (try_start_job p n now (sd_jobs s)) \<longleftrightarrow> p \<notin> fst ` set (sd_jobs s)"
    by (auto simp: try_start_job_def map_of_eq_None_iff split: option.split dest: map_of_SomeD
        intro: rev_image_eqI)
  with inv show ?thesis by (simp add: sched_inv_def)
qed

definition example_entry_state :: sched where
  "example_entry_state = sched_init\<lparr>sd_cron := update_schedule (\<lambda>_. True) [example_plan] [] None (sd_cron sched_init)\<rparr>"

theorem one_job_per_plan_witness:
  "\<exists>s. sched_reach (\<lambda>_ _. True) s \<and> holders s = {0} \<and> \<not> fst (try_start_job ''p1'' ''etc'' 5 (sd_jobs s))"
proof -
  let ?t = "new_thread example_plan [] None ''manual''"
  let ?s1 = "sched_init\<lparr>sd_threads := [?t]\<rparr>"
  let ?s2 = "set_phase 0 Busy (?s1\<lparr>sd_jobs := [(''p1'', new_status ''etc'' 3)]\<rparr>)"
  have "trigger_now ''p1'' [example_plan] [] None = [?t]"
    by (simp add: trigger_now_def example_plan_def)
  then have 1: "sched_reach (\<lambda>_ _. True) ?s1"
    using sched_reach.step[OF sched_reach.init sched_step.manual[of _ sched_init "''p1''" "[example_plan]" "[]" None]]
    by (simp add: sched_init_def)
  have "sched_step (\<lambda>_ _. True) ?s1 ?s2"
    by (rule sched_step.start[where now = 3])
      (simp_all add: new_thread_def try_start_job_def sched_init_def example_plan_def)
  with 1 have 2: "sched_reach (\<lambda>_ _. True) ?s2" by (rule sched_reach.step)
  have "holders ?s2 = {0}"
    by (auto simp: holders_set_phase) (auto simp: holders_def sched_init_def new_thread_def)
  moreover have "plan_of ?s2 0 = ''p1''" by (simp add: new_thread_def example_plan_def)
  ultimately show ?thesis
    using 2 one_job_per_plan[OF 2, of "''p1''" "''etc''" 5] by (intro exI[of _ ?s2]) (simp del: plan_of_set_phase)
qed

text \<open>
  C29. Every trigger yields exactly one report: once a thread has returned, one report with
  its number was delivered, which is what \<open>ExecuteBackupJob\<close> returned for its plan and
  trigger or the refusal of that plan and trigger; before a thread reports, there is none.
\<close>

theorem one_report_per_trigger:
  assumes "sched_reach exec s" and "i < length (sd_threads s)"
  shows "(if reported (phase_of s i)
          then \<exists>r. reports_of i s = [r] \<and> (exec (job_of s i) r \<or> is_refusal (job_of s i) r)
          else reports_of i s = [])"
proof -
  have "length (reports_of i s) = (if reported (phase_of s i) then 1 else 0)"
    using sched_inv_reach[OF assms(1)] assms(2) by (simp add: sched_inv_def)
  moreover have "\<forall>r \<in> set (reports_of i s). exec (job_of s i) r \<or> is_refusal (job_of s i) r"
    using content_inv_reach[OF assms(1)] assms(2) by (simp add: content_inv_def)
  ultimately show ?thesis by (auto simp: length_Suc_conv)
qed

theorem one_report_per_trigger_witness:
  "reports_of 0 (sched_init\<lparr>sd_threads := [new_thread example_plan [] None ''manual'']\<rparr>) = []"
proof -
  let ?t = "new_thread example_plan [] None ''manual''"
  have "trigger_now ''p1'' [example_plan] [] None = [?t]"
    by (simp add: trigger_now_def example_plan_def)
  then have "sched_reach (\<lambda>_ _. True) (sched_init\<lparr>sd_threads := [?t]\<rparr>)"
    using sched_reach.step[OF sched_reach.init sched_step.manual[of _ sched_init "''p1''" "[example_plan]" "[]" None]]
    by (simp add: sched_init_def)
  from one_report_per_trigger[OF this, of 0] show ?thesis by (simp add: new_thread_def)
qed

text \<open>How far a thread is from returning.\<close>

fun rank :: "phase \<Rightarrow> nat" where
  "rank Ready = 4"
| "rank Busy = 3"
| "rank (Finished r) = 2"
| "rank Reported = 1"
| "rank Refused = 1"
| "rank Gone = 0"



end
