(* ===== verification/Channels.thy ===== *)
theory Channels
  imports Prelude
begin

text \<open>
  Go's buffered channels and maps, as the agent manager and the event hub of the server use
  them: non-blocking sends, sends and closes that panic on a closed channel, and a map as the
  list of its entries in the order an iteration happens to meet them.
\<close>

section \<open>Maps\<close>

definition put :: "'k \<Rightarrow> 'v \<Rightarrow> ('k \<times> 'v) list \<Rightarrow> ('k \<times> 'v) list" where
  "put k v m = filter (\<lambda>p. fst p \<noteq> k) m @ [(k, v)]"

definition del :: "'k \<Rightarrow> ('k \<times> 'v) list \<Rightarrow> ('k \<times> 'v) list" where
  "del k m = filter (\<lambda>p. fst p \<noteq> k) m"

definition keys_ok :: "('k \<times> 'v) list \<Rightarrow> bool" where
  "keys_ok m \<longleftrightarrow> distinct (map fst m)"

lemma map_of_filter_ne: "map_of (filter (\<lambda>p. fst p \<noteq> k) m) j = (if j = k then None else map_of m j)"
  by (induction m) auto

lemma map_of_put [simp]: "map_of (put k v m) j = (if j = k then Some v else map_of m j)"
  by (auto simp: put_def map_add_def map_of_filter_ne split: option.split)

lemma map_of_del [simp]: "map_of (del k m) j = (if j = k then None else map_of m j)"
  by (simp add: del_def map_of_filter_ne)

lemma set_del: "set (del k m) = {p \<in> set m. fst p \<noteq> k}"
  by (auto simp: del_def)

lemma set_put: "set (put k v m) = insert (k, v) {p \<in> set m. fst p \<noteq> k}"
  by (auto simp: put_def)

lemma keys_ok_del [simp]: "keys_ok m \<Longrightarrow> keys_ok (del k m)"
  by (induction m) (auto simp: keys_ok_def del_def)

lemma keys_ok_put [simp]: "keys_ok m \<Longrightarrow> keys_ok (put k v m)"
  using keys_ok_del[of m k] by (auto simp: keys_ok_def put_def del_def)

lemma map_of_in: "keys_ok m \<Longrightarrow> (k, v) \<in> set m \<longleftrightarrow> map_of m k = Some v"
  by (simp add: keys_ok_def)

lemma map_of_inD: "map_of m k = Some v \<Longrightarrow> (k, v) \<in> set m"
  by (rule map_of_SomeD)

section \<open>Channels\<close>

record 'a chan =
  ch_cap :: nat
  ch_buf :: "'a list"
  ch_closed :: bool

definition make_chan :: "nat \<Rightarrow> 'a chan" where
  "make_chan n = \<lparr>ch_cap = n, ch_buf = [], ch_closed = False\<rparr>"

datatype send_outcome = Sent | Full | Send_panics

text \<open>\<open>select { case ch <- x: ... default: ... }\<close>: a send on a closed channel panics.\<close>

definition try_send :: "'a \<Rightarrow> 'a chan \<Rightarrow> send_outcome \<times> 'a chan" where
  "try_send x c =
    (if ch_closed c then (Send_panics, c)
     else if length (ch_buf c) < ch_cap c then (Sent, c\<lparr>ch_buf := ch_buf c @ [x]\<rparr>)
     else (Full, c))"

datatype 'a recv_outcome = Received 'a | Closed_empty | Blocks

definition recv :: "'a chan \<Rightarrow> 'a recv_outcome \<times> 'a chan" where
  "recv c = (case ch_buf c of
      x # xs \<Rightarrow> (Received x, c\<lparr>ch_buf := xs\<rparr>)
    | [] \<Rightarrow> (if ch_closed c then Closed_empty else Blocks, c))"

text \<open>Closing a closed channel panics: the second component says so.\<close>

definition close_chan :: "'a chan \<Rightarrow> 'a chan \<times> bool" where
  "close_chan c = (c\<lparr>ch_closed := True\<rparr>, ch_closed c)"

lemma make_chan_simps [simp]:
  "ch_buf (make_chan n) = []" "\<not> ch_closed (make_chan n)" "ch_cap (make_chan n) = n"
  by (simp_all add: make_chan_def)

lemma try_send_simps [simp]:
  "ch_closed (snd (try_send x c)) = ch_closed c" "ch_cap (snd (try_send x c)) = ch_cap c"
  "fst (try_send x c) = Send_panics \<longleftrightarrow> ch_closed c"
  by (auto simp: try_send_def)

lemma try_send_buf: "set (ch_buf (snd (try_send x c))) \<subseteq> insert x (set (ch_buf c))"
  by (auto simp: try_send_def)

lemma try_send_bound:
  "length (ch_buf c) \<le> ch_cap c \<Longrightarrow> length (ch_buf (snd (try_send x c))) \<le> ch_cap c"
  by (auto simp: try_send_def)

end
