(* ===== verification/Messages.thy ===== *)
theory Messages
  imports Backup Outbox
begin

text \<open>
  The messages of the stream between the agent and the server (the types generated from
  proto/backup/v1), as far as the code of either side looks at them. Timestamps are printed
  strings where the server stores them so. The JSON data of a command result is kept as the
  value it encodes.
\<close>

datatype command_action =
    Trigger_backup string
  | Trigger_restore string string "string list" string
  | List_snapshots string
  | Browse_snapshot string string string
  | Browse_filesystem string
  | Unknown_action

record server_command =
  sc_command_id :: string
  sc_action :: command_action

datatype payload =
    No_data
  | Snapshots_json "snapshot_info list"
  | Files_json "file_entry list"
  | Entries_json "(string \<times> string) list"

record command_result =
  cr_command_id :: string
  cr_success :: bool
  cr_error :: string
  cr_data :: payload

record command_timeouts =
  ct_backup_secs :: int
  ct_restore_secs :: int
  ct_list_snapshots_secs :: int
  ct_browse_snapshot_secs :: int
  ct_browse_filesystem_secs :: int
  ct_default_secs :: int

record agent_config =
  ac_config_version :: int
  ac_repositories :: "repository list"
  ac_backup_plans :: "backup_plan list"
  ac_default_retention :: "retention_policy option"
  ac_rclone_config :: string
  ac_heartbeat_interval_secs :: int
  ac_blocked_paths :: "string list"
  ac_command_timeouts :: "command_timeouts option"
  ac_outbox :: "outbox_proto option"

datatype agent_status = Status_pending | Status_approved | Status_rejected | Status_unspecified

datatype server_message =
    Approval agent_status string
  | Config agent_config
  | Command server_command

record log_entry =
  lg_timestamp :: string
  lg_level :: string
  lg_source :: string
  lg_message :: string
  lg_attributes :: string

record running_job =
  rj_plan_name :: string
  rj_started_at :: "int option"
  rj_progress :: int

record heartbeat =
  hb_status :: string
  hb_current_job :: "running_job option"
  hb_agent_version :: string
  hb_restic_version :: string
  hb_rclone_version :: string

datatype agent_payload =
    Heartbeat heartbeat
  | Config_ack int bool string
  | Command_result command_result
  | Live_logs string "log_entry list"

record agent_message =
  am_agent_id :: string
  am_api_key :: string
  am_payload :: agent_payload

end
