(* ===== verification/Mailbox.thy ===== *)
theory Mailbox
  imports Prelude
begin

text \<open>
  The contract of sending to connected agents (the interface \<open>AgentCommander\<close> of
  server/internal/api/router.go and \<open>ConnectionManager\<close> of configpush/resolver.go): a send
  reaches the queue of its own agent or nobody, and nobody goes offline by it. A handler that
  changes something several agents use sends to each of them in turn; what that does to one
  agent's queue follows from the contract.
\<close>

locale mailbox =
  fixes ok :: "'m \<Rightarrow> bool"
    and online :: "string \<Rightarrow> 'm \<Rightarrow> bool"
    and queue :: "string \<Rightarrow> 'm \<Rightarrow> 'x list"
    and send :: "string \<Rightarrow> 'x \<Rightarrow> 'm \<Rightarrow> unit result \<times> 'm"
  assumes send_ok: "ok m \<Longrightarrow> ok (snd (send i x m))"
    and send_online: "online j (snd (send i x m)) = online j m"
    and send_offline: "\<not> online i m \<Longrightarrow> snd (send i x m) = m"
    and send_other: "ok m \<Longrightarrow> j \<noteq> i \<Longrightarrow> queue j (snd (send i x m)) = queue j m"
    and send_own: "ok m \<Longrightarrow> send i x m = (Inr (), m') \<Longrightarrow> queue i m' = queue i m @ [x]"
    and send_fail: "ok m \<Longrightarrow> send i x m = (Inl er, m') \<Longrightarrow> queue i m' = queue i m"
begin

text \<open>A step on a larger state that sends at most one message to one agent.\<close>

definition tells :: "('s \<Rightarrow> 'm) \<Rightarrow> string \<Rightarrow> ('s \<Rightarrow> 's) \<Rightarrow> bool" where
  "tells proj i f \<longleftrightarrow> (\<forall>s. proj (f s) = proj s \<or> (\<exists>x. proj (f s) = snd (send i x (proj s))))"

lemma tells_one:
  assumes "tells proj i f" and "ok (proj s)"
  shows "ok (proj (f s))" and "online j (proj (f s)) = online j (proj s)"
    and "j \<noteq> i \<Longrightarrow> queue j (proj (f s)) = queue j (proj s)"
    and "\<exists>xs. queue j (proj (f s)) = queue j (proj s) @ xs"
proof -
  have c: "proj (f s) = proj s \<or> (\<exists>x. proj (f s) = snd (send i x (proj s)))" using assms(1) by (simp add: tells_def)
  show "ok (proj (f s))" and on: "online j (proj (f s)) = online j (proj s)"
    and other: "j \<noteq> i \<Longrightarrow> queue j (proj (f s)) = queue j (proj s)"
    using c assms(2) send_ok send_online send_other by metis+
  have "\<exists>xs. queue i (snd (send i x (proj s))) = queue i (proj s) @ xs" for x
  proof (cases "send i x (proj s)")
    case (Pair r m')
    then show ?thesis using send_own[OF assms(2)] send_fail[OF assms(2)] by (cases r) auto
  qed
  then show "\<exists>xs. queue j (proj (f s)) = queue j (proj s) @ xs" using c other by (cases "j = i") auto
qed

lemma tells_each:
  assumes "\<And>i. tells proj i (f i)" and "ok (proj s)"
  shows "ok (proj (fold f is s))" and "online j (proj (fold f is s)) = online j (proj s)"
    and "j \<notin> set is \<Longrightarrow> queue j (proj (fold f is s)) = queue j (proj s)"
    and "\<exists>xs. queue j (proj (fold f is s)) = queue j (proj s) @ xs"
proof -
  have "ok (proj (fold f is s)) \<and> online j (proj (fold f is s)) = online j (proj s)
    \<and> (j \<notin> set is \<longrightarrow> queue j (proj (fold f is s)) = queue j (proj s))
    \<and> (\<exists>xs. queue j (proj (fold f is s)) = queue j (proj s) @ xs)"
    using assms(2)
  proof (induction "is" arbitrary: s)
    case (Cons i "is")
    note one = tells_one[OF assms(1)[of i] Cons.prems]
    obtain xs where "queue j (proj (f i s)) = queue j (proj s) @ xs" using one(4) by blast
    moreover obtain ys where "queue j (proj (fold f is (f i s))) = queue j (proj (f i s)) @ ys"
      using Cons.IH[OF one(1)] by blast
    ultimately show ?case using Cons.IH[OF one(1)] one by auto
  qed simp
  then show "ok (proj (fold f is s))" and "online j (proj (fold f is s)) = online j (proj s)"
    and "j \<notin> set is \<Longrightarrow> queue j (proj (fold f is s)) = queue j (proj s)"
    and "\<exists>xs. queue j (proj (fold f is s)) = queue j (proj s) @ xs" by blast+
qed

end

end
