(* ===== verification/AgentMgr.thy ===== *)
theory AgentMgr
  imports Channels Messages Mailbox
begin

text \<open>
  The server's registry of connected agents (server/internal/agentmgr/manager.go). Agent
  objects and channels live in a heap, because goroutines keep using an agent object after
  it has left the registry; goroutines inside \<open>SendCommand\<close> and \<open>HandleCommandResult\<close> are
  threads between their critical sections, and a step relation interleaves them.
\<close>

section \<open>State\<close>

record current_job_info =
  cj_plan_name :: string
  cj_progress :: int
  cj_started_at :: string

record connected_agent =
  ca_agent_id :: string
  ca_send_ch :: nat
  ca_status :: string
  ca_current_job :: "current_job_info option"
  ca_pending :: "(string \<times> nat) list"

text \<open>
  A goroutine that uses the manager: waiting in \<open>SendCommand\<close> (agent object, command id,
  response channel), returned from it, or inside \<open>HandleCommandResult\<close> with the agent object
  found, and then with the response channel found.
\<close>

datatype mgr_thread =
    Waiting nat string nat
  | Returned string "command_result result"
  | Routing nat command_result
  | Routed nat command_result
  | Handled

record manager =
  mg_objs :: "connected_agent list"
  mg_agents :: "(string \<times> nat) list"
  mg_send :: "server_message chan list"
  mg_resp :: "command_result chan list"
  mg_threads :: "mgr_thread list"
  mg_closed :: bool
  mg_panic :: bool

definition mgr_new :: manager where
  "mgr_new = \<lparr>mg_objs = [], mg_agents = [], mg_send = [], mg_resp = [], mg_threads = [],
     mg_closed = False, mg_panic = False\<rparr>"

text \<open>The channel of a new stream, made by \<open>Connect\<close> before it registers the agent.\<close>

definition open_stream :: "manager \<Rightarrow> nat \<times> manager" where
  "open_stream m = (length (mg_send m), m\<lparr>mg_send := mg_send m @ [make_chan 32]\<rparr>)"

section \<open>Operations\<close>

definition register :: "string \<Rightarrow> nat \<Rightarrow> manager \<Rightarrow> manager" where
  "register agentID sendCh m = m\<lparr>
     mg_objs := mg_objs m @ [\<lparr>ca_agent_id = agentID, ca_send_ch = sendCh, ca_status = ''connected'',
       ca_current_job = None, ca_pending = []\<rparr>],
     mg_agents := put agentID (length (mg_objs m)) (mg_agents m)\<rparr>"

text \<open>Closing the response channels of an agent object, and its send channel.\<close>

definition close_resp :: "nat \<Rightarrow> manager \<Rightarrow> manager" where
  "close_resp ch m = (case close_chan (mg_resp m ! ch) of (c, panics) \<Rightarrow>
     m\<lparr>mg_resp := (mg_resp m)[ch := c], mg_panic := mg_panic m \<or> panics\<rparr>)"

definition drop_agent :: "nat \<Rightarrow> manager \<Rightarrow> manager" where
  "drop_agent a m0 =
    (let agent = mg_objs m0 ! a;
         m1 = fold (\<lambda>(_, ch). close_resp ch) (ca_pending agent) m0;
         m2 = m1\<lparr>mg_objs := (mg_objs m1)[a := agent\<lparr>ca_pending := []\<rparr>]\<rparr>
     in case close_chan (mg_send m2 ! ca_send_ch agent) of (c, panics) \<Rightarrow>
          m2\<lparr>mg_send := (mg_send m2)[ca_send_ch agent := c], mg_panic := mg_panic m2 \<or> panics\<rparr>)"

definition unregister :: "string \<Rightarrow> manager \<Rightarrow> manager" where
  "unregister agentID m =
    (case map_of (mg_agents m) agentID of
       None \<Rightarrow> m
     | Some a \<Rightarrow> (drop_agent a m)\<lparr>mg_agents := del agentID (mg_agents m)\<rparr>)"

definition mgr_close :: "manager \<Rightarrow> manager" where
  "mgr_close m =
    (if mg_closed m then m
     else (fold (\<lambda>(_, a). drop_agent a) (mg_agents m) m)\<lparr>mg_agents := [], mg_closed := True\<rparr>)"

definition not_connected :: "string \<Rightarrow> go_error" where
  "not_connected agentID = Msg (''agent '' @ agentID @ '' not connected'')"

definition buffer_full :: "string \<Rightarrow> go_error" where
  "buffer_full agentID = Msg (''agent '' @ agentID @ '' send buffer full'')"

definition send_on :: "nat \<Rightarrow> server_message \<Rightarrow> manager \<Rightarrow> send_outcome \<times> manager" where
  "send_on ch msg m = (case try_send msg (mg_send m ! ch) of (r, c) \<Rightarrow>
     (r, m\<lparr>mg_send := (mg_send m)[ch := c], mg_panic := mg_panic m \<or> r = Send_panics\<rparr>))"

definition mgr_send :: "string \<Rightarrow> server_message \<Rightarrow> manager \<Rightarrow> unit result \<times> manager" where
  "mgr_send agentID msg m =
    (case map_of (mg_agents m) agentID of
       None \<Rightarrow> (Inl (not_connected agentID), m)
     | Some a \<Rightarrow>
       (case send_on (ca_send_ch (mg_objs m ! a)) msg m of
          (Sent, m1) \<Rightarrow> (Inr (), m1)
        | (_, m1) \<Rightarrow> (Inl (buffer_full agentID), m1)))"

definition set_pending :: "nat \<Rightarrow> ((string \<times> nat) list \<Rightarrow> (string \<times> nat) list) \<Rightarrow> manager \<Rightarrow> manager" where
  "set_pending a f m = m\<lparr>mg_objs := (mg_objs m)[a := (mg_objs m ! a)\<lparr>ca_pending := f (ca_pending (mg_objs m ! a))\<rparr>]\<rparr>"

text \<open>
  The part of \<open>SendCommand\<close> under the registry's read lock: the command is registered and
  sent. With the agent offline or its buffer full the call returns an error, otherwise the
  goroutine waits. \<open>uuid\<close> is the id a command without one is given.
\<close>

definition send_command :: "string \<Rightarrow> string \<Rightarrow> server_command \<Rightarrow> manager \<Rightarrow> mgr_thread \<times> manager" where
  "send_command agentID uuid cmd0 m0 =
    (let cmd = (if sc_command_id cmd0 = '''' then cmd0\<lparr>sc_command_id := uuid\<rparr> else cmd0);
         cid = sc_command_id cmd;
         ch = length (mg_resp m0);
         m1 = m0\<lparr>mg_resp := mg_resp m0 @ [make_chan 1]\<rparr>
     in case map_of (mg_agents m0) agentID of
          None \<Rightarrow> (Returned cid (Inl (not_connected agentID)), m1)
        | Some a \<Rightarrow>
          (case send_on (ca_send_ch (mg_objs m0 ! a)) (Command cmd) (set_pending a (put cid ch) m1) of
             (Sent, m2) \<Rightarrow> (Waiting a cid ch, m2)
           | (_, m2) \<Rightarrow> (Returned cid (Inl (buffer_full agentID)), set_pending a (del cid) m2)))"

text \<open>The end of the wait: a result, a closed channel, or the timeout of 30 seconds.\<close>

definition await_result :: "nat \<Rightarrow> string \<Rightarrow> nat \<Rightarrow> bool \<Rightarrow> manager \<Rightarrow> (mgr_thread \<times> manager) option" where
  "await_result a cid ch timeout m =
    (let done = set_pending a (del cid)
     in if timeout then
          Some (Returned cid (Inl (Msg (''command '' @ cid @ '' timed out''))), done m)
        else case recv (mg_resp m ! ch) of
          (Received r, c) \<Rightarrow> Some (Returned cid (Inr r), done (m\<lparr>mg_resp := (mg_resp m)[ch := c]\<rparr>))
        | (Closed_empty, _) \<Rightarrow>
            Some (Returned cid (Inl (Msg ''disconnected while waiting for command result'')), done m)
        | (Blocks, _) \<Rightarrow> None)"

definition is_online :: "string \<Rightarrow> manager \<Rightarrow> bool" where
  "is_online agentID m = (map_of (mg_agents m) agentID \<noteq> None)"

text \<open>The three sections of \<open>HandleCommandResult\<close>: find the agent, find the channel, send.\<close>

definition route_find :: "string \<Rightarrow> command_result \<Rightarrow> manager \<Rightarrow> mgr_thread" where
  "route_find agentID r m =
    (case map_of (mg_agents m) agentID of None \<Rightarrow> Handled | Some a \<Rightarrow> Routing a r)"

definition route_channel :: "nat \<Rightarrow> command_result \<Rightarrow> manager \<Rightarrow> mgr_thread" where
  "route_channel a r m =
    (case map_of (ca_pending (mg_objs m ! a)) (cr_command_id r) of None \<Rightarrow> Handled | Some ch \<Rightarrow> Routed ch r)"

definition route_send :: "nat \<Rightarrow> command_result \<Rightarrow> manager \<Rightarrow> manager" where
  "route_send ch r m = (case try_send r (mg_resp m ! ch) of (out, c) \<Rightarrow>
     m\<lparr>mg_resp := (mg_resp m)[ch := c], mg_panic := mg_panic m \<or> out = Send_panics\<rparr>)"

section \<open>Heartbeats\<close>

datatype transition = Job_no_change | Job_started | Job_progress | Job_stopped

definition job_transition :: "current_job_info option \<Rightarrow> current_job_info option \<Rightarrow> transition" where
  "job_transition prevJob currentJob =
    (if prevJob = None \<and> currentJob \<noteq> None then Job_started
     else if prevJob \<noteq> None \<and> currentJob = None then Job_stopped
     else if prevJob \<noteq> None \<and> currentJob \<noteq> None then Job_progress
     else Job_no_change)"

definition update_heartbeat ::
  "string \<Rightarrow> string \<Rightarrow> current_job_info option \<Rightarrow> manager \<Rightarrow> transition \<times> manager" where
  "update_heartbeat agentID status currentJob m =
    (case map_of (mg_agents m) agentID of
       None \<Rightarrow> (Job_no_change, m)
     | Some a \<Rightarrow>
       (let agent = mg_objs m ! a
        in (job_transition (ca_current_job agent) currentJob,
            m\<lparr>mg_objs := (mg_objs m)[a := agent\<lparr>ca_status := status, ca_current_job := currentJob\<rparr>]\<rparr>)))"

definition get_current_job :: "string \<Rightarrow> manager \<Rightarrow> current_job_info option" where
  "get_current_job agentID m =
    (case map_of (mg_agents m) agentID of None \<Rightarrow> None | Some a \<Rightarrow> ca_current_job (mg_objs m ! a))"

section \<open>The step relation\<close>

definition thread_id :: "mgr_thread \<Rightarrow> string option" where
  "thread_id t = (case t of Waiting _ cid _ \<Rightarrow> Some cid | Returned cid _ \<Rightarrow> Some cid | _ \<Rightarrow> None)"

definition spawn :: "mgr_thread \<Rightarrow> manager \<Rightarrow> manager" where
  "spawn t m = m\<lparr>mg_threads := mg_threads m @ [t]\<rparr>"

definition become :: "nat \<Rightarrow> mgr_thread \<Rightarrow> manager \<Rightarrow> manager" where
  "become i t m = m\<lparr>mg_threads := (mg_threads m)[i := t]\<rparr>"

definition stream_recv :: "nat \<Rightarrow> manager \<Rightarrow> manager" where
  "stream_recv ch m = m\<lparr>mg_send := (mg_send m)[ch := snd (recv (mg_send m ! ch))]\<rparr>"

inductive mgr_step :: "manager \<Rightarrow> manager \<Rightarrow> bool" where
  connect: "open_stream m = (ch, m1) \<Longrightarrow> mgr_step m (register agentID ch m1)"
| disconnect: "mgr_step m (unregister agentID m)"
| shutdown: "mgr_step m (mgr_close m)"
| push: "mgr_step m (snd (mgr_send agentID msg m))"
| stream: "mgr_step m (stream_recv ch m)"
| heartbeat: "mgr_step m (snd (update_heartbeat agentID status job m))"
| call: "send_command agentID uuid cmd m = (t, m1) \<Longrightarrow> mgr_step m (spawn t m1)"
| wake: "i < length (mg_threads m) \<Longrightarrow> mg_threads m ! i = Waiting a cid ch \<Longrightarrow>
    await_result a cid ch timeout m = Some (t, m1) \<Longrightarrow> mgr_step m (become i t m1)"
| result: "mgr_step m (spawn (route_find agentID r m) m)"
| route: "i < length (mg_threads m) \<Longrightarrow> mg_threads m ! i = Routing a r \<Longrightarrow>
    mgr_step m (become i (route_channel a r m) m)"
| deliver: "i < length (mg_threads m) \<Longrightarrow> mg_threads m ! i = Routed ch r \<Longrightarrow>
    mgr_step m (become i Handled (route_send ch r m))"

inductive_cases mgr_stepE: "mgr_step m m'"

inductive mgr_reach :: "manager \<Rightarrow> bool" where
  start: "mgr_reach mgr_new"
| step: "mgr_reach m \<Longrightarrow> mgr_step m m' \<Longrightarrow> mgr_reach m'"

section \<open>Invariants\<close>

abbreviation pend :: "manager \<Rightarrow> nat \<Rightarrow> (string \<times> nat) list" where
  "pend m a \<equiv> ca_pending (mg_objs m ! a)"

abbreviation chan_of :: "manager \<Rightarrow> nat \<Rightarrow> nat" where
  "chan_of m a \<equiv> ca_send_ch (mg_objs m ! a)"

text \<open>
  Registered agents have open send channels of their own, and every response channel that is
  still pending is open and belongs to one agent object.
\<close>

definition live :: "(string \<times> nat) list \<Rightarrow> manager \<Rightarrow> bool" where
  "live ags m \<longleftrightarrow>
    (\<forall>a \<in> snd ` set ags. a < length (mg_objs m) \<and> chan_of m a < length (mg_send m)
        \<and> \<not> ch_closed (mg_send m ! chan_of m a))
    \<and> distinct (map snd ags) \<and> inj_on (chan_of m) (snd ` set ags)"

definition pend_ok :: "manager \<Rightarrow> bool" where
  "pend_ok m \<longleftrightarrow>
    (\<forall>a < length (mg_objs m). distinct (map snd (pend m a)))
    \<and> (\<forall>a < length (mg_objs m). \<forall>x ch. (x, ch) \<in> set (pend m a) \<longrightarrow>
          ch < length (mg_resp m) \<and> \<not> ch_closed (mg_resp m ! ch))
    \<and> (\<forall>a < length (mg_objs m). \<forall>b < length (mg_objs m). \<forall>x y ch.
          (x, ch) \<in> set (pend m a) \<longrightarrow> (y, ch) \<in> set (pend m b) \<longrightarrow> a = b)"

lemma pend_okD:
  assumes "pend_ok m" and "a < length (mg_objs m)"
  shows "distinct (map snd (pend m a))"
    and "(x, ch) \<in> set (pend m a) \<Longrightarrow> ch < length (mg_resp m) \<and> \<not> ch_closed (mg_resp m ! ch)"
    and "b < length (mg_objs m) \<Longrightarrow> (x, ch) \<in> set (pend m a) \<Longrightarrow> (y, ch) \<in> set (pend m b) \<Longrightarrow> a = b"
  using assms unfolding pend_ok_def by blast+

definition mgr_inv :: "manager \<Rightarrow> bool" where
  "mgr_inv m \<longleftrightarrow> keys_ok (mg_agents m) \<and> live (mg_agents m) m \<and> pend_ok m"

lemma close_resp_simps [simp]:
  "mg_objs (close_resp ch m) = mg_objs m" "mg_send (close_resp ch m) = mg_send m"
  "mg_agents (close_resp ch m) = mg_agents m" "mg_threads (close_resp ch m) = mg_threads m"
  "length (mg_resp (close_resp ch m)) = length (mg_resp m)" "mg_closed (close_resp ch m) = mg_closed m"
  by (simp_all add: close_resp_def close_chan_def)

lemma close_resps_simps [simp]:
  "mg_objs (fold (\<lambda>(_, ch). close_resp ch) ps m) = mg_objs m"
  "mg_send (fold (\<lambda>(_, ch). close_resp ch) ps m) = mg_send m"
  "mg_agents (fold (\<lambda>(_, ch). close_resp ch) ps m) = mg_agents m"
  "mg_threads (fold (\<lambda>(_, ch). close_resp ch) ps m) = mg_threads m"
  "mg_closed (fold (\<lambda>(_, ch). close_resp ch) ps m) = mg_closed m"
  "length (mg_resp (fold (\<lambda>(_, ch). close_resp ch) ps m)) = length (mg_resp m)"
  by (induction ps arbitrary: m) (auto split: prod.split)

lemma close_resps_buf:
  "ch_buf (mg_resp (fold (\<lambda>(_, ch). close_resp ch) ps m) ! c) = ch_buf (mg_resp m ! c)"
proof (induction ps arbitrary: m)
  case (Cons p ps)
  have "ch_buf (mg_resp (close_resp (snd p) m) ! c) = ch_buf (mg_resp m ! c)"
    by (cases "snd p < length (mg_resp m)"; cases "c = snd p")
      (simp_all add: close_resp_def close_chan_def list_update_beyond not_less)
  then show ?case using Cons by (simp add: case_prod_beta)
qed simp

lemma close_resps_closed:
  assumes "\<forall>ch \<in> snd ` set ps. ch < length (mg_resp m)"
  shows "ch_closed (mg_resp (fold (\<lambda>(_, ch). close_resp ch) ps m) ! c)
    \<longleftrightarrow> ch_closed (mg_resp m ! c) \<or> c \<in> snd ` set ps"
  using assms
proof (induction ps arbitrary: m)
  case (Cons p ps)
  have "ch_closed (mg_resp (close_resp (snd p) m) ! c) \<longleftrightarrow> ch_closed (mg_resp m ! c) \<or> c = snd p"
    using Cons.prems by (auto simp: close_resp_def close_chan_def nth_list_update)
  then show ?case using Cons by (auto simp: case_prod_beta)
qed simp

lemma close_resps_panic:
  assumes "distinct (map snd ps)"
    and "\<forall>ch \<in> snd ` set ps. ch < length (mg_resp m) \<and> \<not> ch_closed (mg_resp m ! ch)"
  shows "mg_panic (fold (\<lambda>(_, ch). close_resp ch) ps m) = mg_panic m"
  using assms
proof (induction ps arbitrary: m)
  case (Cons p ps)
  have "mg_panic (close_resp (snd p) m) = mg_panic m"
    using Cons.prems by (simp add: close_resp_def close_chan_def)
  moreover have "\<forall>ch \<in> snd ` set ps. \<not> ch_closed (mg_resp (close_resp (snd p) m) ! ch)"
    using Cons.prems by (auto simp: close_resp_def close_chan_def nth_list_update)
  ultimately show ?case using Cons by (simp add: case_prod_beta)
qed simp

lemma drop_agent_simps [simp]:
  "mg_agents (drop_agent a m) = mg_agents m" "mg_threads (drop_agent a m) = mg_threads m"
  "length (mg_objs (drop_agent a m)) = length (mg_objs m)"
  "length (mg_send (drop_agent a m)) = length (mg_send m)"
  "length (mg_resp (drop_agent a m)) = length (mg_resp m)"
  "mg_closed (drop_agent a m) = mg_closed m"
  "ch_buf (mg_resp (drop_agent a m) ! c) = ch_buf (mg_resp m ! c)"
  by (simp_all add: drop_agent_def Let_def close_chan_def close_resps_buf)

lemma drop_agent_pend:
  "a < length (mg_objs m) \<Longrightarrow> pend (drop_agent a m) b = (if b = a then [] else pend m b)"
  by (simp add: drop_agent_def Let_def close_chan_def nth_list_update)

lemma drop_agent_chan:
  "a < length (mg_objs m) \<Longrightarrow> chan_of (drop_agent a m) b = chan_of m b"
  by (simp add: drop_agent_def Let_def close_chan_def nth_list_update)

lemma drop_agent_send_closed:
  "chan_of m a < length (mg_send m) \<Longrightarrow>
    ch_closed (mg_send (drop_agent a m) ! c) \<longleftrightarrow> ch_closed (mg_send m ! c) \<or> c = chan_of m a"
  by (simp add: drop_agent_def Let_def close_chan_def nth_list_update)

lemma drop_agent_closed:
  assumes "pend_ok m" and "a < length (mg_objs m)"
  shows "ch_closed (mg_resp (drop_agent a m) ! c) \<longleftrightarrow> ch_closed (mg_resp m ! c) \<or> c \<in> snd ` set (pend m a)"
proof -
  have "\<forall>ch \<in> snd ` set (pend m a). ch < length (mg_resp m)" using pend_okD(2)[OF assms] by auto
  from close_resps_closed[OF this, of c] show ?thesis
    by (simp add: drop_agent_def Let_def close_chan_def)
qed

lemma drop_agent_panic:
  assumes "pend_ok m" and "live ags m" and "a \<in> snd ` set ags"
  shows "mg_panic (drop_agent a m) = mg_panic m"
proof -
  have a: "a < length (mg_objs m)" "\<not> ch_closed (mg_send m ! chan_of m a)"
    using assms(2,3) unfolding live_def by blast+
  then have "mg_panic (fold (\<lambda>(_, ch). close_resp ch) (pend m a) m) = mg_panic m"
    using pend_okD(2)[OF assms(1) a(1)] by (intro close_resps_panic pend_okD(1)[OF assms(1) a(1)]) auto
  with a show ?thesis by (simp add: drop_agent_def Let_def close_chan_def)
qed

lemma pend_ok_drop:
  assumes "pend_ok m" and "a < length (mg_objs m)"
  shows "pend_ok (drop_agent a m)"
proof -
  have "ch \<notin> snd ` set (pend m a)"
    if "b < length (mg_objs m)" "b \<noteq> a" "(x, ch) \<in> set (pend m b)" for b x ch
    using pend_okD(3)[OF assms(1) that(1) assms(2) that(3)] that(2) by auto
  then show ?thesis
    using pend_okD(1,2)[OF assms(1)] pend_okD(3)[OF assms(1)]
    unfolding pend_ok_def by (auto simp: drop_agent_pend[OF assms(2)] drop_agent_closed[OF assms])
qed

lemma live_drop:
  assumes "live ((k, a) # ags) m"
  shows "live ags (drop_agent a m)"
proof -
  have a: "a < length (mg_objs m)" "chan_of m a < length (mg_send m)" "a \<notin> snd ` set ags"
    and inj: "inj_on (chan_of m) (insert a (snd ` set ags))"
    using assms by (auto simp: live_def)
  have "chan_of m b \<noteq> chan_of m a" if "b \<in> snd ` set ags" for b
    using inj a(3) that unfolding inj_on_def by blast
  then show ?thesis using assms a inj
    by (auto simp: live_def drop_agent_chan drop_agent_send_closed inj_on_def)
qed

lemma drop_agents:
  assumes "live ags m" and "pend_ok m"
  shows "pend_ok (fold (\<lambda>(_, a). drop_agent a) ags m)
    \<and> mg_panic (fold (\<lambda>(_, a). drop_agent a) ags m) = mg_panic m
    \<and> mg_threads (fold (\<lambda>(_, a). drop_agent a) ags m) = mg_threads m"
  using assms
proof (induction ags arbitrary: m)
  case (Cons p ags)
  obtain k a where p: "p = (k, a)" by fastforce
  have a: "a < length (mg_objs m)" using Cons.prems(1) by (simp add: live_def p)
  show ?case
    using Cons.IH[of "drop_agent a m"] live_drop[of k a ags m] pend_ok_drop[OF Cons.prems(2) a]
      drop_agent_panic[OF Cons.prems(2,1), of a] Cons.prems
    by (simp add: p)
qed simp

lemma live_cong:
  assumes "live ags m" and "length (mg_objs m) \<le> length (mg_objs m')"
    and "length (mg_send m) \<le> length (mg_send m')"
    and "\<And>a. a < length (mg_objs m) \<Longrightarrow> chan_of m' a = chan_of m a"
    and "\<And>c. c < length (mg_send m) \<Longrightarrow> ch_closed (mg_send m' ! c) = ch_closed (mg_send m ! c)"
  shows "live ags m'"
proof -
  have "chan_of m' a = chan_of m a" if "a \<in> snd ` set ags" for a
    using that assms(1,4) unfolding live_def by blast
  then show ?thesis using assms(1-3,5) by (auto simp: live_def inj_on_def less_le_trans)
qed

lemma send_on_simps [simp]:
  "mg_objs (snd (send_on ch msg m)) = mg_objs m" "mg_resp (snd (send_on ch msg m)) = mg_resp m"
  "mg_agents (snd (send_on ch msg m)) = mg_agents m" "mg_threads (snd (send_on ch msg m)) = mg_threads m"
  "length (mg_send (snd (send_on ch msg m))) = length (mg_send m)"
  "ch_closed (mg_send (snd (send_on ch msg m)) ! c) = ch_closed (mg_send m ! c)"
  "mg_panic (snd (send_on ch msg m)) \<longleftrightarrow> mg_panic m \<or> ch_closed (mg_send m ! ch)"
  by (cases "ch < length (mg_send m)"; cases "c = ch";
      simp add: send_on_def list_update_beyond not_less try_send_def)+

lemma set_pending_simps [simp]:
  "length (mg_objs (set_pending a f m)) = length (mg_objs m)" "mg_send (set_pending a f m) = mg_send m"
  "mg_resp (set_pending a f m) = mg_resp m" "mg_agents (set_pending a f m) = mg_agents m"
  "mg_threads (set_pending a f m) = mg_threads m" "mg_panic (set_pending a f m) = mg_panic m"
  "chan_of (set_pending a f m) b = chan_of m b"
  "a < length (mg_objs m) \<Longrightarrow> pend (set_pending a f m) b = (if b = a then f (pend m a) else pend m b)"
  by (cases "a < length (mg_objs m)"; cases "b = a"; simp add: set_pending_def list_update_beyond)+

lemma set_pending_beyond: "\<not> a < length (mg_objs m) \<Longrightarrow> set_pending a f m = m"
  by (simp add: set_pending_def list_update_beyond)

lemma pend_ok_set_del:
  assumes "pend_ok m"
  shows "pend_ok (set_pending a (del cid) m)"
proof (cases "a < length (mg_objs m)")
  case True
  have "distinct (map snd (del cid ps))" if "distinct (map snd ps)" for ps :: "(string \<times> nat) list"
    using that by (induction ps) (auto simp: del_def)
  then show ?thesis
    using pend_okD(1,2)[OF assms] pend_okD(3)[OF assms] True
    unfolding pend_ok_def by (auto simp: set_del)
qed (simp add: set_pending_beyond assms)

text \<open>A new response channel, registered for a command.\<close>

lemma distinct_put_fresh:
  "distinct (map snd ps) \<Longrightarrow> \<forall>q\<in>set ps. snd q \<noteq> n \<Longrightarrow> distinct (map snd (put k n ps))"
  by (induction ps) (auto simp: put_def)

lemma pend_ok_set_put:
  assumes "pend_ok m" and "a < length (mg_objs m)"
    and "m1 = set_pending a (put cid (length (mg_resp m))) (m\<lparr>mg_resp := mg_resp m @ [make_chan 1]\<rparr>)"
  shows "pend_ok m1"
proof -
  let ?n = "length (mg_resp m)"
  have objs: "length (mg_objs m1) = length (mg_objs m)" and resp: "mg_resp m1 = mg_resp m @ [make_chan 1]"
    using assms(3) by simp_all
  have pend: "pend m1 b = (if b = a then put cid ?n (pend m a) else pend m b)" for b
    using assms(2,3) by simp
  have new: "ch < ?n" if "b < length (mg_objs m)" "(x, ch) \<in> set (pend m b)" for b x ch
    using pend_okD(2)[OF assms(1) that] by simp
  have d: "distinct (map snd (put cid ?n (pend m a)))"
    using new[OF assms(2)] pend_okD(1)[OF assms(1,2)] by (intro distinct_put_fresh) fastforce+
  show ?thesis
    unfolding pend_ok_def objs resp
  proof (intro conjI allI impI)
    fix b assume "b < length (mg_objs m)"
    then show "distinct (map snd (pend m1 b))" using d pend_okD(1)[OF assms(1)] by (simp add: pend)
  next
    fix b x ch assume b: "b < length (mg_objs m)" and "(x, ch) \<in> set (pend m1 b)"
    then have "ch = ?n \<or> (x, ch) \<in> set (pend m b)" by (auto simp: pend set_put split: if_splits)
    then show "ch < length (mg_resp m @ [make_chan 1])"
      and "\<not> ch_closed ((mg_resp m @ [make_chan 1]) ! ch)"
      using pend_okD(2)[OF assms(1) b, of x ch] by (auto simp: nth_append)
  next
    fix b c x y ch
    assume b: "b < length (mg_objs m)" and c: "c < length (mg_objs m)"
      and xy: "(x, ch) \<in> set (pend m1 b)" "(y, ch) \<in> set (pend m1 c)"
    then have "(ch = ?n \<and> b = a \<or> (x, ch) \<in> set (pend m b))" and "(ch = ?n \<and> c = a \<or> (y, ch) \<in> set (pend m c))"
      by (auto simp: pend set_put split: if_splits)
    then show "b = c" using pend_okD(3)[OF assms(1) b c] new[OF b] new[OF c] by blast
  qed
qed

section \<open>Every step keeps the invariant, and only one can panic\<close>

lemma live_new_obj:
  assumes "live ags m" and "keys_ok ags"
    and "\<not> ch_closed c" and "mg_send m1 = mg_send m @ [c]"
    and "mg_objs m1 = mg_objs m @ [ag]" and "ca_send_ch ag = length (mg_send m)"
  shows "live (put k (length (mg_objs m)) ags) m1"
proof -
  let ?n = "length (mg_objs m)"
  have old: "chan_of m1 a = chan_of m a \<and> chan_of m a < length (mg_send m) \<and> a < ?n
      \<and> \<not> ch_closed (mg_send m ! chan_of m a)" if "a \<in> snd ` set ags" for a
    using that assms(1,5) unfolding live_def by (auto simp: nth_append)
  have sub: "snd ` set (put k ?n ags) \<subseteq> insert ?n (snd ` set ags)" by (auto simp: set_put)
  have dis: "distinct (map snd (put k ?n ags))"
    using assms(1) old by (intro distinct_put_fresh) (force simp: live_def)+
  have new: "chan_of m1 ?n = length (mg_send m)" using assms(5,6) by simp
  have "inj_on (chan_of m1) (snd ` set ags)"
    using assms(1) old inj_on_cong[of "snd ` set ags" "chan_of m1" "chan_of m"] by (simp add: live_def)
  moreover have "chan_of m1 ?n \<notin> chan_of m1 ` (snd ` set ags)"
  proof
    assume "chan_of m1 ?n \<in> chan_of m1 ` (snd ` set ags)"
    then obtain a where a: "a \<in> snd ` set ags" "chan_of m1 ?n = chan_of m1 a" by blast
    from old[OF a(1)] a(2) new show False by simp
  qed
  ultimately have "inj_on (chan_of m1) (insert ?n (snd ` set ags))" by (auto simp: inj_on_insert)
  then have "inj_on (chan_of m1) (snd ` set (put k ?n ags))" using sub by (rule inj_on_subset)
  moreover have "a < length (mg_objs m1) \<and> chan_of m1 a < length (mg_send m1)
      \<and> \<not> ch_closed (mg_send m1 ! chan_of m1 a)" if "a \<in> snd ` set (put k ?n ags)" for a
  proof (cases "a = ?n")
    case True
    then show ?thesis using assms(3-5) new by simp
  next
    case False
    then have "a \<in> snd ` set ags" using that sub by blast
    from old[OF this] show ?thesis using assms(4,5) by (simp add: nth_append)
  qed
  ultimately show ?thesis using dis unfolding live_def by blast
qed

lemma live_sub:
  assumes "live ags m" and "set ags' \<subseteq> set ags" and "distinct (map snd ags')"
  shows "live ags' m"
proof -
  have sub: "snd ` set ags' \<subseteq> snd ` set ags" using assms(2) by blast
  have "inj_on (chan_of m) (snd ` set ags')"
    using assms(1) by (intro inj_on_subset[OF _ sub]) (simp add: live_def)
  moreover have "\<forall>a\<in>snd ` set ags'. a < length (mg_objs m) \<and> chan_of m a < length (mg_send m)
      \<and> \<not> ch_closed (mg_send m ! chan_of m a)"
  proof
    fix a assume "a \<in> snd ` set ags'"
    then have "a \<in> snd ` set ags" using sub by (rule rev_subsetD)
    then show "a < length (mg_objs m) \<and> chan_of m a < length (mg_send m)
      \<and> \<not> ch_closed (mg_send m ! chan_of m a)" using assms(1) unfolding live_def by (metis (no_types))
  qed
  ultimately show ?thesis using assms(3) unfolding live_def by (intro conjI)
qed

lemma distinct_del: "distinct (map snd m) \<Longrightarrow> distinct (map snd (del k m))"
  by (induction m) (auto simp: del_def)

lemma mgr_inv_cong:
  assumes "mgr_inv m" and "mg_agents m' = mg_agents m" and "mg_objs m' = mg_objs m"
    and "length (mg_send m') = length (mg_send m)" and "length (mg_resp m') = length (mg_resp m)"
    and "\<And>c. ch_closed (mg_send m' ! c) = ch_closed (mg_send m ! c)"
    and "\<And>c. ch_closed (mg_resp m' ! c) = ch_closed (mg_resp m ! c)"
  shows "mgr_inv m'"
  using assms unfolding mgr_inv_def pend_ok_def live_def by simp

lemma agent_found:
  assumes "mgr_inv m" and "map_of (mg_agents m) k = Some a"
  shows "a \<in> snd ` set (mg_agents m)" and "a < length (mg_objs m)" and "\<not> ch_closed (mg_send m ! chan_of m a)"
proof -
  show a: "a \<in> snd ` set (mg_agents m)" using map_of_SomeD[OF assms(2)] by force
  show "a < length (mg_objs m)" and "\<not> ch_closed (mg_send m ! chan_of m a)"
    using a assms(1) unfolding mgr_inv_def live_def by blast+
qed

lemma unregister_inv:
  assumes "mgr_inv m"
  shows "mgr_inv (unregister k m) \<and> mg_panic (unregister k m) = mg_panic m
    \<and> mg_threads (unregister k m) = mg_threads m"
proof (cases "map_of (mg_agents m) k")
  case None
  then show ?thesis using assms by (simp add: unregister_def)
next
  case (Some a)
  note a = agent_found[OF assms Some]
  have m: "keys_ok (mg_agents m)" "live (mg_agents m) m" "pend_ok m" using assms by (simp_all add: mgr_inv_def)
  have sub: "set ((k, a) # del k (mg_agents m)) \<subseteq> set (mg_agents m)"
    using map_of_SomeD[OF Some] by (auto simp: set_del)
  have "distinct (map snd (mg_agents m))" using m(2) by (simp add: live_def)
  then have "a \<notin> snd ` set (del k (mg_agents m))"
    using map_of_SomeD[OF Some] unfolding set_del distinct_map inj_on_def by fastforce
  then have "live ((k, a) # del k (mg_agents m)) m"
    using \<open>distinct (map snd (mg_agents m))\<close> by (intro live_sub[OF m(2) sub]) (simp add: distinct_del)
  from live_drop[OF this] have l: "live (del k (mg_agents m)) (drop_agent a m)" .
  have pk: "pend_ok (drop_agent a m)" by (rule pend_ok_drop[OF m(3) a(2)])
  let ?m = "(drop_agent a m)\<lparr>mg_agents := del k (mg_agents m)\<rparr>"
  have "live (del k (mg_agents m)) ?m" using l by (simp add: live_def)
  moreover have "pend_ok ?m" using pk by (simp add: pend_ok_def)
  ultimately have "mgr_inv ?m" using m(1) by (simp add: mgr_inv_def)
  moreover have "mg_panic ?m = mg_panic m" using drop_agent_panic[OF m(3,2) a(1)] by simp
  ultimately show ?thesis by (simp add: unregister_def Some)
qed

lemma mgr_close_inv:
  assumes "mgr_inv m"
  shows "mgr_inv (mgr_close m) \<and> mg_panic (mgr_close m) = mg_panic m
    \<and> mg_threads (mgr_close m) = mg_threads m"
proof -
  let ?m = "fold (\<lambda>(_, a). drop_agent a) (mg_agents m) m"
  have d: "pend_ok ?m \<and> mg_panic ?m = mg_panic m \<and> mg_threads ?m = mg_threads m"
    using drop_agents assms by (simp add: mgr_inv_def)
  then have "pend_ok (?m\<lparr>mg_agents := [], mg_closed := True\<rparr>)" by (simp add: pend_ok_def)
  with d assms show ?thesis by (simp add: mgr_close_def mgr_inv_def live_def keys_ok_def)
qed

lemma pend_ok_mono:
  assumes "pend_ok m"
    and same: "\<And>b. b < length (mg_objs m') \<Longrightarrow> pend m' b = [] \<or> b < length (mg_objs m) \<and> pend m' b = pend m b"
    and resp: "length (mg_resp m) \<le> length (mg_resp m')"
      "\<And>c. c < length (mg_resp m) \<Longrightarrow> ch_closed (mg_resp m' ! c) = ch_closed (mg_resp m ! c)"
  shows "pend_ok m'"
  unfolding pend_ok_def
proof (intro conjI allI impI)
  fix b assume "b < length (mg_objs m')"
  with same[of b] show "distinct (map snd (pend m' b))" using pend_okD(1)[OF assms(1)] by auto
next
  fix b x ch assume "b < length (mg_objs m')" and "(x, ch) \<in> set (pend m' b)"
  with same[of b] have "ch < length (mg_resp m) \<and> \<not> ch_closed (mg_resp m ! ch)"
    using pend_okD(2)[OF assms(1), of b x ch] by auto
  then show "ch < length (mg_resp m')" and "\<not> ch_closed (mg_resp m' ! ch)" using resp by auto
next
  fix a b x y ch
  assume "a < length (mg_objs m')" "b < length (mg_objs m')"
    and "(x, ch) \<in> set (pend m' a)" "(y, ch) \<in> set (pend m' b)"
  with same[of a] same[of b] show "a = b" using pend_okD(3)[OF assms(1), of a b x ch y] by auto
qed

lemma recv_closed [simp]: "ch_closed (snd (recv c)) = ch_closed c"
  by (simp add: recv_def split: list.split)

lemma connect_inv:
  assumes "mgr_inv m" and "open_stream m = (ch, m1)"
  shows "mgr_inv (register k ch m1) \<and> mg_panic (register k ch m1) = mg_panic m"
proof -
  let ?m = "register k ch m1"
  have e: "ch = length (mg_send m)" "m1 = m\<lparr>mg_send := mg_send m @ [make_chan 32]\<rparr>"
    using assms(2) by (auto simp: open_stream_def)
  have "live (put k (length (mg_objs m)) (mg_agents m)) ?m"
    using assms(1) by (intro live_new_obj[where c = "make_chan 32"]) (auto simp: register_def e mgr_inv_def)
  moreover have "pend_ok ?m"
    using assms(1) by - (rule pend_ok_mono[of m], auto simp: mgr_inv_def register_def e nth_append)
  ultimately show ?thesis using assms(1) by (simp add: mgr_inv_def register_def e)
qed

lemma send_on_inv: "mgr_inv m \<Longrightarrow> mgr_inv (snd (send_on ch msg m))"
  by (erule mgr_inv_cong) simp_all

lemma mgr_send_inv:
  assumes "mgr_inv m"
  shows "mgr_inv (snd (mgr_send k msg m)) \<and> mg_panic (snd (mgr_send k msg m)) = mg_panic m
    \<and> mg_threads (snd (mgr_send k msg m)) = mg_threads m"
proof (cases "map_of (mg_agents m) k")
  case None
  then show ?thesis using assms by (simp add: mgr_send_def)
next
  case (Some a)
  then have "snd (mgr_send k msg m) = snd (send_on (chan_of m a) msg m)"
    by (auto simp: mgr_send_def split: prod.split send_outcome.split)
  then show ?thesis using send_on_inv[OF assms] agent_found(3)[OF assms Some] by simp
qed

lemma mgr_send_frame:
  "mg_objs (snd (mgr_send k msg m)) = mg_objs m" "mg_resp (snd (mgr_send k msg m)) = mg_resp m"
  "mg_threads (snd (mgr_send k msg m)) = mg_threads m"
proof -
  have "snd (mgr_send k msg m) = m \<or> (\<exists>ch. snd (mgr_send k msg m) = snd (send_on ch msg m))"
    by (auto simp: mgr_send_def split: option.split prod.split send_outcome.split) (metis snd_conv)+
  then show "mg_objs (snd (mgr_send k msg m)) = mg_objs m" "mg_resp (snd (mgr_send k msg m)) = mg_resp m"
    "mg_threads (snd (mgr_send k msg m)) = mg_threads m" by auto
qed

lemma pending_inv:
  assumes "mgr_inv m" and "pend_ok (set_pending a f m)"
  shows "mgr_inv (set_pending a f m)"
proof -
  have "live (mg_agents m) (set_pending a f m)"
    using assms(1) by - (rule live_cong[of _ m], simp_all add: mgr_inv_def)
  with assms show ?thesis by (simp add: mgr_inv_def)
qed

lemma heartbeat_pend: "pend (snd (update_heartbeat k st job m)) b = pend m b"
proof -
  have "pend (m\<lparr>mg_objs := (mg_objs m)[a := (mg_objs m ! a)\<lparr>ca_status := st, ca_current_job := job\<rparr>]\<rparr>) b = pend m b" for a
    by (cases "a < length (mg_objs m)"; cases "a = b") (simp_all add: list_update_beyond)
  then show ?thesis by (simp add: update_heartbeat_def Let_def split: option.split)
qed

lemma heartbeat_frame:
  "length (mg_objs (snd (update_heartbeat k st job m))) = length (mg_objs m)"
  "mg_resp (snd (update_heartbeat k st job m)) = mg_resp m"
  "mg_threads (snd (update_heartbeat k st job m)) = mg_threads m"
  by (simp_all add: update_heartbeat_def Let_def split: option.split)

lemma heartbeat_inv:
  assumes "mgr_inv m"
  shows "mgr_inv (snd (update_heartbeat k st job m)) \<and> mg_panic (snd (update_heartbeat k st job m)) = mg_panic m
    \<and> mg_threads (snd (update_heartbeat k st job m)) = mg_threads m
    \<and> mg_resp (snd (update_heartbeat k st job m)) = mg_resp m"
proof (cases "map_of (mg_agents m) k")
  case None
  then show ?thesis using assms by (simp add: update_heartbeat_def)
next
  case (Some a)
  let ?m = "snd (update_heartbeat k st job m)"
  have a: "a < length (mg_objs m)" using agent_found(2)[OF assms Some] .
  have p: "pend ?m b = pend m b" and c: "chan_of ?m b = chan_of m b" for b
    using a Some by (auto simp: update_heartbeat_def Let_def nth_list_update)
  have s: "length (mg_objs ?m) = length (mg_objs m)" "mg_send ?m = mg_send m" "mg_resp ?m = mg_resp m"
    "mg_agents ?m = mg_agents m" "mg_panic ?m = mg_panic m" "mg_threads ?m = mg_threads m"
    using Some by (simp_all add: update_heartbeat_def Let_def)
  have "live (mg_agents m) ?m"
    using assms s c by - (rule live_cong[of _ m], simp_all add: mgr_inv_def)
  moreover have "pend_ok ?m"
    using assms s p by - (rule pend_ok_mono[of m], simp_all add: mgr_inv_def)
  ultimately show ?thesis using assms s by (simp add: mgr_inv_def)
qed

lemma send_command_inv:
  assumes "mgr_inv m" and "send_command k uuid cmd m = (t, m1)"
  shows "mgr_inv m1 \<and> mg_panic m1 = mg_panic m \<and> mg_threads m1 = mg_threads m"
proof -
  let ?n = "length (mg_resp m)"
  let ?m0 = "m\<lparr>mg_resp := mg_resp m @ [make_chan 1]\<rparr>"
  let ?cmd = "if sc_command_id cmd = '''' then cmd\<lparr>sc_command_id := uuid\<rparr> else cmd"
  let ?cid = "sc_command_id ?cmd"
  have "live (mg_agents m) ?m0"
    using assms(1) by - (rule live_cong[of _ m], simp_all add: mgr_inv_def)
  moreover have "pend_ok ?m0"
    using assms(1) by - (rule pend_ok_mono[of m], simp_all add: mgr_inv_def nth_append)
  ultimately have 0: "mgr_inv ?m0" using assms(1) by (simp add: mgr_inv_def)
  show ?thesis
  proof (cases "map_of (mg_agents m) k")
    case None
    then show ?thesis using 0 assms(2) by (auto simp: send_command_def Let_def)
  next
    case (Some a)
    let ?m1 = "set_pending a (put ?cid ?n) ?m0"
    have "pend_ok ?m1"
      using assms(1) agent_found(2)[OF assms(1) Some] by - (rule pend_ok_set_put, simp_all add: mgr_inv_def)
    then have 1: "mgr_inv ?m1" using pending_inv[OF 0] by simp
    obtain out m2 where 2: "send_on (chan_of m a) (Command ?cmd) ?m1 = (out, m2)" by fastforce
    have m2: "mgr_inv m2" "mg_panic m2 = mg_panic m" "mg_threads m2 = mg_threads m"
      using send_on_inv[OF 1, of "chan_of m a" "Command ?cmd"] 2 agent_found(3)[OF assms(1) Some]
        send_on_simps(4,7)[of "chan_of m a" "Command ?cmd" ?m1] by simp_all
    have 3: "mgr_inv (set_pending a (del ?cid) m2)"
      using m2(1) by (intro pending_inv pend_ok_set_del) (simp_all add: mgr_inv_def)
    show ?thesis using assms(2) Some 2 m2 3
      by (cases out) (auto simp: send_command_def Let_def)
  qed
qed

lemma await_inv:
  assumes "mgr_inv m" and "await_result a cid ch timeout m = Some (t, m1)"
  shows "mgr_inv m1 \<and> mg_panic m1 = mg_panic m \<and> mg_threads m1 = mg_threads m"
proof -
  have d: "mgr_inv (set_pending a (del cid) m2)" if "mgr_inv m2" for m2
    using that by (intro pending_inv pend_ok_set_del) (simp_all add: mgr_inv_def)
  obtain x c where r: "recv (mg_resp m ! ch) = (x, c)" by fastforce
  have c: "ch_closed c = ch_closed (mg_resp m ! ch)" using recv_closed[of "mg_resp m ! ch"] r by simp
  have 1: "mgr_inv (m\<lparr>mg_resp := (mg_resp m)[ch := c]\<rparr>)"
    by (rule mgr_inv_cong[OF assms(1)]; cases "ch < length (mg_resp m)")
      (simp_all add: nth_list_update c list_update_beyond)
  show ?thesis using assms(2) r d[OF 1] d[OF assms(1)]
    by (auto simp: await_result_def Let_def split: if_splits recv_outcome.splits)
qed

text \<open>A response channel that was closed while \<open>HandleCommandResult\<close> held it.\<close>

definition late_result :: "manager \<Rightarrow> bool" where
  "late_result m \<longleftrightarrow> (\<exists>i < length (mg_threads m). \<exists>ch r.
     mg_threads m ! i = Routed ch r \<and> ch_closed (mg_resp m ! ch))"

lemma threads_inv [simp]:
  "mgr_inv (spawn t m) = mgr_inv m" "mgr_inv (become i t m) = mgr_inv m"
  "mg_panic (spawn t m) = mg_panic m" "mg_panic (become i t m) = mg_panic m"
  by (simp_all add: mgr_inv_def spawn_def become_def live_def pend_ok_def)

lemma mgr_step_inv:
  assumes "mgr_inv m" and "mgr_step m m'"
  shows "mgr_inv m' \<and> (mg_panic m' \<longrightarrow> mg_panic m \<or> late_result m)"
  using assms(2)
proof cases
  case (connect ch m1 agentID)
  then show ?thesis using connect_inv[OF assms(1)] by simp
next
  case (stream ch)
  have "mgr_inv (stream_recv ch m)"
    by (rule mgr_inv_cong[OF assms(1)]; cases "ch < length (mg_send m)")
      (simp_all add: stream_recv_def nth_list_update list_update_beyond)
  then show ?thesis using stream by (simp add: stream_recv_def)
next
  case (call agentID uuid cmd t m1)
  then show ?thesis using send_command_inv[OF assms(1)] by simp
next
  case (wake i a cid ch timeout t m1)
  then show ?thesis using await_inv[OF assms(1) wake(4)] by simp
next
  case (deliver i ch r)
  have "mgr_inv (route_send ch r m)"
    by (rule mgr_inv_cong[OF assms(1)]; cases "ch < length (mg_resp m)")
      (simp_all add: route_send_def nth_list_update list_update_beyond case_prod_beta)
  moreover have "mg_panic (route_send ch r m) \<longrightarrow> mg_panic m \<or> ch_closed (mg_resp m ! ch)"
    using try_send_simps(3)[of r "mg_resp m ! ch"] by (auto simp: route_send_def case_prod_beta)
  ultimately show ?thesis using deliver by (auto simp: late_result_def)
qed (use assms(1) unregister_inv mgr_close_inv mgr_send_inv heartbeat_inv in simp_all)

lemma mgr_inv_reach: "mgr_reach m \<Longrightarrow> mgr_inv m"
proof (induction rule: mgr_reach.induct)
  case start
  then show ?case by (simp add: mgr_inv_def mgr_new_def keys_ok_def live_def pend_ok_def)
next
  case (step m m')
  then show ?case using mgr_step_inv by blast
qed

section \<open>The registry as a mailbox\<close>

definition send_queue :: "string \<Rightarrow> manager \<Rightarrow> server_message list" where
  "send_queue k m = (case map_of (mg_agents m) k of None \<Rightarrow> [] | Some a \<Rightarrow> ch_buf (mg_send m ! chan_of m a))"

lemma mgr_send_agents [simp]: "mg_agents (snd (mgr_send k msg m)) = mg_agents m"
  by (auto simp: mgr_send_def send_on_def split: option.split prod.split send_outcome.split)

lemma live_chans_ne:
  assumes "live ags m" and "(i, a) \<in> set ags" and "(j, b) \<in> set ags" and "i \<noteq> j"
  shows "chan_of m a \<noteq> chan_of m b"
proof -
  from assms(1) have d: "distinct (map snd ags)" and inj: "inj_on (chan_of m) (snd ` set ags)" by (auto simp: live_def)
  have "inj_on snd (set ags)" using d by (simp add: distinct_map)
  then have "a \<noteq> b" using inj_onD[OF _ _ assms(2,3)] assms(4) by fastforce
  moreover have "a \<in> snd ` set ags" "b \<in> snd ` set ags" using assms(2,3) by force+
  ultimately show ?thesis using inj by (meson inj_onD)
qed

lemma send_on_queue:
  "c < length (mg_send m) \<Longrightarrow> mg_send (snd (send_on c msg m)) ! d = (if d = c then snd (try_send msg (mg_send m ! c)) else mg_send m ! d)"
  by (simp add: send_on_def split: prod.split)

lemma mgr_send_queue:
  assumes "mgr_inv m" and "map_of (mg_agents m) k = Some a"
  shows "j \<noteq> k \<Longrightarrow> send_queue j (snd (mgr_send k msg m)) = send_queue j m"
    and "send_queue k (snd (mgr_send k msg m)) = send_queue k m @ (if fst (mgr_send k msg m) = Inr () then [msg] else [])"
proof -
  have e: "snd (mgr_send k msg m) = snd (send_on (chan_of m a) msg m)"
    using assms(2) by (simp add: mgr_send_def split: prod.split send_outcome.split)
  have lv: "live (mg_agents m) m" using assms(1) by (simp add: mgr_inv_def)
  have c: "chan_of m a < length (mg_send m)" using lv map_of_inD[OF assms(2)] by (force simp: live_def)
  { assume "j \<noteq> k"
    then show "send_queue j (snd (mgr_send k msg m)) = send_queue j m"
      using live_chans_ne[OF lv map_of_inD map_of_inD[OF assms(2)], of j]
      by (auto simp: send_queue_def e send_on_queue[OF c] split: option.split) }
  show "send_queue k (snd (mgr_send k msg m)) = send_queue k m @ (if fst (mgr_send k msg m) = Inr () then [msg] else [])"
    using assms(2) by (auto simp: send_queue_def mgr_send_def send_on_def try_send_def c split: prod.split)
qed

interpretation registry: mailbox mgr_inv is_online send_queue mgr_send
proof
  show "mgr_inv m \<Longrightarrow> mgr_inv (snd (mgr_send i x m))" for m i x using mgr_send_inv by blast
  show "is_online j (snd (mgr_send i x m)) = is_online j m" for j i x m by (simp add: is_online_def)
  show off: "\<not> is_online i m \<Longrightarrow> snd (mgr_send i x m) = m" for i m x by (simp add: is_online_def mgr_send_def)
  show "mgr_inv m \<Longrightarrow> j \<noteq> i \<Longrightarrow> send_queue j (snd (mgr_send i x m)) = send_queue j m" for m j i x
    using mgr_send_queue(1)[of m i] off[of i m x] by (cases "map_of (mg_agents m) i") (auto simp: is_online_def)
  show "mgr_inv m \<Longrightarrow> mgr_send i x m = (Inr (), m') \<Longrightarrow> send_queue i m' = send_queue i m @ [x]" for m i x m'
    using mgr_send_queue(2)[of m i _ x] by (cases "map_of (mg_agents m) i") (auto simp: mgr_send_def[of _ _ m])
  show "mgr_inv m \<Longrightarrow> mgr_send i x m = (Inl er, m') \<Longrightarrow> send_queue i m' = send_queue i m" for m i x er m'
    using mgr_send_queue(2)[of m i _ x] by (cases "map_of (mg_agents m) i") (auto simp: mgr_send_def[of _ _ m])
qed

section \<open>Routing results\<close>

text \<open>\<open>own\<close> says for which command each response channel was made.\<close>

fun thread_ok :: "(nat \<Rightarrow> string) \<Rightarrow> nat \<Rightarrow> nat \<Rightarrow> mgr_thread \<Rightarrow> bool" where
  "thread_ok own k n (Waiting a cid ch) \<longleftrightarrow> ch < n \<and> own ch = cid"
| "thread_ok own k n (Returned cid res) \<longleftrightarrow> (case res of Inl _ \<Rightarrow> True | Inr r \<Rightarrow> cr_command_id r = cid)"
| "thread_ok own k n (Routing a r) \<longleftrightarrow> a < k"
| "thread_ok own k n (Routed ch r) \<longleftrightarrow> ch < n \<and> own ch = cr_command_id r"
| "thread_ok own k n _ \<longleftrightarrow> True"

definition pend_own :: "(nat \<Rightarrow> string) \<Rightarrow> manager \<Rightarrow> bool" where
  "pend_own own m \<longleftrightarrow> (\<forall>a < length (mg_objs m). \<forall>p \<in> set (pend m a). own (snd p) = fst p)"

definition buf_own :: "(nat \<Rightarrow> string) \<Rightarrow> manager \<Rightarrow> bool" where
  "buf_own own m \<longleftrightarrow> (\<forall>ch < length (mg_resp m). \<forall>r \<in> set (ch_buf (mg_resp m ! ch)). cr_command_id r = own ch)"

definition routing :: "(nat \<Rightarrow> string) \<Rightarrow> manager \<Rightarrow> bool" where
  "routing own m \<longleftrightarrow> pend_own own m \<and> buf_own own m
    \<and> (\<forall>t \<in> set (mg_threads m). thread_ok own (length (mg_objs m)) (length (mg_resp m)) t)"

lemma routing_frame:
  assumes "routing own m" and "mg_threads m' = mg_threads m" and "length (mg_resp m') = length (mg_resp m)"
    and len: "length (mg_objs m) \<le> length (mg_objs m')"
    and pend: "\<And>a. a < length (mg_objs m') \<Longrightarrow> pend m' a = [] \<or> a < length (mg_objs m) \<and> set (pend m' a) \<subseteq> set (pend m a)"
    and buf: "\<And>ch. ch < length (mg_resp m) \<Longrightarrow> set (ch_buf (mg_resp m' ! ch)) \<subseteq> set (ch_buf (mg_resp m ! ch))"
  shows "routing own m'"
proof -
  have "own (snd p) = fst p" if "a < length (mg_objs m')" "p \<in> set (pend m' a)" for a p
    using assms(1) pend[OF that(1)] that(2) by (auto simp: routing_def pend_own_def)
  moreover have "cr_command_id r = own ch" if "ch < length (mg_resp m)" "r \<in> set (ch_buf (mg_resp m' ! ch))" for ch r
    using assms(1) buf[OF that(1)] that by (auto simp: routing_def buf_own_def)
  moreover have "thread_ok own (length (mg_objs m')) (length (mg_resp m)) t" if "t \<in> set (mg_threads m)" for t
    using assms(1) that len by (cases t) (fastforce simp: routing_def)+
  ultimately show ?thesis using assms(1-3) by (simp add: routing_def pend_own_def buf_own_def)
qed

lemma drop_agent_frame:
  "pend (drop_agent a m) b = [] \<or> pend (drop_agent a m) b = pend m b"
proof (cases "a < length (mg_objs m)")
  case True
  then show ?thesis by (simp add: drop_agent_pend)
next
  case False
  then show ?thesis by (simp add: drop_agent_def Let_def close_chan_def list_update_beyond)
qed

lemma drop_agents_frame:
  "length (mg_objs (fold (\<lambda>(_, a). drop_agent a) ags m)) = length (mg_objs m)
    \<and> length (mg_resp (fold (\<lambda>(_, a). drop_agent a) ags m)) = length (mg_resp m)
    \<and> mg_threads (fold (\<lambda>(_, a). drop_agent a) ags m) = mg_threads m
    \<and> (pend (fold (\<lambda>(_, a). drop_agent a) ags m) b = [] \<or> pend (fold (\<lambda>(_, a). drop_agent a) ags m) b = pend m b)
    \<and> ch_buf (mg_resp (fold (\<lambda>(_, a). drop_agent a) ags m) ! c) = ch_buf (mg_resp m ! c)"
proof (induction ags arbitrary: m)
  case (Cons p ags)
  obtain k a where p: "p = (k, a)" by fastforce
  show ?case using Cons.IH[of "drop_agent a m"] drop_agent_frame[of a m b] by (auto simp: p)
qed simp

lemma routing_spawn: "routing own m \<Longrightarrow> thread_ok own (length (mg_objs m)) (length (mg_resp m)) t \<Longrightarrow> routing own (spawn t m)"
  by (auto simp: routing_def pend_own_def buf_own_def spawn_def)

lemma routing_become: "routing own m \<Longrightarrow> thread_ok own (length (mg_objs m)) (length (mg_resp m)) t \<Longrightarrow> routing own (become i t m)"
  by (auto simp: routing_def pend_own_def buf_own_def become_def dest!: set_update_subset_insert[THEN subsetD])

lemma routing_await:
  assumes "routing own m" and "thread_ok own (length (mg_objs m)) (length (mg_resp m)) (Waiting a cid ch)"
    and "await_result a cid ch timeout m = Some (t, m1)"
  shows "routing own m1 \<and> thread_ok own (length (mg_objs m1)) (length (mg_resp m1)) t"
proof -
  have d: "routing own (set_pending a (del cid) m2)" if "routing own m2" for m2
    using that by (rule routing_frame; cases "a < length (mg_objs m2)") (auto simp: set_del set_pending_beyond)
  obtain x c where r: "recv (mg_resp m ! ch) = (x, c)" by fastforce
  have c: "set (ch_buf c) \<subseteq> set (ch_buf (mg_resp m ! ch))"
    using r by (auto simp: recv_def split: list.splits)
  have 1: "routing own (m\<lparr>mg_resp := (mg_resp m)[ch := c]\<rparr>)"
    using assms(1) by (rule routing_frame; cases "ch < length (mg_resp m)")
      (use c in \<open>auto simp: nth_list_update list_update_beyond split: if_splits\<close>)
  have x: "cr_command_id res = cid" if "x = Received res" for res
    using assms(1,2) r that by (auto simp: recv_def routing_def buf_own_def split: list.splits if_splits)
  show ?thesis using assms(3) r d[OF 1] d[OF assms(1)] x
    by (auto simp: await_result_def Let_def split: if_splits recv_outcome.splits)
qed

lemma routing_call:
  assumes "routing own m" and "mgr_inv m" and "send_command k uuid cmd m = (t, m1)"
  shows "\<exists>own'. routing own' m1 \<and> thread_ok own' (length (mg_objs m1)) (length (mg_resp m1)) t"
proof -
  let ?n = "length (mg_resp m)"
  let ?m0 = "m\<lparr>mg_resp := mg_resp m @ [make_chan 1]\<rparr>"
  define cmd1 where "cmd1 = (if sc_command_id cmd = '''' then cmd\<lparr>sc_command_id := uuid\<rparr> else cmd)"
  define cid where "cid = sc_command_id cmd1"
  define own' where "own' = own(?n := cid)"
  have pn: "own' (snd p) = fst p" if "a < length (mg_objs m)" "p \<in> set (pend m a)" for a p
    using assms(1,2) that pend_okD(2)[of m a "fst p" "snd p"]
    by (auto simp: own'_def routing_def pend_own_def mgr_inv_def)
  have tk: "thread_ok own' (length (mg_objs m)) (Suc ?n) th" if "th \<in> set (mg_threads m)" for th
    using assms(1) that by (cases th) (fastforce simp: own'_def routing_def)+
  have bf: "cr_command_id r = own' ch" if "ch < Suc ?n" "r \<in> set (ch_buf (mg_resp ?m0 ! ch))" for ch r
    using assms(1) that by (auto simp: own'_def routing_def buf_own_def nth_append less_Suc_eq split: if_splits)
  have 0: "routing own' ?m0" using pn tk bf by (simp add: routing_def pend_own_def buf_own_def)
  show ?thesis
  proof (cases "map_of (mg_agents m) k")
    case None
    then show ?thesis using 0 assms(3) by (auto simp: send_command_def Let_def)
  next
    case (Some a)
    note a = agent_found(2)[OF assms(2) Some]
    let ?m1 = "set_pending a (put cid ?n) ?m0"
    have "pend_own own' ?m1" using 0 a by (auto simp: routing_def pend_own_def set_put own'_def)
    then have 1: "routing own' ?m1" using 0 by (simp add: routing_def buf_own_def)
    obtain out m2 where 2: "send_on (chan_of m a) (Command cmd1) ?m1 = (out, m2)" by fastforce
    have "routing own' (snd (send_on (chan_of m a) (Command cmd1) ?m1))"
      using a by (intro routing_frame[OF 1]) simp_all
    then have m2: "routing own' m2" using 2 by simp
    have r2: "mg_resp m2 = mg_resp ?m0"
      using arg_cong[OF 2, of "\<lambda>x. mg_resp (snd x)"] by simp
    have 3: "routing own' (set_pending a (del cid) m2)"
      using m2 by (rule routing_frame; cases "a < length (mg_objs m2)") (auto simp: set_del set_pending_beyond)
    have "thread_ok own' (length (mg_objs m2)) (length (mg_resp m2)) (Waiting a cid ?n)" using r2 by (simp add: own'_def)
    then show ?thesis using assms(3) Some 2 m2 3
      by (cases out) (auto simp: send_command_def Let_def cmd1_def cid_def)
  qed
qed

lemma routing_step:
  assumes "routing own m" and "mgr_inv m" and "mgr_step m m'"
  shows "\<exists>own'. routing own' m'"
  using assms(3)
proof cases
  case (connect ch m1 agentID)
  have "routing own m'"
    using connect by (intro routing_frame[OF assms(1)]) (auto simp: register_def open_stream_def nth_append)
  then show ?thesis by blast
next
  case (disconnect agentID)
  have "routing own (unregister agentID m)"
  proof (intro routing_frame[OF assms(1)])
    fix a assume "a < length (mg_objs (unregister agentID m))"
    then show "pend (unregister agentID m) a = []
        \<or> a < length (mg_objs m) \<and> set (pend (unregister agentID m) a) \<subseteq> set (pend m a)"
      using drop_agent_frame[of "the (map_of (mg_agents m) agentID)" m a]
      by (auto simp: unregister_def split: option.splits)
  qed (simp_all add: unregister_def split: option.split)
  then show ?thesis using disconnect by blast
next
  case shutdown
  have "routing own (mgr_close m)"
  proof (intro routing_frame[OF assms(1)])
    fix a assume "a < length (mg_objs (mgr_close m))"
    then show "pend (mgr_close m) a = [] \<or> a < length (mg_objs m) \<and> set (pend (mgr_close m) a) \<subseteq> set (pend m a)"
      using drop_agents_frame[of "mg_agents m" m a] by (auto simp: mgr_close_def split: if_splits)
  qed (use drop_agents_frame[of "mg_agents m" m] in \<open>auto simp: mgr_close_def\<close>)
  then show ?thesis using shutdown by blast
next
  case (push agentID msg)
  have "routing own (snd (mgr_send agentID msg m))"
    by (intro routing_frame[OF assms(1)]) (simp_all add: mgr_send_frame)
  then show ?thesis using push by blast
next
  case (stream ch)
  then show ?thesis using assms(1) by (auto simp: routing_def pend_own_def buf_own_def stream_recv_def)
next
  case (heartbeat agentID status job)
  have "routing own (snd (update_heartbeat agentID status job m))"
    by (intro routing_frame[OF assms(1)]) (use heartbeat_frame heartbeat_pend in simp_all)
  then show ?thesis using heartbeat by blast
next
  case (call agentID uuid cmd t m1)
  then show ?thesis using routing_call[OF assms(1,2) call(2)] routing_spawn by blast
next
  case (wake i a cid ch timeout t m1)
  have "thread_ok own (length (mg_objs m)) (length (mg_resp m)) (Waiting a cid ch)"
    using assms(1) wake(2,3) unfolding routing_def by (metis nth_mem)
  then show ?thesis using routing_await[OF assms(1) _ wake(4)] routing_become wake(1) by blast
next
  case (result agentID r)
  have "thread_ok own (length (mg_objs m)) (length (mg_resp m)) (route_find agentID r m)"
    using agent_found(2)[OF assms(2)] by (simp add: route_find_def split: option.split)
  then show ?thesis using result routing_spawn[OF assms(1)] by blast
next
  case (route i a r)
  have "a < length (mg_objs m)"
    using assms(1) route(2,3) unfolding routing_def by (metis nth_mem thread_ok.simps(3))
  then have "thread_ok own (length (mg_objs m)) (length (mg_resp m)) (route_channel a r m)"
    using assms(1,2) pend_okD(2)[of m a]
    by (fastforce simp: route_channel_def routing_def pend_own_def mgr_inv_def split: option.split
        dest!: map_of_SomeD)
  then show ?thesis using route routing_become[OF assms(1)] by blast
next
  case (deliver i ch r)
  have "thread_ok own (length (mg_objs m)) (length (mg_resp m)) (Routed ch r)"
    using assms(1) deliver(2,3) unfolding routing_def by (metis nth_mem)
  then have "routing own (route_send ch r m)"
    using assms(1) try_send_buf[of r "mg_resp m ! ch"]
    by (auto simp: routing_def pend_own_def buf_own_def route_send_def nth_list_update case_prod_beta split: if_splits)
  then show ?thesis using deliver routing_become[of own "route_send ch r m" Handled i] by auto
qed

lemma routing_reach: "mgr_reach m \<Longrightarrow> \<exists>own. routing own m"
proof (induction rule: mgr_reach.induct)
  case start
  then show ?case by (simp add: routing_def pend_own_def buf_own_def mgr_new_def)
next
  case (step m m')
  then show ?case using routing_step mgr_inv_reach by blast
qed

section \<open>Properties\<close>


definition ping :: server_command where
  "ping = \<lparr>sc_command_id = ''c1'', sc_action = List_snapshots ''r1''\<rparr>"

definition pong :: command_result where
  "pong = \<lparr>cr_command_id = ''c1'', cr_success = True, cr_error = '''', cr_data = No_data\<rparr>"

text \<open>A run: an agent connects, a command is sent, and its result is on the way.\<close>

definition after_connect :: manager where
  "after_connect = register ''a'' (fst (open_stream mgr_new)) (snd (open_stream mgr_new))"

definition after_call :: manager where
  "after_call = (case send_command ''a'' ''u'' ping after_connect of (t, m) \<Rightarrow> spawn t m)"

definition after_routing :: manager where
  "after_routing =
    (let m1 = spawn (route_find ''a'' pong after_call) after_call
     in become 1 (route_channel 0 pong m1) m1)"

lemmas example_run_defs = after_connect_def after_call_def after_routing_def mgr_new_def open_stream_def
  register_def put_def del_def make_chan_def send_command_def ping_def pong_def send_on_def try_send_def
  set_pending_def spawn_def become_def route_find_def route_channel_def Let_def

lemma after_routing_state:
  "mg_threads after_call = [Waiting 0 ''c1'' 0]"
  "mg_threads after_routing = [Waiting 0 ''c1'' 0, Routed 0 pong]"
  "mg_agents after_routing = [(''a'', 0)]" "pend after_routing 0 = [(''c1'', 0)]" "length (mg_objs after_routing) = 1"
  "mg_resp after_routing = [make_chan 1]" "\<not> mg_panic after_routing" "chan_of after_routing 0 = 0"
  "length (mg_send after_routing) = 1" "\<not> ch_closed (mg_send after_routing ! 0)"
  by (simp_all add: example_run_defs)

lemma reach_after_routing: "mgr_reach after_routing"
proof -
  have 1: "mgr_reach after_connect"
    using mgr_reach.step[OF mgr_reach.start mgr_step.connect[of mgr_new 0 _ "''a''"]]
    by (simp add: after_connect_def open_stream_def mgr_new_def)
  obtain t m where "send_command ''a'' ''u'' ping after_connect = (t, m)" by fastforce
  then have 2: "mgr_reach after_call"
    using mgr_reach.step[OF 1 mgr_step.call] by (simp add: after_call_def)
  let ?m1 = "spawn (route_find ''a'' pong after_call) after_call"
  have 3: "mgr_reach ?m1" using mgr_reach.step[OF 2 mgr_step.result] .
  have "mg_agents after_call = [(''a'', 0)]" by (simp add: example_run_defs)
  then have "mg_threads ?m1 ! 1 = Routing 0 pong" and "length (mg_threads ?m1) = 2"
    by (simp_all add: spawn_def route_find_def after_routing_state)
  then show ?thesis
    using mgr_reach.step[OF 3 mgr_step.route[of 1 ?m1 0 pong]] by (simp add: after_routing_def Let_def)
qed


text \<open>
  The registry never sends on or closes a closed channel, with one exception: no
  interleaving of connections, disconnections, shutdown, pushes, commands and results
  panics, unless a result is delivered through a response channel that was closed between
  its lookup and the send (\<open>HandleCommandResult\<close> sends after it has released both locks).
\<close>

theorem registry_never_panics_but_late_result:
  assumes "mgr_reach m" and "mgr_step m m'" and "mg_panic m'"
  shows "mg_panic m \<or> late_result m"
  using mgr_step_inv[OF mgr_inv_reach[OF assms(1)] assms(2)] assms(3) by blast

text \<open>The agent disconnects while the result is between lookup and send.\<close>

definition race :: manager where
  "race = unregister ''a'' after_routing"

lemma race_state: "mg_threads race ! 1 = Routed 0 pong" "length (mg_threads race) = 2"
    "ch_closed (mg_resp race ! 0)" "\<not> mg_panic race" "mgr_reach race"
proof -
  show r: "mgr_reach race" unfolding race_def using mgr_reach.step[OF reach_after_routing mgr_step.disconnect] .
  note inv = mgr_inv_reach[OF reach_after_routing]
  show "mg_threads race ! 1 = Routed 0 pong" "length (mg_threads race) = 2" "\<not> mg_panic race"
    using unregister_inv[OF inv, of "''a''"] by (simp_all add: race_def after_routing_state)
  have "pend_ok after_routing" using inv by (simp add: mgr_inv_def)
  then show "ch_closed (mg_resp race ! 0)"
    by (simp add: race_def unregister_def drop_agent_closed after_routing_state)
qed

theorem registry_never_panics_but_late_result_witness:
  "late_result race"
proof -
  have s: "mgr_step race (become 1 Handled (route_send 0 pong race))"
    using race_state by (intro mgr_step.deliver) simp_all
  have "mg_panic (become 1 Handled (route_send 0 pong race))"
    using race_state(3) by (simp add: route_send_def try_send_def)
  from registry_never_panics_but_late_result[OF race_state(5) s this] race_state(4) show ?thesis by simp
qed

text \<open>
  The exception is real: whenever a response channel was closed while a goroutine held
  it for sending, that goroutine's next step panics the server; such a state is reachable by
  one agent disconnecting while its result is being handled.
\<close>

theorem late_result_panics:
  assumes "i < length (mg_threads m)" and "mg_threads m ! i = Routed ch r" and "ch_closed (mg_resp m ! ch)"
  shows "\<exists>m'. mgr_step m m' \<and> mg_panic m'"
proof -
  have "mg_panic (become i Handled (route_send ch r m))"
    using assms(3) by (simp add: route_send_def try_send_def)
  then show ?thesis using mgr_step.deliver[OF assms(1,2)] by blast
qed

theorem late_result_panics_witness:
  "\<exists>m m'. mgr_reach m \<and> \<not> mg_panic m \<and> mgr_step m m' \<and> mg_panic m'"
  using late_result_panics[of 1 race 0 pong] race_state by auto

text \<open>
  When an agent reconnects before its old stream has ended, the end of the old stream
  unregisters the new connection: the agent is then offline in the registry, the channel of
  the new stream is closed, and that of the old one stays open, so the goroutine that reads
  it never ends.
\<close>

theorem stale_unregister_drops_new_stream:
  assumes "mgr_inv m" and "open_stream m = (ch1, m1)" and "open_stream (register k ch1 m1) = (ch2, m2)"
  shows "\<not> is_online k (unregister k (register k ch2 m2))
    \<and> ch_closed (mg_send (unregister k (register k ch2 m2)) ! ch2)
    \<and> \<not> ch_closed (mg_send (unregister k (register k ch2 m2)) ! ch1)"
proof -
  let ?n = "length (mg_objs m)"
  have e: "ch1 = length (mg_send m)" "ch2 = Suc (length (mg_send m))"
    "mg_send m2 = mg_send m @ [make_chan 32, make_chan 32]"
    using assms(2,3) by (auto simp: open_stream_def register_def)
  let ?r = "register k ch2 m2"
  have r: "map_of (mg_agents ?r) k = Some (Suc ?n)" "chan_of ?r (Suc ?n) = ch2" "mg_send ?r = mg_send m2"
    using assms(2,3) by (auto simp: open_stream_def register_def nth_append)
  then have c: "chan_of ?r (Suc ?n) < length (mg_send ?r)" using e by simp
  have "ch_closed (mg_send (drop_agent (Suc ?n) ?r) ! x) \<longleftrightarrow> ch_closed (mg_send m2 ! x) \<or> x = ch2" for x
    using drop_agent_send_closed[OF c, of x] r by simp
  then show ?thesis using r e by (simp add: unregister_def is_online_def nth_append)
qed

theorem stale_unregister_drops_new_stream_witness:
  "\<not> is_online ''a'' (unregister ''a'' (register ''a'' 1 (snd (open_stream after_connect))))"
proof -
  have "mgr_inv mgr_new" using mgr_inv_reach mgr_reach.start by blast
  from stale_unregister_drops_new_stream[OF this, of 0 _ "''a''" 1] show ?thesis
    by (simp add: open_stream_def after_connect_def mgr_new_def register_def)
qed

end
