(* ===== verification/ServerDB.thy ===== *)
theory ServerDB
  imports Messages
begin

text \<open>
  The tables of the server's database (the schema in server/internal/database/migrations.go)
  and how statements act on them. A job row carries its repository and hook result rows;
  statements fail as the environment says or when they violate the schema's constraints,
  and a transaction takes effect as a whole or not at all. Whether foreign keys are enforced
  is a parameter, because the pragma that turns them on is set on one connection of the pool.
\<close>

section \<open>Rows\<close>

record db_log =
  dl_timestamp :: string
  dl_level :: string
  dl_source :: string
  dl_message :: string
  dl_attributes :: "(string \<times> string) list"

text \<open>The JSON of log entries: the decoder of attributes, and the two directions of a tail.\<close>

record log_codec =
  lc_attrs :: "string \<Rightarrow> (string \<times> string) list"
  lc_marshal :: "db_log list \<Rightarrow> string"
  lc_unmarshal :: "string \<Rightarrow> db_log list option"

record repo_row =
  rw_repository_id :: string
  rw_repository_name :: string
  rw_status :: string
  rw_snapshot_id :: "string option"
  rw_error :: "string option"
  rw_files_new :: "int option"
  rw_files_changed :: "int option"
  rw_files_unmodified :: "int option"
  rw_bytes_added :: "int option"
  rw_total_bytes :: "int option"
  rw_duration_ms :: "int option"

record hook_row =
  hw_hook_name :: string
  hw_phase :: string
  hw_status :: string
  hw_error :: "string option"
  hw_duration_ms :: "int option"

record job =
  jb_id :: string
  jb_agent_id :: string
  jb_plan_id :: "string option"
  jb_plan_name :: string
  jb_type :: string
  jb_trigger :: string
  jb_status :: string
  jb_started_at :: int
  jb_finished_at :: "int option"
  jb_log_tail :: "string option"
  jb_created_at :: int
  jb_repo_results :: "repo_row list"
  jb_hook_results :: "hook_row list"

record agent_row =
  ag_id :: string
  ag_name :: string
  ag_hostname :: string
  ag_os :: "string option"
  ag_status :: string
  ag_api_key :: "string option"
  ag_agent_version :: "string option"
  ag_restic_version :: "string option"
  ag_rclone_version :: "string option"
  ag_rclone_config :: "string option"
  ag_last_heartbeat :: "int option"
  ag_last_job_at :: "int option"
  ag_config_version :: int
  ag_config_applied_at :: "int option"
  ag_command_timeouts :: "string option"
  ag_outbox_overrides :: "string option"
  ag_created_at :: int
  ag_updated_at :: int

record repository_row =
  ry_id :: string
  ry_name :: string
  ry_scope :: string
  ry_agent_id :: "string option"
  ry_type :: string
  ry_path :: string
  ry_password :: string
  ry_created_at :: int
  ry_updated_at :: int

text \<open>
  A plan row holds its lists and its retention decoded, because they are only written and read
  through encoding/json, and the rows of backup_plan_repositories that belong to it.
\<close>

record plan_row =
  pr_id :: string
  pr_name :: string
  pr_agent_id :: string
  pr_schedule :: string
  pr_paths :: "string list"
  pr_excludes :: "string list"
  pr_tags :: "string list"
  pr_repository_ids :: "string list"
  pr_created_at :: int
  pr_updated_at :: int
  pr_prune_schedule :: "string option"
  pr_retention :: "retention_policy option"
  pr_forget_after_backup :: bool
  pr_prune_after_forget :: bool
  pr_enabled :: bool

record plan_hook =
  ph_id :: string
  ph_plan_id :: string
  ph_on_event :: string
  ph_sort_order :: int
  ph_script_id :: "string option"
  ph_type :: "string option"
  ph_command :: "string option"
  ph_timeout :: "int option"
  ph_on_error :: "string option"
  ph_created_at :: int
  ph_updated_at :: int

record script_row =
  sx_id :: string
  sx_name :: string
  sx_type :: string
  sx_command :: string
  sx_timeout :: int
  sx_on_error :: string
  sx_created_at :: int
  sx_updated_at :: int

record store =
  st_tick :: nat
  st_agents :: "agent_row list"
  st_plans :: "plan_row list"
  st_repos :: "repository_row list"
  st_jobs :: "job list"
  st_hooks :: "plan_hook list"
  st_scripts :: "script_row list"
  st_settings :: "(string \<times> string) list"

abbreviation agent_ids :: "store \<Rightarrow> string list" where
  "agent_ids s \<equiv> map ag_id (st_agents s)"

abbreviation plan_ids :: "store \<Rightarrow> string list" where
  "plan_ids s \<equiv> map pr_id (st_plans s)"

abbreviation repo_ids :: "store \<Rightarrow> string list" where
  "repo_ids s \<equiv> map ry_id (st_repos s)"

abbreviation script_ids :: "store \<Rightarrow> string list" where
  "script_ids s \<equiv> map sx_id (st_scripts s)"

abbreviation hook_ids :: "store \<Rightarrow> string list" where
  "hook_ids s \<equiv> map ph_id (st_hooks s)"

text \<open>
  What the server's clock says and which ids the uuid package makes, by tick. When deleting an
  agent cascades to its plans and its repositories, SQL leaves open which go first.
\<close>

record server_env =
  se_sql :: env
  se_now :: "nat \<Rightarrow> int"
  se_uuid :: "nat \<Rightarrow> string"
  se_foreign_keys :: bool
  se_plans_first :: bool

section \<open>Statements and transactions\<close>

text \<open>
  A transaction: \<open>begin\<close>, the statements in order, each with the text its error is wrapped
  in (the error of \<open>commit\<close> is returned as it is) and whether the constraints admit it, and
  \<open>commit\<close>. The first failure rolls back.
\<close>

definition wrap_text :: "string \<Rightarrow> go_error \<Rightarrow> go_error" where
  "wrap_text what er = (if what = '''' then er else Wrap what er)"

fun run_stmts :: "env \<Rightarrow> ctx \<Rightarrow> (string \<times> bool) list \<Rightarrow> nat \<Rightarrow> go_error option \<times> nat" where
  "run_stmts e c [] t = (None, t)"
| "run_stmts e c ((what, ok) # stmts) t =
    (case sql_outcome e c t of
       Some er \<Rightarrow> (Some (wrap_text what er), Suc t)
     | None \<Rightarrow>
       (if ok then run_stmts e c stmts (Suc t)
        else (Some (wrap_text what (Msg ''constraint failed'')), Suc t)))"

definition transaction ::
  "env \<Rightarrow> ctx \<Rightarrow> (string \<times> bool) list \<Rightarrow> (store \<Rightarrow> store) \<Rightarrow> store \<Rightarrow> unit result \<times> store" where
  "transaction e c stmts effect s =
    (case run_stmts e c (((''begin transaction'', True) # stmts) @ [('''', True)]) (st_tick s) of
       (Some er, t) \<Rightarrow> (Inl er, s\<lparr>st_tick := t\<rparr>)
     | (None, t) \<Rightarrow> (Inr (), (effect s)\<lparr>st_tick := t\<rparr>))"

lemma run_stmts_None:
  "run_stmts e c stmts t = (None, t') \<Longrightarrow> (\<forall>p \<in> set stmts. snd p) \<and> t' = t + length stmts"
proof (induction stmts arbitrary: t)
  case (Cons p stmts)
  then show ?case using Cons.IH[of "Suc t"] by (cases p) (auto split: option.splits if_splits)
qed simp

lemma run_stmts_ok:
  "fault_free e \<Longrightarrow> list_all snd stmts \<Longrightarrow> run_stmts e background stmts t = (None, t + length stmts)"
  by (induction stmts arbitrary: t) (auto split: prod.split)

lemma run_stmts_bad:
  assumes "list_ex (\<lambda>p. \<not> snd p) stmts"
  shows "fst (run_stmts e c stmts t) \<noteq> None"
proof
  assume "fst (run_stmts e c stmts t) = None"
  then have "\<forall>p \<in> set stmts. snd p" using run_stmts_None by (metis prod.collapse)
  with assms show False by (auto simp: list_ex_iff)
qed

text \<open>A statement of its own, outside a transaction.\<close>

definition statement ::
  "server_env \<Rightarrow> ctx \<Rightarrow> string \<Rightarrow> bool \<Rightarrow> (store \<Rightarrow> store) \<Rightarrow> store \<Rightarrow> unit result \<times> store" where
  "statement v c what ok effect s =
    (case run_stmts (se_sql v) c [(what, ok)] (st_tick s) of
       (Some er, t) \<Rightarrow> (Inl er, s\<lparr>st_tick := t\<rparr>)
     | (None, t) \<Rightarrow> (Inr (), (effect s)\<lparr>st_tick := t\<rparr>))"

text \<open>
  An update or delete by id: the statement, and an error of the code's own when no row had
  the id.
\<close>

definition exec_rows ::
  "server_env \<Rightarrow> ctx \<Rightarrow> string \<Rightarrow> bool \<Rightarrow> string \<Rightarrow> bool \<Rightarrow> (store \<Rightarrow> store) \<Rightarrow> store \<Rightarrow> unit result \<times> store" where
  "exec_rows v c what ok missing hit effect s =
    (case statement v c what ok effect s of
       (Inl er, s1) \<Rightarrow> (Inl er, s1)
     | (Inr _, s1) \<Rightarrow> (if hit then (Inr (), s1) else (Inl (Msg missing), s1)))"

text \<open>A query: its error, or its value.\<close>

definition query :: "server_env \<Rightarrow> ctx \<Rightarrow> string \<Rightarrow> 'a \<Rightarrow> store \<Rightarrow> 'a result \<times> store" where
  "query v c what x s =
    ((case sql_outcome (se_sql v) c (st_tick s) of Some er \<Rightarrow> Inl (Wrap what er) | None \<Rightarrow> Inr x),
     s\<lparr>st_tick := Suc (st_tick s)\<rparr>)"

section \<open>Lemmas\<close>

lemma transaction_cases:
  "transaction e c stmts effect s = (res, s') \<Longrightarrow>
    (\<exists>er t. res = Inl er \<and> s' = s\<lparr>st_tick := t\<rparr>)
    \<or> (\<exists>t. res = Inr () \<and> s' = (effect s)\<lparr>st_tick := t\<rparr> \<and> list_all snd stmts)"
  by (auto simp: transaction_def list_all_iff split: prod.splits option.splits dest!: run_stmts_None)

lemma transaction_ok:
  "fault_free e \<Longrightarrow> list_all snd stmts \<Longrightarrow>
    transaction e background stmts effect s = (Inr (), (effect s)\<lparr>st_tick := st_tick s + length stmts + 2\<rparr>)"
  using run_stmts_ok[of e "((''begin transaction'', True) # stmts) @ [('''', True)]" "st_tick s"]
  by (simp add: transaction_def)

lemma transaction_bad:
  "list_ex (\<lambda>p. \<not> snd p) stmts \<Longrightarrow> fst (transaction e c stmts effect s) \<noteq> Inr ()"
  using run_stmts_bad[of "((''begin transaction'', True) # stmts) @ [('''', True)]" e c "st_tick s"]
  by (auto simp: transaction_def split: prod.splits option.splits)

lemma statement_cases:
  "statement v c what ok effect s = (res, s') \<Longrightarrow>
    (\<exists>er t. res = Inl er \<and> s' = s\<lparr>st_tick := t\<rparr>)
    \<or> (\<exists>t. res = Inr () \<and> s' = (effect s)\<lparr>st_tick := t\<rparr> \<and> ok)"
  by (auto simp: statement_def split: prod.splits option.splits if_splits)

lemma statement_ok:
  "fault_free (se_sql v) \<Longrightarrow> statement v background what True effect s
    = (Inr (), (effect s)\<lparr>st_tick := Suc (st_tick s)\<rparr>)"
  by (simp add: statement_def)

lemma exec_rows_cases:
  "exec_rows v c what ok missing hit effect s = (res, s') \<Longrightarrow>
    (\<exists>er t. res = Inl er \<and> s' = s\<lparr>st_tick := t\<rparr>)
    \<or> (\<exists>er t. res = Inl er \<and> \<not> hit \<and> s' = (effect s)\<lparr>st_tick := t\<rparr> \<and> ok)
    \<or> (\<exists>t. res = Inr () \<and> hit \<and> s' = (effect s)\<lparr>st_tick := t\<rparr> \<and> ok)"
  by (auto simp: exec_rows_def statement_def split: prod.splits option.splits if_splits)

lemma query_cases:
  "query v c what x s = (res, s') \<Longrightarrow> s' = s\<lparr>st_tick := Suc (st_tick s)\<rparr> \<and> (\<forall>y. res = Inr y \<longrightarrow> y = x)"
  by (auto simp: query_def split: option.splits)

lemma query_ok:
  "fault_free (se_sql v) \<Longrightarrow> query v background what x s = (Inr x, s\<lparr>st_tick := Suc (st_tick s)\<rparr>)"
  by (simp add: query_def)

end
