(* ===== verification/JobStore.thy ===== *)
theory JobStore
  imports ServerDB
begin

text \<open>
  The job table of the server (server/internal/database/jobs.go).
\<close>

section \<open>Operations\<close>

definition job_ids :: "store \<Rightarrow> string list" where
  "job_ids s = map jb_id (st_jobs s)"

definition job_fks :: "server_env \<Rightarrow> job \<Rightarrow> store \<Rightarrow> bool" where
  "job_fks v j s \<longleftrightarrow> (se_foreign_keys v \<longrightarrow> jb_agent_id j \<in> set (agent_ids s)
     \<and> (case jb_plan_id j of None \<Rightarrow> True | Some p \<Rightarrow> p \<in> set (plan_ids s)))"

definition repo_stmts :: "server_env \<Rightarrow> bool \<Rightarrow> repo_row list \<Rightarrow> store \<Rightarrow> (string \<times> bool) list" where
  "repo_stmts v job_exists rs s = map (\<lambda>r. (''insert repository result'',
     se_foreign_keys v \<longrightarrow> job_exists \<and> rw_repository_id r \<in> set (repo_ids s))) rs"

definition hook_stmts :: "server_env \<Rightarrow> bool \<Rightarrow> hook_row list \<Rightarrow> (string \<times> bool) list" where
  "hook_stmts v job_exists hs = map (\<lambda>_. (''insert hook result'', se_foreign_keys v \<longrightarrow> job_exists)) hs"

definition create_job :: "server_env \<Rightarrow> ctx \<Rightarrow> job \<Rightarrow> store \<Rightarrow> unit result \<times> store" where
  "create_job v c j0 s =
    (let j = j0\<lparr>jb_id := (if jb_id j0 = '''' then se_uuid v (st_tick s) else jb_id j0),
               jb_created_at := se_now v (st_tick s)\<rparr>
     in transaction (se_sql v) c
          ((''insert job'', jb_id j \<notin> set (job_ids s) \<and> job_fks v j s)
           # repo_stmts v True (jb_repo_results j) s @ hook_stmts v True (jb_hook_results j))
          (\<lambda>s. s\<lparr>st_jobs := st_jobs s @ [j]\<rparr>) s)"

definition complete_row :: "job \<Rightarrow> job \<Rightarrow> job" where
  "complete_row j r = r\<lparr>jb_status := jb_status j, jb_started_at := jb_started_at j,
     jb_finished_at := jb_finished_at j, jb_log_tail := jb_log_tail j,
     jb_repo_results := jb_repo_results r @ jb_repo_results j,
     jb_hook_results := jb_hook_results r @ jb_hook_results j\<rparr>"

definition update_row :: "string \<Rightarrow> (job \<Rightarrow> job) \<Rightarrow> store \<Rightarrow> store" where
  "update_row i f s = s\<lparr>st_jobs := map (\<lambda>r. if jb_id r = i then f r else r) (st_jobs s)\<rparr>"

definition complete_job :: "server_env \<Rightarrow> ctx \<Rightarrow> job \<Rightarrow> store \<Rightarrow> unit result \<times> store" where
  "complete_job v c j s =
    (let ex = jb_id j \<in> set (job_ids s)
     in transaction (se_sql v) c
          ((''update job'', True)
           # repo_stmts v ex (jb_repo_results j) s @ hook_stmts v ex (jb_hook_results j))
          (update_row (jb_id j) (complete_row j)) s)"

definition active :: "string \<Rightarrow> string \<Rightarrow> job \<Rightarrow> bool" where
  "active agentID planID r \<longleftrightarrow> jb_agent_id r = agentID \<and> jb_plan_id r = Some planID
     \<and> (jb_status r = ''planned'' \<or> jb_status r = ''running'')"

text \<open>\<open>ORDER BY created_at DESC LIMIT 1\<close>.\<close>

definition newest :: "job list \<Rightarrow> job option" where
  "newest rs = (case sort_key (\<lambda>r. - jb_created_at r) rs of [] \<Rightarrow> None | r # _ \<Rightarrow> Some r)"

definition find_planned_job ::
  "server_env \<Rightarrow> ctx \<Rightarrow> string \<Rightarrow> string \<Rightarrow> store \<Rightarrow> job option result \<times> store" where
  "find_planned_job v c agentID planID s =
    (case sql_outcome (se_sql v) c (st_tick s) of
       Some er \<Rightarrow> (Inl (Wrap ''find planned job'' er), s\<lparr>st_tick := Suc (st_tick s)\<rparr>)
     | None \<Rightarrow> (Inr (newest (filter (active agentID planID) (st_jobs s))), s\<lparr>st_tick := Suc (st_tick s)\<rparr>))"

definition update_job_status ::
  "server_env \<Rightarrow> ctx \<Rightarrow> string \<Rightarrow> string \<Rightarrow> int option \<Rightarrow> string option \<Rightarrow> store \<Rightarrow> unit result \<times> store" where
  "update_job_status v c i status finishedAt logTail s =
    exec_rows v c ''update job status'' True ''update job status: not found'' (i \<in> set (job_ids s))
      (update_row i (\<lambda>r. r\<lparr>jb_status := status, jb_finished_at := finishedAt, jb_log_tail := logTail\<rparr>)) s"

definition create_planned_job ::
  "server_env \<Rightarrow> ctx \<Rightarrow> string \<Rightarrow> string \<Rightarrow> string \<Rightarrow> string \<Rightarrow> store \<Rightarrow> job result \<times> store" where
  "create_planned_job v c agentID planID planName trigger s =
    (let j = \<lparr>jb_id = se_uuid v (st_tick s), jb_agent_id = agentID, jb_plan_id = Some planID,
              jb_plan_name = planName, jb_type = ''backup'', jb_trigger = trigger, jb_status = ''planned'',
              jb_started_at = se_now v (st_tick s), jb_finished_at = None, jb_log_tail = None,
              jb_created_at = se_now v (st_tick s), jb_repo_results = [], jb_hook_results = []\<rparr>
     in case statement v c ''create planned job'' (jb_id j \<notin> set (job_ids s) \<and> job_fks v j s)
               (\<lambda>s. s\<lparr>st_jobs := st_jobs s @ [j]\<rparr>) s of
          (Inl er, s1) \<Rightarrow> (Inl er, s1)
        | (Inr _, s1) \<Rightarrow> (Inr j, s1))"

definition find_job :: "string \<Rightarrow> store \<Rightarrow> job option" where
  "find_job i s = find (\<lambda>r. jb_id r = i) (st_jobs s)"

definition existing_logs :: "log_codec \<Rightarrow> string option \<Rightarrow> db_log list" where
  "existing_logs cd tail = (case tail of
      None \<Rightarrow> []
    | Some s \<Rightarrow> if s = '''' then [] else (case lc_unmarshal cd s of None \<Rightarrow> [] | Some es \<Rightarrow> es))"

definition append_job_logs ::
  "log_codec \<Rightarrow> server_env \<Rightarrow> ctx \<Rightarrow> string \<Rightarrow> db_log list \<Rightarrow> store \<Rightarrow> unit result \<times> store" where
  "append_job_logs cd v c jobID entries s =
    (if entries = [] then (Inr (), s)
     else case sql_outcome (se_sql v) c (st_tick s) of
       Some er \<Rightarrow> (Inl (Wrap ''read log_tail'' er), s\<lparr>st_tick := Suc (st_tick s)\<rparr>)
     | None \<Rightarrow>
       (let s1 = s\<lparr>st_tick := Suc (st_tick s)\<rparr>
        in case find_job jobID s of
             None \<Rightarrow> (Inr (), s1)
           | Some r \<Rightarrow>
             statement v c ''update log_tail'' True
               (update_row jobID (\<lambda>r. r\<lparr>jb_log_tail := Some (lc_marshal cd
                  (existing_logs cd (jb_log_tail r) @ entries))\<rparr>)) s1))"

definition list_jobs ::
  "server_env \<Rightarrow> ctx \<Rightarrow> string \<Rightarrow> string \<Rightarrow> string \<Rightarrow> nat \<Rightarrow> nat \<Rightarrow> store \<Rightarrow> job list result \<times> store" where
  "list_jobs v c agentID planID status lim offset s =
    (case sql_outcome (se_sql v) c (st_tick s) of
       Some er \<Rightarrow> (Inl (Wrap ''list jobs'' er), s\<lparr>st_tick := Suc (st_tick s)\<rparr>)
     | None \<Rightarrow>
       (Inr (take lim (drop offset (sort_key (\<lambda>r. - jb_started_at r)
          (filter (\<lambda>r. (agentID = '''' \<or> jb_agent_id r = agentID)
             \<and> (planID = '''' \<or> jb_plan_id r = Some planID)
             \<and> (status = '''' \<or> jb_status r = status)) (st_jobs s))))),
        s\<lparr>st_tick := Suc (st_tick s)\<rparr>))"

definition parse_log_entries :: "log_codec \<Rightarrow> (int \<Rightarrow> string) \<Rightarrow> job \<Rightarrow> db_log list" where
  "parse_log_entries cd rfc3339 j = (case jb_log_tail j of
      None \<Rightarrow> []
    | Some s \<Rightarrow>
      (if s = '''' then []
       else case lc_unmarshal cd s of
         None \<Rightarrow> [\<lparr>dl_timestamp = rfc3339 (jb_started_at j), dl_level = ''info'', dl_source = ''agent'',
                 dl_message = s, dl_attributes = []\<rparr>]
       | Some es \<Rightarrow> es))"

text \<open>A job with its result rows and its decoded log; three queries, of which any may fail.\<close>

definition get_job ::
  "log_codec \<Rightarrow> (int \<Rightarrow> string) \<Rightarrow> server_env \<Rightarrow> ctx \<Rightarrow> string \<Rightarrow> store
    \<Rightarrow> (job \<times> db_log list) option result \<times> store" where
  "get_job cd rfc3339 v c i s =
    (case query v c ''get job'' (find_job i s) s of
       (Inl er, s1) \<Rightarrow> (Inl er, s1)
     | (Inr None, s1) \<Rightarrow> (Inr None, s1)
     | (Inr (Some j), s1) \<Rightarrow>
       (case query v c ''load repository results'' () s1 of
          (Inl er, s2) \<Rightarrow> (Inl er, s2)
        | (Inr _, s2) \<Rightarrow>
          (case query v c ''load hook results'' () s2 of
             (Inl er, s3) \<Rightarrow> (Inl er, s3)
           | (Inr _, s3) \<Rightarrow> (Inr (Some (j, parse_log_entries cd rfc3339 j)), s3))))"

section \<open>Lemmas\<close>

definition store_wf :: "store \<Rightarrow> bool" where
  "store_wf s \<longleftrightarrow> distinct (job_ids s)"

lemma job_ids_update_row: "(\<And>r. jb_id (f r) = jb_id r) \<Longrightarrow> job_ids (update_row i f s) = job_ids s"
  by (simp add: job_ids_def update_row_def comp_def if_distrib)

lemma newest_Some: "newest rs = Some r \<Longrightarrow> r \<in> set rs \<and> (\<forall>x\<in>set rs. jb_created_at x \<le> jb_created_at r)"
proof -
  assume n: "newest rs = Some r"
  then obtain xs where s: "sort_key (\<lambda>r. - jb_created_at r) rs = r # xs"
    by (auto simp: newest_def split: list.splits)
  have "sorted (map (\<lambda>r. - jb_created_at r) (r # xs))" using sorted_sort_key[of "\<lambda>r. - jb_created_at r" rs] s by simp
  moreover have "set (r # xs) = set rs" using s by (metis set_sort)
  ultimately show ?thesis by auto
qed

lemma newest_None: "newest rs = None \<longleftrightarrow> rs = []"
  by (auto simp: newest_def split: list.split) (metis length_sort list.size(3) length_0_conv)

lemma find_job_tick [simp]: "find_job i (s\<lparr>st_tick := t\<rparr>) = find_job i s"
  by (simp add: find_job_def)

lemma find_job_update:
  assumes "\<And>r. jb_id (f r) = jb_id r"
  shows "find_job i (update_row i f s) = map_option f (find_job i s)"
proof -
  have "find (\<lambda>r. jb_id r = i) (map (\<lambda>r. if jb_id r = i then f r else r) js)
      = map_option f (find (\<lambda>r. jb_id r = i) js)" for js
    using assms by (induction js) auto
  then show ?thesis by (simp add: find_job_def update_row_def)
qed

end
