(* ===== verification/EventHub.thy ===== *)
theory EventHub
  imports Channels
begin

text \<open>
  The event hub of the server (server/internal/events/hub.go): every WebSocket client has a
  channel of 64 events, a broadcast never waits, and a client that does not keep up loses
  the events that do not fit.
\<close>

text \<open>An event: its type and payload; its JSON is what a client receives.\<close>

record event =
  ev_type :: string
  ev_payload :: "(string \<times> string) list"

record hub =
  hb_clients :: "(string \<times> string chan) list"
  hb_closed :: bool
  hb_panic :: bool

definition new_hub :: hub where
  "new_hub = \<lparr>hb_clients = [], hb_closed = False, hb_panic = False\<rparr>"

definition hub_register :: "string \<Rightarrow> hub \<Rightarrow> hub" where
  "hub_register uuid h = h\<lparr>hb_clients := put uuid (make_chan 64) (hb_clients h)\<rparr>"

definition hub_unregister :: "string \<Rightarrow> hub \<Rightarrow> hub" where
  "hub_unregister clientID h =
    (case map_of (hb_clients h) clientID of
       None \<Rightarrow> h
     | Some ch \<Rightarrow> h\<lparr>hb_clients := del clientID (hb_clients h),
                  hb_panic := hb_panic h \<or> snd (close_chan ch)\<rparr>)"

definition hub_broadcast :: "(event \<Rightarrow> string result) \<Rightarrow> event \<Rightarrow> hub \<Rightarrow> hub" where
  "hub_broadcast marshal ev h =
    (if hb_closed h then h
     else case marshal ev of
       Inl _ \<Rightarrow> h
     | Inr data \<Rightarrow> h\<lparr>
         hb_clients := map (\<lambda>(i, ch). (i, snd (try_send data ch))) (hb_clients h),
         hb_panic := hb_panic h \<or> list_ex (\<lambda>(_, ch). fst (try_send data ch) = Send_panics) (hb_clients h)\<rparr>)"

definition hub_close :: "hub \<Rightarrow> hub" where
  "hub_close h =
    (if hb_closed h then h
     else h\<lparr>hb_clients := [], hb_closed := True,
            hb_panic := hb_panic h \<or> list_ex (\<lambda>(_, ch). snd (close_chan ch)) (hb_clients h)\<rparr>)"

definition client_count :: "hub \<Rightarrow> nat" where
  "client_count h = length (hb_clients h)"

text \<open>A client's goroutine takes the next event from its channel.\<close>

definition hub_next :: "string \<Rightarrow> hub \<Rightarrow> hub" where
  "hub_next clientID h = h\<lparr>hb_clients :=
     map (\<lambda>(i, ch). (i, if i = clientID then snd (recv ch) else ch)) (hb_clients h)\<rparr>"

inductive hub_step :: "(event \<Rightarrow> string result) \<Rightarrow> hub \<Rightarrow> hub \<Rightarrow> bool"
  for marshal :: "event \<Rightarrow> string result" where
  register: "hub_step marshal h (hub_register uuid h)"
| unregister: "hub_step marshal h (hub_unregister clientID h)"
| broadcast: "hub_step marshal h (hub_broadcast marshal ev h)"
| close: "hub_step marshal h (hub_close h)"
| receive: "hub_step marshal h (hub_next clientID h)"

inductive hub_reach :: "(event \<Rightarrow> string result) \<Rightarrow> hub \<Rightarrow> bool"
  for marshal :: "event \<Rightarrow> string result" where
  init: "hub_reach marshal new_hub"
| step: "hub_reach marshal h \<Longrightarrow> hub_step marshal h h' \<Longrightarrow> hub_reach marshal h'"

definition client_ok :: "string chan \<Rightarrow> bool" where
  "client_ok ch \<longleftrightarrow> \<not> ch_closed ch \<and> ch_cap ch = 64 \<and> length (ch_buf ch) \<le> 64"

definition hub_inv :: "hub \<Rightarrow> bool" where
  "hub_inv h \<longleftrightarrow> keys_ok (hb_clients h) \<and> (\<forall>p \<in> set (hb_clients h). client_ok (snd p)) \<and> \<not> hb_panic h"

lemma client_ok_send [simp]: "client_ok ch \<Longrightarrow> client_ok (snd (try_send x ch))"
  by (auto simp: client_ok_def try_send_def)

lemma client_ok_recv [simp]: "client_ok ch \<Longrightarrow> client_ok (snd (recv ch))"
  by (auto simp: client_ok_def recv_def split: list.split)

lemma keys_ok_map: "keys_ok (map (\<lambda>(i, ch). (i, f i ch)) cs) = keys_ok cs"
proof -
  have "map fst (map (\<lambda>(i, ch). (i, f i ch)) cs) = map fst cs" by (induction cs) auto
  then show ?thesis by (simp add: keys_ok_def del: map_map)
qed

lemma hub_inv_step:
  assumes "hub_inv h" and "hub_step marshal h h'"
  shows "hub_inv h'"
  using assms(2)
proof cases
  case (register uuid)
  then show ?thesis using assms(1)
    by (auto simp: hub_inv_def hub_register_def set_put client_ok_def make_chan_def)
next
  case (unregister clientID)
  then show ?thesis using assms(1)
    by (auto simp: hub_inv_def hub_unregister_def set_del close_chan_def client_ok_def
        split: option.split dest!: map_of_SomeD)
next
  case (broadcast ev)
  have "\<not> ch_closed ch" if "(i, ch) \<in> set (hb_clients h)" for i ch
    using assms(1) that by (fastforce simp: hub_inv_def client_ok_def)
  then show ?thesis using assms(1) broadcast keys_ok_map[of "\<lambda>_ ch. snd (try_send _ ch)"]
    by (fastforce simp: hub_inv_def hub_broadcast_def list_ex_iff split: sum.split)
next
  case close
  have "\<not> ch_closed ch" if "(i, ch) \<in> set (hb_clients h)" for i ch
    using assms(1) that by (fastforce simp: hub_inv_def client_ok_def)
  then show ?thesis using assms(1) close
    by (fastforce simp: hub_inv_def hub_close_def list_ex_iff keys_ok_def close_chan_def)
next
  case (receive clientID)
  then show ?thesis using assms(1) keys_ok_map[of "\<lambda>i ch. if i = clientID then snd (recv ch) else ch"]
    by (auto simp: hub_inv_def hub_next_def)
qed

lemma hub_inv_reach: "hub_reach marshal h \<Longrightarrow> hub_inv h"
proof (induction rule: hub_reach.induct)
  case init
  then show ?case by (simp add: hub_inv_def new_hub_def keys_ok_def)
next
  case (step h h')
  then show ?case using hub_inv_step by blast
qed

lemma map_of_map_clients:
  "map_of (map (\<lambda>(i, ch). (i, f ch)) cs) k = map_option f (map_of cs k)"
  by (induction cs) auto

text \<open>
  The hub never panics and never holds more than 64 events for a client, under every
  interleaving of registrations, disconnections, broadcasts, reads and shutdown; and a
  series of broadcasts leaves in a client's channel exactly the first events that fit after
  those already there, in order, whatever the other clients do: a slow client loses the
  newest events, and no other client loses any because of it.
\<close>

theorem broadcast_keeps_order:
  assumes "hub_reach marshal h" and "map_of (hb_clients h) k = Some ch" and "\<not> hb_closed h"
    and "list_all2 (\<lambda>ev d. marshal ev = Inr d) evs ds"
  shows "\<not> hb_panic h \<and> length (ch_buf ch) \<le> 64
    \<and> (\<exists>ch'. map_of (hb_clients (fold (hub_broadcast marshal) evs h)) k = Some ch'
         \<and> ch_buf ch' = take 64 (ch_buf ch @ ds))"
proof -
  have "\<exists>ch'. map_of (hb_clients (fold (hub_broadcast marshal) evs h)) k = Some ch'
         \<and> ch_buf ch' = take 64 (ch_buf ch @ ds)"
    using assms(4,2,3,1)
  proof (induction evs ds arbitrary: h ch rule: list_all2_induct)
    case Nil
    then have "client_ok ch" using hub_inv_reach map_of_SomeD by (fastforce simp: hub_inv_def)
    then show ?case using Nil by (simp add: client_ok_def)
  next
    case (Cons ev evs d ds)
    have ok: "client_ok ch" using Cons.prems hub_inv_reach map_of_SomeD by (fastforce simp: hub_inv_def)
    let ?h = "hub_broadcast marshal ev h"
    have "map_of (hb_clients ?h) k = Some (snd (try_send d ch))" and "\<not> hb_closed ?h"
      using Cons.prems Cons.hyps(1) by (simp_all add: hub_broadcast_def map_of_map_clients)
    moreover have "hub_reach marshal ?h" using Cons.prems(3) hub_reach.step hub_step.broadcast by blast
    ultimately obtain ch' where "map_of (hb_clients (fold (hub_broadcast marshal) evs ?h)) k = Some ch'"
      "ch_buf ch' = take 64 (ch_buf (snd (try_send d ch)) @ ds)"
      using Cons.IH by blast
    then show ?case using ok
      by (cases "length (ch_buf ch) < 64") (auto simp: try_send_def client_ok_def take_Cons' Suc_diff_Suc)
  qed
  moreover have "\<not> hb_panic h" and "client_ok ch"
    using hub_inv_reach[OF assms(1)] map_of_SomeD[OF assms(2)] by (fastforce simp: hub_inv_def)+
  ultimately show ?thesis by (simp add: client_ok_def)
qed

theorem broadcast_keeps_order_witness:
  "\<exists>ch. map_of (hb_clients (hub_broadcast (\<lambda>ev. Inr (ev_type ev)) \<lparr>ev_type = ''job.started'', ev_payload = []\<rparr>
      (hub_register ''c'' new_hub))) ''c'' = Some ch \<and> ch_buf ch = [''job.started'']"
proof -
  have "hub_reach (\<lambda>ev. Inr (ev_type ev)) (hub_register ''c'' new_hub)"
    using hub_reach.step[OF hub_reach.init hub_step.register] .
  from broadcast_keeps_order[OF this, of "''c''" "make_chan 64" "[\<lparr>ev_type = ''job.started'', ev_payload = []\<rparr>]"
      "[''job.started'']"]
  show ?thesis by (auto simp: hub_register_def new_hub_def put_def)
qed

end
