(* ===== verification/Crypto.thy ===== *)
theory Crypto
  imports GoStrings
begin

text \<open>
  Encryption of stored secrets (server/internal/crypto/crypto.go and the helpers of
  server/internal/database/db.go). AES-GCM and base64 are parameters, of which the code
  relies on opening what was sealed and decoding what was encoded.
\<close>

record aead =
  ae_seal :: "string \<Rightarrow> string \<Rightarrow> string \<Rightarrow> string"
  ae_open :: "string \<Rightarrow> string \<Rightarrow> string \<Rightarrow> string option"
  ae_encode :: "string \<Rightarrow> string"
  ae_decode :: "string \<Rightarrow> string option"

definition lawful :: "aead \<Rightarrow> bool" where
  "lawful a \<longleftrightarrow> (\<forall>k n p. ae_open a k n (ae_seal a k n p) = Some p) \<and> (\<forall>x. ae_decode a (ae_encode a x) = Some x)"

definition enc_prefix :: string where "enc_prefix = ''enc:''"
definition nonce_size :: nat where "nonce_size = 12"

text \<open>The nonce is what \<open>rand.Read\<close> filled in, or its error.\<close>

definition crypto_encrypt :: "aead \<Rightarrow> string result \<Rightarrow> string \<Rightarrow> string \<Rightarrow> string result" where
  "crypto_encrypt a rnd key plaintext =
    (if length key \<noteq> 32 then Inl (Msg ''encryption key must be 32 bytes'')
     else case rnd of
       Inl er \<Rightarrow> Inl (Wrap ''generate nonce'' er)
     | Inr nonce \<Rightarrow> Inr (enc_prefix @ ae_encode a (nonce @ ae_seal a key nonce plaintext)))"

definition crypto_decrypt :: "aead \<Rightarrow> string \<Rightarrow> string \<Rightarrow> string result" where
  "crypto_decrypt a key value =
    (if \<not> has_prefix value enc_prefix then Inr value
     else if length key \<noteq> 32 then Inl (Msg ''encryption key must be 32 bytes'')
     else case ae_decode a (drop (length enc_prefix) value) of
       None \<Rightarrow> Inl (Wrap ''decode base64'' (Msg ''illegal base64 data''))
     | Some data \<Rightarrow>
       (if length data < nonce_size then Inl (Msg ''ciphertext too short'')
        else case ae_open a key (take nonce_size data) (drop nonce_size data) of
          None \<Rightarrow> Inl (Wrap ''decrypt'' (Msg ''message authentication failed''))
        | Some plaintext \<Rightarrow> Inr plaintext))"

definition is_encrypted :: "string \<Rightarrow> bool" where
  "is_encrypted value = has_prefix value enc_prefix"

text \<open>The helpers of the database, with its key, which has 32 bytes or is not used.\<close>

definition db_encrypt :: "aead \<Rightarrow> string \<Rightarrow> string result \<Rightarrow> string \<Rightarrow> string result" where
  "db_encrypt a dbKey rnd plaintext =
    (if length dbKey \<noteq> 32 \<or> plaintext = '''' then Inr plaintext else crypto_encrypt a rnd dbKey plaintext)"

definition db_decrypt :: "aead \<Rightarrow> string \<Rightarrow> string \<Rightarrow> string result" where
  "db_decrypt a dbKey value =
    (if length dbKey \<noteq> 32 \<or> value = '''' then Inr value else crypto_decrypt a dbKey value)"

definition db_encrypt_ptr :: "aead \<Rightarrow> string \<Rightarrow> string result \<Rightarrow> string option \<Rightarrow> string option result" where
  "db_encrypt_ptr a dbKey rnd v = (case v of None \<Rightarrow> Inr None
    | Some x \<Rightarrow> (case db_encrypt a dbKey rnd x of Inl er \<Rightarrow> Inl er | Inr y \<Rightarrow> Inr (Some y)))"

definition db_decrypt_ptr :: "aead \<Rightarrow> string \<Rightarrow> string option \<Rightarrow> string option result" where
  "db_decrypt_ptr a dbKey v = (case v of None \<Rightarrow> Inr None
    | Some x \<Rightarrow> (case db_decrypt a dbKey x of Inl er \<Rightarrow> Inl er | Inr y \<Rightarrow> Inr (Some y)))"

lemma decrypt_encrypt:
  assumes "lawful a" and "length nonce = nonce_size" and "crypto_encrypt a (Inr nonce) key p = Inr c"
  shows "crypto_decrypt a key c = Inr p"
  using assms by (auto simp: crypto_encrypt_def crypto_decrypt_def lawful_def split: if_splits)

lemma encrypted_ne: "crypto_encrypt a rnd key p = Inr c \<Longrightarrow> c \<noteq> []"
  by (auto simp: crypto_encrypt_def enc_prefix_def split: if_splits sum.splits)

text \<open>
  Reading a stored secret back with the same key returns what was written, for every
  plaintext, with encryption on or off, empty values and absent values included; and what
  is written with encryption on carries the prefix that marks it as encrypted.
\<close>

theorem stored_secret_round_trip:
  assumes "lawful a" and "length nonce = nonce_size"
    and "db_encrypt_ptr a dbKey (Inr nonce) v = Inr stored"
  shows "db_decrypt_ptr a dbKey stored = Inr v
    \<and> (length dbKey = 32 \<longrightarrow> list_all is_encrypted (case stored of Some c \<Rightarrow> (if v = Some '''' then [] else [c]) | None \<Rightarrow> []))"
proof (cases v)
  case None
  then show ?thesis using assms(3) by (auto simp: db_encrypt_ptr_def db_decrypt_ptr_def)
next
  case (Some p)
  then obtain c where c: "stored = Some c" "db_encrypt a dbKey (Inr nonce) p = Inr c"
    using assms(3) by (auto simp: db_encrypt_ptr_def split: sum.splits)
  have "db_decrypt a dbKey c = Inr p"
    using c(2) decrypt_encrypt[OF assms(1,2), of dbKey p c] encrypted_ne[of a "Inr nonce" dbKey p c]
    by (auto simp: db_encrypt_def db_decrypt_def split: if_splits)
  moreover have "is_encrypted c" if "length dbKey = 32" "p \<noteq> ''''"
    using c(2) that by (auto simp: db_encrypt_def crypto_encrypt_def is_encrypted_def)
  ultimately show ?thesis using Some c(1) by (simp add: db_decrypt_ptr_def)
qed

definition toy_aead :: aead where
  "toy_aead = \<lparr>ae_seal = \<lambda>k n p. rev p, ae_open = \<lambda>k n c. Some (rev c), ae_encode = \<lambda>x. x, ae_decode = Some\<rparr>"

theorem stored_secret_round_trip_witness:
  "db_decrypt_ptr toy_aead (replicate 32 (CHR ''k''))
    (Some (''enc:'' @ replicate 12 (CHR ''n'') @ ''terces'')) = Inr (Some ''secret'')"
  by (rule conjunct1[OF stored_secret_round_trip[where nonce = "replicate 12 (CHR ''n'')"]])
    (simp_all add: lawful_def toy_aead_def nonce_size_def db_encrypt_ptr_def db_encrypt_def crypto_encrypt_def
      enc_prefix_def)

text \<open>
  A secret stored before encryption was turned on and beginning with the prefix
  \<open>enc:\<close> is taken for an encrypted one afterwards: whenever its tail is not valid base64,
  every read of the row fails, and the migration at start-up, which skips values that carry
  the prefix, does not repair it.
\<close>

theorem prefixed_plaintext_is_lost:
  assumes "ae_decode a tail = None" and "length oldKey \<noteq> 32" and "length dbKey = 32"
  shows "db_encrypt a oldKey rnd (''enc:'' @ tail) = Inr (''enc:'' @ tail)
    \<and> is_encrypted (''enc:'' @ tail)
    \<and> (\<exists>er. db_decrypt a dbKey (''enc:'' @ tail) = Inl er)"
  using assms by (simp add: db_encrypt_def db_decrypt_def is_encrypted_def crypto_decrypt_def enc_prefix_def)

theorem prefixed_plaintext_is_lost_witness:
  "\<exists>er. db_decrypt (toy_aead\<lparr>ae_decode := \<lambda>_. None\<rparr>) (replicate 32 (CHR ''k'')) ''enc:hunter2'' = Inl er"
  using prefixed_plaintext_is_lost[of "toy_aead\<lparr>ae_decode := \<lambda>_. None\<rparr>" "''hunter2''" "''''"
      "replicate 32 (CHR ''k'')" "Inr ''''"] by simp

end
