(* ===== verification/AgentStore.thy ===== *)
theory AgentStore
  imports JobStore Crypto
begin

text \<open>
  The agent table of the server (server/internal/database/agents.go), with the sealing and opening of
  stored secrets (server/internal/database/db.go).
\<close>

section \<open>Secrets\<close>

text \<open>The cipher, the database's key and what the random source fills in at each tick.\<close>

record secrets =
  sk_aead :: aead
  sk_key :: string
  sk_rand :: "nat \<Rightarrow> string result"

definition seal :: "secrets \<Rightarrow> nat \<Rightarrow> string \<Rightarrow> string result" where
  "seal k t x = db_encrypt (sk_aead k) (sk_key k) (sk_rand k t) x"

definition unseal :: "secrets \<Rightarrow> string \<Rightarrow> string result" where
  "unseal k x = db_decrypt (sk_aead k) (sk_key k) x"

definition open_agent :: "secrets \<Rightarrow> string \<Rightarrow> agent_row \<Rightarrow> agent_row result" where
  "open_agent k what a =
    (case db_decrypt_ptr (sk_aead k) (sk_key k) (ag_rclone_config a) of
       Inl er \<Rightarrow> Inl (Wrap what er)
     | Inr rc \<Rightarrow> Inr (a\<lparr>ag_rclone_config := rc\<rparr>))"

section \<open>Operations\<close>

definition find_agent :: "string \<Rightarrow> store \<Rightarrow> agent_row option" where
  "find_agent i s = find (\<lambda>a. ag_id a = i) (st_agents s)"

definition set_agent :: "string \<Rightarrow> (agent_row \<Rightarrow> agent_row) \<Rightarrow> store \<Rightarrow> store" where
  "set_agent i f s = s\<lparr>st_agents := map (\<lambda>a. if ag_id a = i then f a else a) (st_agents s)\<rparr>"

definition create_agent :: "secrets \<Rightarrow> server_env \<Rightarrow> ctx \<Rightarrow> agent_row \<Rightarrow> store \<Rightarrow> unit result \<times> store" where
  "create_agent k v c a0 s =
    (let a = a0\<lparr>ag_id := (if ag_id a0 = '''' then se_uuid v (st_tick s) else ag_id a0),
               ag_created_at := se_now v (st_tick s), ag_updated_at := se_now v (st_tick s)\<rparr>
     in case db_encrypt_ptr (sk_aead k) (sk_key k) (sk_rand k (st_tick s)) (ag_rclone_config a) of
          Inl er \<Rightarrow> (Inl (Wrap ''encrypt rclone config'' er), s)
        | Inr rc \<Rightarrow>
          statement v c ''create agent'' (ag_id a \<notin> set (agent_ids s))
            (\<lambda>s. s\<lparr>st_agents := st_agents s @ [a\<lparr>ag_rclone_config := rc\<rparr>]\<rparr>) s)"

definition read_agent ::
  "secrets \<Rightarrow> server_env \<Rightarrow> ctx \<Rightarrow> string \<Rightarrow> agent_row option \<Rightarrow> store \<Rightarrow> agent_row option result \<times> store" where
  "read_agent k v c what row s =
    (case query v c what row s of
       (Inl er, s1) \<Rightarrow> (Inl er, s1)
     | (Inr None, s1) \<Rightarrow> (Inr None, s1)
     | (Inr (Some a), s1) \<Rightarrow>
       (case open_agent k ''decrypt agent rclone config'' a of
          Inl er \<Rightarrow> (Inl er, s1)
        | Inr a' \<Rightarrow> (Inr (Some a'), s1)))"

definition get_agent :: "secrets \<Rightarrow> server_env \<Rightarrow> ctx \<Rightarrow> string \<Rightarrow> store \<Rightarrow> agent_row option result \<times> store" where
  "get_agent k v c i s = read_agent k v c ''get agent'' (find_agent i s) s"

definition get_agent_by_api_key ::
  "secrets \<Rightarrow> server_env \<Rightarrow> ctx \<Rightarrow> string \<Rightarrow> store \<Rightarrow> agent_row option result \<times> store" where
  "get_agent_by_api_key k v c key s =
    read_agent k v c ''get agent by api key'' (find (\<lambda>a. ag_api_key a = Some key) (st_agents s)) s"

text \<open>A loop over rows that returns at the first error.\<close>

fun map_rows :: "('a \<Rightarrow> 'b result) \<Rightarrow> 'a list \<Rightarrow> 'b list result" where
  "map_rows f [] = Inr []"
| "map_rows f (x # xs) =
    (case f x of
       Inl er \<Rightarrow> Inl er
     | Inr y \<Rightarrow> (case map_rows f xs of Inl er \<Rightarrow> Inl er | Inr ys \<Rightarrow> Inr (y # ys)))"

lemma map_rows_Inr: "map_rows f xs = Inr ys \<Longrightarrow> list_all2 (\<lambda>x y. f x = Inr y) xs ys"
  by (induction xs arbitrary: ys) (auto split: sum.splits)

lemma map_rows_total: "(\<And>x. x \<in> set xs \<Longrightarrow> f x = Inr (g x)) \<Longrightarrow> map_rows f xs = Inr (map g xs)"
  by (induction xs) auto

definition list_agents :: "secrets \<Rightarrow> server_env \<Rightarrow> ctx \<Rightarrow> store \<Rightarrow> agent_row list result \<times> store" where
  "list_agents k v c s =
    (case query v c ''list agents'' (sort_key ag_name (st_agents s)) s of
       (Inl er, s1) \<Rightarrow> (Inl er, s1)
     | (Inr as, s1) \<Rightarrow> (map_rows (\<lambda>a. open_agent k (''decrypt agent '' @ ag_id a @ '' rclone config'') a) as, s1))"

text \<open>\<open>WHERE id=? AND status='pending'\<close>.\<close>

definition decide_agent ::
  "server_env \<Rightarrow> ctx \<Rightarrow> string \<Rightarrow> string \<Rightarrow> (agent_row \<Rightarrow> agent_row) \<Rightarrow> store \<Rightarrow> unit result \<times> store" where
  "decide_agent v c what i f s =
    exec_rows v c what True (what @ '': not found or not pending'')
      (list_ex (\<lambda>a. ag_id a = i \<and> ag_status a = ''pending'') (st_agents s))
      (set_agent i (\<lambda>a. if ag_status a = ''pending'' then (f a)\<lparr>ag_updated_at := se_now v (st_tick s)\<rparr> else a)) s"

definition approve_agent :: "server_env \<Rightarrow> ctx \<Rightarrow> string \<Rightarrow> string \<Rightarrow> store \<Rightarrow> unit result \<times> store" where
  "approve_agent v c i apiKey s =
    decide_agent v c ''approve agent'' i (\<lambda>a. a\<lparr>ag_status := ''approved'', ag_api_key := Some apiKey\<rparr>) s"

definition reject_agent :: "server_env \<Rightarrow> ctx \<Rightarrow> string \<Rightarrow> store \<Rightarrow> unit result \<times> store" where
  "reject_agent v c i s = decide_agent v c ''reject agent'' i (\<lambda>a. a\<lparr>ag_status := ''rejected''\<rparr>) s"

definition update_heartbeat_row ::
  "server_env \<Rightarrow> ctx \<Rightarrow> string \<Rightarrow> string \<Rightarrow> string \<Rightarrow> string \<Rightarrow> store \<Rightarrow> unit result \<times> store" where
  "update_heartbeat_row v c i agentVersion resticVersion rcloneVersion s =
    (let now = se_now v (st_tick s)
     in statement v c ''update heartbeat'' True
          (set_agent i (\<lambda>a. a\<lparr>ag_last_heartbeat := Some now, ag_agent_version := Some agentVersion,
             ag_restic_version := Some resticVersion, ag_rclone_version := Some rcloneVersion, ag_updated_at := now\<rparr>)) s)"

definition update_agent_column ::
  "server_env \<Rightarrow> ctx \<Rightarrow> string \<Rightarrow> string \<Rightarrow> (agent_row \<Rightarrow> agent_row) \<Rightarrow> store \<Rightarrow> unit result \<times> store" where
  "update_agent_column v c what i f s =
    exec_rows v c what True (what @ '': agent not found'') (i \<in> set (agent_ids s))
      (set_agent i (\<lambda>a. (f a)\<lparr>ag_updated_at := se_now v (st_tick s)\<rparr>)) s"

definition update_rclone_config ::
  "secrets \<Rightarrow> server_env \<Rightarrow> ctx \<Rightarrow> string \<Rightarrow> string \<Rightarrow> store \<Rightarrow> unit result \<times> store" where
  "update_rclone_config k v c i config s =
    (case seal k (st_tick s) config of
       Inl er \<Rightarrow> (Inl (Wrap ''encrypt rclone config'' er), s)
     | Inr x \<Rightarrow> update_agent_column v c ''update rclone config'' i (\<lambda>a. a\<lparr>ag_rclone_config := Some x\<rparr>) s)"

definition update_command_timeouts ::
  "server_env \<Rightarrow> ctx \<Rightarrow> string \<Rightarrow> string option \<Rightarrow> store \<Rightarrow> unit result \<times> store" where
  "update_command_timeouts v c i json s =
    update_agent_column v c ''update command timeouts'' i (\<lambda>a. a\<lparr>ag_command_timeouts := json\<rparr>) s"

definition update_outbox_overrides ::
  "server_env \<Rightarrow> ctx \<Rightarrow> string \<Rightarrow> string option \<Rightarrow> store \<Rightarrow> unit result \<times> store" where
  "update_outbox_overrides v c i json s =
    update_agent_column v c ''update outbox overrides'' i (\<lambda>a. a\<lparr>ag_outbox_overrides := json\<rparr>) s"

text \<open>
  The version is read back in the same transaction; with no such agent the read finds no row
  and the transaction is rolled back.
\<close>

definition update_config_version :: "server_env \<Rightarrow> ctx \<Rightarrow> string \<Rightarrow> store \<Rightarrow> int result \<times> store" where
  "update_config_version v c i s =
    (case run_stmts (se_sql v) c [(''begin transaction'', True), (''update config version'', True),
            (''read config version'', i \<in> set (agent_ids s)), (''commit config version'', True)] (st_tick s) of
       (Some er, t) \<Rightarrow> (Inl er, s\<lparr>st_tick := t\<rparr>)
     | (None, t) \<Rightarrow>
       (let s' = set_agent i (\<lambda>a. a\<lparr>ag_config_version := ag_config_version a + 1, ag_updated_at := se_now v (st_tick s)\<rparr>) s
        in (Inr (case find_agent i s' of None \<Rightarrow> 0 | Some a \<Rightarrow> ag_config_version a), s'\<lparr>st_tick := t\<rparr>)))"

definition update_config_applied ::
  "server_env \<Rightarrow> ctx \<Rightarrow> string \<Rightarrow> int \<Rightarrow> store \<Rightarrow> unit result \<times> store" where
  "update_config_applied v c i appliedAt s =
    statement v c ''update config applied'' True
      (set_agent i (\<lambda>a. a\<lparr>ag_config_applied_at := Some appliedAt, ag_updated_at := se_now v (st_tick s)\<rparr>)) s"

end
