(* ===== verification/CatalogStore.thy ===== *)
theory CatalogStore
  imports AgentStore "HOL-Library.AList"
begin

text \<open>
  The tables of repositories, plans, hooks, scripts and settings of the server
  (server/internal/database/repositories.go, plans.go, hooks.go, scripts.go, settings.go)
  with the constraints of the schema in migrations.go, and the deletion of an agent, which
  cascades to them.
\<close>

section \<open>Repositories\<close>

definition fk_agent :: "server_env \<Rightarrow> string option \<Rightarrow> store \<Rightarrow> bool" where
  "fk_agent v a s \<longleftrightarrow> (se_foreign_keys v \<longrightarrow> (case a of None \<Rightarrow> True | Some i \<Rightarrow> i \<in> set (agent_ids s)))"

definition create_repository ::
  "secrets \<Rightarrow> server_env \<Rightarrow> ctx \<Rightarrow> repository_row \<Rightarrow> store \<Rightarrow> repository_row result \<times> store" where
  "create_repository k v c r0 s =
    (let r = r0\<lparr>ry_id := se_uuid v (st_tick s), ry_created_at := se_now v (st_tick s),
               ry_updated_at := se_now v (st_tick s)\<rparr>
     in case seal k (st_tick s) (ry_password r) of
          Inl er \<Rightarrow> (Inl (Wrap ''encrypt password'' er), s)
        | Inr pw \<Rightarrow>
          (case statement v c ''create repository''
                  (ry_id r \<notin> set (repo_ids s) \<and> ry_name r \<notin> set (map ry_name (st_repos s)) \<and> fk_agent v (ry_agent_id r) s)
                  (\<lambda>s. s\<lparr>st_repos := st_repos s @ [r\<lparr>ry_password := pw\<rparr>]\<rparr>) s of
             (Inl er, s1) \<Rightarrow> (Inl er, s1)
           | (Inr _, s1) \<Rightarrow> (Inr r, s1)))"

definition open_repo :: "secrets \<Rightarrow> repository_row \<Rightarrow> repository_row result" where
  "open_repo k r =
    (case unseal k (ry_password r) of
       Inl er \<Rightarrow> Inl (Wrap (''decrypt repository '' @ ry_id r @ '' password'') er)
     | Inr pw \<Rightarrow> Inr (r\<lparr>ry_password := pw\<rparr>))"

definition find_repo :: "string \<Rightarrow> store \<Rightarrow> repository_row option" where
  "find_repo i s = find (\<lambda>r. ry_id r = i) (st_repos s)"

definition get_repository ::
  "secrets \<Rightarrow> server_env \<Rightarrow> ctx \<Rightarrow> string \<Rightarrow> store \<Rightarrow> repository_row option result \<times> store" where
  "get_repository k v c i s =
    (case query v c ''get repository'' (find_repo i s) s of
       (Inl er, s1) \<Rightarrow> (Inl er, s1)
     | (Inr None, s1) \<Rightarrow> (Inr None, s1)
     | (Inr (Some r), s1) \<Rightarrow>
       (case open_repo k r of Inl er \<Rightarrow> (Inl er, s1) | Inr r' \<Rightarrow> (Inr (Some r'), s1)))"

definition list_repositories ::
  "secrets \<Rightarrow> server_env \<Rightarrow> ctx \<Rightarrow> string \<Rightarrow> string \<Rightarrow> store \<Rightarrow> repository_row list result \<times> store" where
  "list_repositories k v c scope agentID s =
    (case query v c ''list repositories''
            (sort_key ry_name (filter (\<lambda>r. (scope = '''' \<or> ry_scope r = scope)
               \<and> (agentID = '''' \<or> ry_agent_id r = Some agentID)) (st_repos s))) s of
       (Inl er, s1) \<Rightarrow> (Inl er, s1)
     | (Inr rs, s1) \<Rightarrow> (map_rows (open_repo k) rs, s1))"

definition update_repository ::
  "secrets \<Rightarrow> server_env \<Rightarrow> ctx \<Rightarrow> repository_row \<Rightarrow> store \<Rightarrow> unit result \<times> store" where
  "update_repository k v c r s =
    (case seal k (st_tick s) (ry_password r) of
       Inl er \<Rightarrow> (Inl (Wrap ''encrypt password'' er), s)
     | Inr pw \<Rightarrow>
       (let hit = (ry_id r \<in> set (repo_ids s))
        in exec_rows v c ''update repository''
             (hit \<longrightarrow> ry_name r \<notin> set (map ry_name (filter (\<lambda>x. ry_id x \<noteq> ry_id r) (st_repos s)))
                \<and> fk_agent v (ry_agent_id r) s)
             ''update repository: not found'' hit
             (\<lambda>s. s\<lparr>st_repos := map (\<lambda>x. if ry_id x = ry_id r
                then x\<lparr>ry_name := ry_name r, ry_scope := ry_scope r, ry_agent_id := ry_agent_id r, ry_type := ry_type r,
                       ry_path := ry_path r, ry_password := pw, ry_updated_at := se_now v (st_tick s)\<rparr>
                else x) (st_repos s)\<rparr>) s))"

text \<open>\<open>SELECT DISTINCT\<close> over the join of plans and their repositories.\<close>

definition agent_ids_using_repository ::
  "server_env \<Rightarrow> ctx \<Rightarrow> string \<Rightarrow> store \<Rightarrow> string list result \<times> store" where
  "agent_ids_using_repository v c repoID s =
    query v c ''agents using repository''
      (remdups (map pr_agent_id (filter (\<lambda>p. repoID \<in> set (pr_repository_ids p)) (st_plans s)))) s"

definition job_refers :: "string \<Rightarrow> job \<Rightarrow> bool" where
  "job_refers repoID j = list_ex (\<lambda>r. rw_repository_id r = repoID) (jb_repo_results j)"

definition delete_repository :: "server_env \<Rightarrow> ctx \<Rightarrow> string \<Rightarrow> store \<Rightarrow> unit result \<times> store" where
  "delete_repository v c i s =
    (let hit = (i \<in> set (repo_ids s))
     in exec_rows v c ''delete repository''
          (hit \<and> se_foreign_keys v \<longrightarrow>
             \<not> list_ex (\<lambda>p. i \<in> set (pr_repository_ids p)) (st_plans s) \<and> \<not> list_ex (job_refers i) (st_jobs s))
          ''delete repository: not found'' hit
          (\<lambda>s. s\<lparr>st_repos := filter (\<lambda>r. ry_id r \<noteq> i) (st_repos s)\<rparr>) s)"

definition get_repositories_by_ids ::
  "secrets \<Rightarrow> server_env \<Rightarrow> ctx \<Rightarrow> string list \<Rightarrow> store \<Rightarrow> repository_row list result \<times> store" where
  "get_repositories_by_ids k v c ids s =
    (if ids = [] then (Inr [], s)
     else case query v c ''get repositories by ids'' (filter (\<lambda>r. ry_id r \<in> set ids) (st_repos s)) s of
       (Inl er, s1) \<Rightarrow> (Inl er, s1)
     | (Inr rs, s1) \<Rightarrow> (map_rows (open_repo k) rs, s1))"

section \<open>Plans\<close>

text \<open>Inserting the repositories of a plan, whose pairs are a primary key.\<close>

fun link_stmts :: "server_env \<Rightarrow> store \<Rightarrow> string list \<Rightarrow> string list \<Rightarrow> (string \<times> bool) list" where
  "link_stmts v s seen [] = []"
| "link_stmts v s seen (r # rs) =
    (''insert plan repository '' @ r, r \<notin> set seen \<and> (se_foreign_keys v \<longrightarrow> r \<in> set (repo_ids s)))
    # link_stmts v s (r # seen) rs"

definition create_plan :: "server_env \<Rightarrow> ctx \<Rightarrow> plan_row \<Rightarrow> store \<Rightarrow> plan_row result \<times> store" where
  "create_plan v c p0 s =
    (let p = p0\<lparr>pr_id := se_uuid v (st_tick s), pr_created_at := se_now v (st_tick s),
               pr_updated_at := se_now v (st_tick s)\<rparr>
     in case transaction (se_sql v) c
               ((''insert plan'', pr_id p \<notin> set (plan_ids s)
                   \<and> (pr_name p, pr_agent_id p) \<notin> set (map (\<lambda>x. (pr_name x, pr_agent_id x)) (st_plans s))
                   \<and> fk_agent v (Some (pr_agent_id p)) s)
                # link_stmts v s [] (pr_repository_ids p))
               (\<lambda>s. s\<lparr>st_plans := st_plans s @ [p]\<rparr>) s of
          (Inl er, s1) \<Rightarrow> (Inl er, s1)
        | (Inr _, s1) \<Rightarrow> (Inr p, s1))"

definition find_plan :: "string \<Rightarrow> store \<Rightarrow> plan_row option" where
  "find_plan i s = find (\<lambda>p. pr_id p = i) (st_plans s)"

definition get_plan :: "server_env \<Rightarrow> ctx \<Rightarrow> string \<Rightarrow> store \<Rightarrow> plan_row option result \<times> store" where
  "get_plan v c i s =
    (case query v c ''get plan'' (find_plan i s) s of
       (Inl er, s1) \<Rightarrow> (Inl er, s1)
     | (Inr None, s1) \<Rightarrow> (Inr None, s1)
     | (Inr (Some p), s1) \<Rightarrow> query v c ''load plan repositories'' (Some p) s1)"

text \<open>The order of a plan's repositories is that of their insertion; SQL leaves it open.\<close>

definition list_plans :: "server_env \<Rightarrow> ctx \<Rightarrow> string \<Rightarrow> store \<Rightarrow> plan_row list result \<times> store" where
  "list_plans v c agentID s =
    (let ps = sort_key pr_name (filter (\<lambda>p. agentID = '''' \<or> pr_agent_id p = agentID) (st_plans s))
     in case query v c ''list plans'' ps s of
          (Inl er, s1) \<Rightarrow> (Inl er, s1)
        | (Inr _, s1) \<Rightarrow> (if ps = [] then (Inr [], s1) else query v c ''load plan repositories'' ps s1))"

definition agent_plans :: "string \<Rightarrow> store \<Rightarrow> plan_row list" where
  "agent_plans agentID s = sort_key pr_name (filter (\<lambda>p. pr_agent_id p = agentID) (st_plans s))"

lemma list_plans_ok:
  assumes "fault_free (se_sql v)" and "i \<noteq> ''''"
  shows "\<exists>t. list_plans v background i s = (Inr (agent_plans i s), s\<lparr>st_tick := t\<rparr>)"
  using assms(2) by (auto simp: list_plans_def agent_plans_def query_ok[OF assms(1)] Let_def simp del: background_simp)

text \<open>With no such row the update returns an error of its own before it touches the links.\<close>

definition update_plan :: "server_env \<Rightarrow> ctx \<Rightarrow> plan_row \<Rightarrow> store \<Rightarrow> unit result \<times> store" where
  "update_plan v c p s =
    (if pr_id p \<notin> set (plan_ids s) then
       (case run_stmts (se_sql v) c [(''begin transaction'', True), (''update plan'', True)] (st_tick s) of
          (Some er, t) \<Rightarrow> (Inl er, s\<lparr>st_tick := t\<rparr>)
        | (None, t) \<Rightarrow> (Inl (Msg ''update plan: not found''), s\<lparr>st_tick := t\<rparr>))
     else transaction (se_sql v) c
       ((''update plan'',
           (pr_name p, pr_agent_id p) \<notin> set (map (\<lambda>x. (pr_name x, pr_agent_id x)) (filter (\<lambda>x. pr_id x \<noteq> pr_id p) (st_plans s)))
           \<and> fk_agent v (Some (pr_agent_id p)) s)
        # (''delete plan repositories'', True)
        # link_stmts v s [] (pr_repository_ids p))
       (\<lambda>s. s\<lparr>st_plans := map (\<lambda>x. if pr_id x = pr_id p
          then p\<lparr>pr_created_at := pr_created_at x, pr_updated_at := se_now v (st_tick s)\<rparr> else x) (st_plans s)\<rparr>) s)"

text \<open>What the engine does to the other tables when plans go, if it enforces foreign keys.\<close>

definition unplan :: "server_env \<Rightarrow> (string \<Rightarrow> bool) \<Rightarrow> store \<Rightarrow> store" where
  "unplan v gone s =
    (let s1 = s\<lparr>st_plans := filter (\<lambda>p. \<not> gone (pr_id p)) (st_plans s)\<rparr>
     in if se_foreign_keys v then
          s1\<lparr>st_hooks := filter (\<lambda>h. \<not> gone (ph_plan_id h)) (st_hooks s),
             st_jobs := map (\<lambda>j. case jb_plan_id j of None \<Rightarrow> j
               | Some p \<Rightarrow> (if gone p then j\<lparr>jb_plan_id := None\<rparr> else j)) (st_jobs s)\<rparr>
        else s1)"

definition delete_plan :: "server_env \<Rightarrow> ctx \<Rightarrow> string \<Rightarrow> store \<Rightarrow> unit result \<times> store" where
  "delete_plan v c i s =
    exec_rows v c ''delete plan'' True ''delete plan: not found'' (i \<in> set (plan_ids s))
      (unplan v (\<lambda>p. p = i \<and> i \<in> set (plan_ids s))) s"

end
