(* ===== verification/JobReports.thy ===== *)
theory JobReports
  imports CatalogStore EventHub AgentMgr
begin

text \<open>
  What the server does with the reports, heartbeats and live logs of an agent
  (server/internal/grpcserver/report.go and the message handling of connect.go).
\<close>

section \<open>Job reports\<close>

text \<open>The report as it arrives: with the credentials, the log entries and the old log field.\<close>

record report_request = job_report +
  rq_agent_id :: string
  rq_api_key :: string
  rq_log_entries :: "log_entry list"
  rq_log_tail :: string

definition non_empty :: "string \<Rightarrow> string option" where
  "non_empty s = (if s = '''' then None else Some s)"

definition non_zero :: "int \<Rightarrow> int option" where
  "non_zero n = (if n = 0 then None else Some n)"

definition convert_log :: "log_codec \<Rightarrow> log_entry \<Rightarrow> db_log" where
  "convert_log cd e = \<lparr>dl_timestamp = lg_timestamp e, dl_level = lg_level e, dl_source = lg_source e,
     dl_message = lg_message e,
     dl_attributes = (if lg_attributes e = '''' then [] else lc_attrs cd (lg_attributes e))\<rparr>"

definition convert_repo_result :: "repository_result \<Rightarrow> repo_row" where
  "convert_repo_result r = \<lparr>rw_repository_id = rr_repository_id r, rw_repository_name = rr_repository_name r,
     rw_status = rr_status r, rw_snapshot_id = non_empty (rr_snapshot_id r), rw_error = non_empty (rr_error r),
     rw_files_new = non_zero (rr_files_new r), rw_files_changed = non_zero (rr_files_changed r),
     rw_files_unmodified = non_zero (rr_files_unmodified r), rw_bytes_added = non_zero (rr_bytes_added r),
     rw_total_bytes = non_zero (rr_total_bytes r), rw_duration_ms = non_zero (rr_duration_ms r)\<rparr>"

definition convert_hook_report :: "hook_report \<Rightarrow> hook_row" where
  "convert_hook_report r = \<lparr>hw_hook_name = hp_hook_name r, hw_phase = hp_phase r, hw_status = hp_status r,
     hw_error = non_empty (hp_error r), hw_duration_ms = non_zero (hp_duration_ms r)\<rparr>"

text \<open>
  The job row a report describes. \<open>ctxAgent\<close> is the id the interceptor authenticated, empty
  when there is none; both timestamps are set, as the agent always sets them.
\<close>

definition job_of_report :: "log_codec \<Rightarrow> string \<Rightarrow> string \<Rightarrow> report_request \<Rightarrow> job" where
  "job_of_report cd ctxAgent uuid req =
    \<lparr>jb_id = (if jr_job_id req = '''' then uuid else jr_job_id req),
     jb_agent_id = (if ctxAgent = '''' then rq_agent_id req else ctxAgent),
     jb_plan_id = non_empty (jr_plan_id req),
     jb_plan_name = jr_plan_name req, jb_type = jr_type req, jb_trigger = jr_trigger req,
     jb_status = jr_status req, jb_started_at = jr_started_at req, jb_finished_at = Some (jr_finished_at req),
     jb_log_tail = (if rq_log_entries req \<noteq> [] then Some (lc_marshal cd (map (convert_log cd) (rq_log_entries req)))
                    else non_empty (rq_log_tail req)),
     jb_created_at = 0,
     jb_repo_results = map convert_repo_result (jr_repository_results req),
     jb_hook_results = map convert_hook_report (jr_hook_results req)\<rparr>"

definition store_job_report :: "server_env \<Rightarrow> ctx \<Rightarrow> job \<Rightarrow> store \<Rightarrow> unit result \<times> store" where
  "store_job_report v c j s =
    (if jb_status j = ''aborted'' then create_job v c j s
     else case jb_plan_id j of
       None \<Rightarrow> create_job v c j s
     | Some p \<Rightarrow>
       (if p = '''' then create_job v c j s
        else case find_planned_job v c (jb_agent_id j) p s of
          (Inr (Some planned), s1) \<Rightarrow> complete_job v c (j\<lparr>jb_id := jb_id planned\<rparr>) s1
        | (_, s1) \<Rightarrow> create_job v c j s1))"

record job_report_ack =
  ja_success :: bool
  ja_error :: string

definition completed_event :: "job \<Rightarrow> event" where
  "completed_event j = \<lparr>ev_type = ''job.completed'', ev_payload = [(''id'', jb_id j), (''status'', jb_status j)]\<rparr>"

definition report_job ::
  "log_codec \<Rightarrow> server_env \<Rightarrow> (event \<Rightarrow> string result) \<Rightarrow> ctx \<Rightarrow> string \<Rightarrow> report_request
    \<Rightarrow> store \<times> hub \<Rightarrow> job_report_ack \<times> (store \<times> hub)" where
  "report_job cd v marshal c ctxAgent req sh =
    (case sh of (s, h) \<Rightarrow>
      (let j = job_of_report cd ctxAgent (se_uuid v (st_tick s)) req
       in case store_job_report v c j s of
            (Inl er, s1) \<Rightarrow> (\<lparr>ja_success = False, ja_error = ''failed to store job: '' @ error_text er\<rparr>, (s1, h))
          | (Inr _, s1) \<Rightarrow> (\<lparr>ja_success = True, ja_error = ''''\<rparr>, (s1, hub_broadcast marshal (completed_event j) h))))"

section \<open>Heartbeats and live logs\<close>

definition convert_running :: "(int \<Rightarrow> string) \<Rightarrow> running_job \<Rightarrow> current_job_info" where
  "convert_running rfc3339 rj = \<lparr>cj_plan_name = rj_plan_name rj, cj_progress = rj_progress rj,
     cj_started_at = (case rj_started_at rj of None \<Rightarrow> '''' | Some t \<Rightarrow> rfc3339 t)\<rparr>"

definition plan_named :: "string \<Rightarrow> plan_row list \<Rightarrow> string" where
  "plan_named planName plans = (case find (\<lambda>p. pr_name p = planName) plans of None \<Rightarrow> '''' | Some p \<Rightarrow> pr_id p)"

definition handle_job_started ::
  "server_env \<Rightarrow> (event \<Rightarrow> string result) \<Rightarrow> ctx \<Rightarrow> string \<Rightarrow> current_job_info option
    \<Rightarrow> store \<times> hub \<Rightarrow> store \<times> hub" where
  "handle_job_started v marshal c agentID currentJob sh =
    (case sh of (s, h) \<Rightarrow>
      (case currentJob of
         None \<Rightarrow> (s, h)
       | Some cj \<Rightarrow>
         (case list_plans v c agentID s of
            (Inl _, s1) \<Rightarrow> (s1, h)
          | (Inr plans, s1) \<Rightarrow>
            (let planID = plan_named (cj_plan_name cj) plans
             in if planID = '''' then (s1, h)
             else case find_planned_job v c agentID planID s1 of
               (Inl _, s2) \<Rightarrow> (s2, h)
             | (Inr planned, s2) \<Rightarrow>
               (let s3 = (case planned of None \<Rightarrow> s2
                          | Some p \<Rightarrow> snd (update_job_status v c (jb_id p) ''running'' None None s2));
                    jobID = (case planned of None \<Rightarrow> '''' | Some p \<Rightarrow> jb_id p)
                in (s3, hub_broadcast marshal \<lparr>ev_type = ''job.started'',
                     ev_payload = [(''job_id'', jobID), (''agent_id'', agentID), (''plan_id'', planID),
                       (''plan_name'', cj_plan_name cj), (''started_at'', cj_started_at cj),
                       (''progress_percent'', show_int (cj_progress cj))]\<rparr> h))))))"

definition handle_live_logs ::
  "log_codec \<Rightarrow> server_env \<Rightarrow> (event \<Rightarrow> string result) \<Rightarrow> ctx \<Rightarrow> string \<Rightarrow> string \<Rightarrow> log_entry list
    \<Rightarrow> store \<times> hub \<Rightarrow> store \<times> hub" where
  "handle_live_logs cd v marshal c agentID jobID entries sh =
    (case sh of (s, h) \<Rightarrow>
      (if entries = [] then (s, h)
       else
         (let s1 = (if jobID = '''' then s
                    else snd (append_job_logs cd v c jobID (map (convert_log cd) entries) s))
          in (s1, hub_broadcast marshal \<lparr>ev_type = ''job.live_logs'',
               ev_payload = [(''agent_id'', agentID), (''job_id'', jobID)]\<rparr> h))))"

section \<open>Lemmas\<close>

text \<open>How the rows of the job table may change: not at all, by one new row, or by one row completed.\<close>

lemma create_job_cases:
  assumes "create_job v c j s = (res, s')"
  shows "(res \<noteq> Inr () \<and> st_jobs s' = st_jobs s)
    \<or> (res = Inr () \<and> (\<exists>r. st_jobs s' = st_jobs s @ [r] \<and> jb_id r \<notin> set (job_ids s)
        \<and> jb_status r = jb_status j \<and> jb_agent_id r = jb_agent_id j \<and> jb_plan_id r = jb_plan_id j
        \<and> jb_log_tail r = jb_log_tail j
        \<and> jb_repo_results r = jb_repo_results j \<and> jb_hook_results r = jb_hook_results j
        \<and> (jb_id j \<noteq> '''' \<longrightarrow> jb_id r = jb_id j)))"
  using transaction_cases[OF assms[unfolded create_job_def Let_def]]
  by (elim disjE exE conjE) (auto)

lemma complete_job_cases:
  assumes "complete_job v c j s = (res, s')"
  shows "(res \<noteq> Inr () \<and> st_jobs s' = st_jobs s)
    \<or> (res = Inr () \<and> st_jobs s' = map (\<lambda>r. if jb_id r = jb_id j then complete_row j r else r) (st_jobs s))"
  using transaction_cases[OF assms[unfolded complete_job_def Let_def]]
  by (elim disjE exE conjE) (simp_all add: update_row_def)

lemma find_planned_cases:
  assumes "find_planned_job v c a p s = (res, s')"
  shows "st_jobs s' = st_jobs s \<and> st_repos s' = st_repos s \<and> st_agents s' = st_agents s \<and> st_plans s' = st_plans s
    \<and> (\<forall>r. res = Inr (Some r) \<longrightarrow> r \<in> set (st_jobs s) \<and> active a p r)"
proof (cases "sql_outcome (se_sql v) c (st_tick s)")
  case None
  then have r: "res = Inr (newest (filter (active a p) (st_jobs s)))" "s' = s\<lparr>st_tick := Suc (st_tick s)\<rparr>"
    using assms by (simp_all add: find_planned_job_def)
  have "\<forall>r. res = Inr (Some r) \<longrightarrow> r \<in> set (st_jobs s) \<and> active a p r"
  proof (intro allI impI)
    fix r' assume "res = Inr (Some r')"
    then have "newest (filter (active a p) (st_jobs s)) = Some r'" using r(1) by simp
    from newest_Some[OF this] show "r' \<in> set (st_jobs s) \<and> active a p r'" by simp
  qed
  with r(2) show ?thesis by simp
next
  case (Some er)
  then show ?thesis using assms by (auto simp: find_planned_job_def)
qed

lemma store_report_cases:
  assumes "store_job_report v c j s = (res, s')"
  shows "(res \<noteq> Inr () \<and> st_jobs s' = st_jobs s)
    \<or> (res = Inr () \<and> (\<exists>r. st_jobs s' = st_jobs s @ [r] \<and> jb_id r \<notin> set (job_ids s) \<and> jb_status r = jb_status j
        \<and> jb_repo_results r = jb_repo_results j \<and> jb_hook_results r = jb_hook_results j
        \<and> jb_log_tail r = jb_log_tail j \<and> jb_agent_id r = jb_agent_id j))
    \<or> (res = Inr () \<and> jb_status j \<noteq> ''aborted''
        \<and> (\<exists>p planned. jb_plan_id j = Some p \<and> planned \<in> set (st_jobs s) \<and> active (jb_agent_id j) p planned
            \<and> st_jobs s' = map (\<lambda>r. if jb_id r = jb_id planned then complete_row j r else r) (st_jobs s)))"
proof -
  have new: "(res \<noteq> Inr () \<and> st_jobs s' = st_jobs s0)
    \<or> (res = Inr () \<and> (\<exists>r. st_jobs s' = st_jobs s0 @ [r] \<and> jb_id r \<notin> set (job_ids s0) \<and> jb_status r = jb_status j
        \<and> jb_repo_results r = jb_repo_results j \<and> jb_hook_results r = jb_hook_results j
        \<and> jb_log_tail r = jb_log_tail j \<and> jb_agent_id r = jb_agent_id j))" if "create_job v c j s0 = (res, s')" for s0
    using create_job_cases[OF that] by blast
  show ?thesis
  proof (cases "jb_status j = ''aborted'' \<or> jb_plan_id j = None \<or> jb_plan_id j = Some ''''")
    case True
    then have "create_job v c j s = (res, s')" using assms
      by (auto simp: store_job_report_def split: if_splits)
    from new[OF this] show ?thesis by blast
  next
    case False
    then obtain p where p: "jb_plan_id j = Some p" "p \<noteq> ''''" "jb_status j \<noteq> ''aborted''" by auto
    obtain f s1 where f: "find_planned_job v c (jb_agent_id j) p s = (f, s1)" by fastforce
    note fc = find_planned_cases[OF f]
    show ?thesis
    proof (cases "\<exists>planned. f = Inr (Some planned)")
      case True
      then obtain planned where pl: "f = Inr (Some planned)" by blast
      then have "complete_job v c (j\<lparr>jb_id := jb_id planned\<rparr>) s1 = (res, s')"
        using assms p f by (simp add: store_job_report_def)
      moreover have "complete_row (j\<lparr>jb_id := x\<rparr>) = complete_row j" for x
        by (rule ext) (simp add: complete_row_def)
      ultimately show ?thesis using complete_job_cases[of v c "j\<lparr>jb_id := jb_id planned\<rparr>" s1 res s'] fc pl p
        by auto
    next
      case False
      then have "create_job v c j s1 = (res, s')"
        using assms p f by (auto simp: store_job_report_def split: sum.splits option.splits)
      from new[OF this] fc show ?thesis by (auto simp: job_ids_def)
    qed
  qed
qed

section \<open>Properties\<close>

text \<open>
  C31. A report is stored as a whole or not at all: when the acknowledgement reports an error
  the job table and the hub are unchanged, and when it reports success exactly one row
  records the report, which is either a new row with the report's status and results, or the
  planned or running row of the same agent and plan with them added; no other row changes.
\<close>

theorem report_stored_or_nothing:
  assumes "report_job cd v marshal c ctxAgent req (s, h) = (ack, (s', h'))"
    and "j = job_of_report cd ctxAgent (se_uuid v (st_tick s)) req"
  shows "(if ja_success ack
      then (\<exists>r. st_jobs s' = st_jobs s @ [r] \<and> jb_id r \<notin> set (job_ids s) \<and> jb_status r = jb_status j
              \<and> jb_repo_results r = jb_repo_results j \<and> jb_hook_results r = jb_hook_results j)
        \<or> (\<exists>p planned. jb_plan_id j = Some p \<and> planned \<in> set (st_jobs s) \<and> active (jb_agent_id j) p planned
              \<and> st_jobs s' = map (\<lambda>r. if jb_id r = jb_id planned then complete_row j r else r) (st_jobs s))
      else st_jobs s' = st_jobs s \<and> h' = h)"
proof -
  obtain res s1 where r: "store_job_report v c j s = (res, s1)" by fastforce
  then have e: "s' = s1 \<and> (ja_success ack \<longleftrightarrow> res = Inr ()) \<and> (res \<noteq> Inr () \<longrightarrow> h' = h)"
    using assms by (auto simp: report_job_def Let_def split: sum.splits)
  from store_report_cases[OF r] show ?thesis
    by (elim disjE exE conjE; use e in \<open>simp; blast?\<close>)
qed

definition example_env :: "bool \<Rightarrow> server_env" where
  "example_env fk = \<lparr>se_sql = calm, se_now = int, se_uuid = (\<lambda>t. ''u'' @ show_nat t), se_foreign_keys = fk, se_plans_first = True\<rparr>"

definition example_codec :: log_codec where
  "example_codec = \<lparr>lc_attrs = \<lambda>_. [], lc_marshal = \<lambda>es. concat (map dl_message es), lc_unmarshal = \<lambda>_. None\<rparr>"

definition planned_row :: "string \<Rightarrow> job" where
  "planned_row i = \<lparr>jb_id = i, jb_agent_id = ''a'', jb_plan_id = Some ''p'', jb_plan_name = ''etc'',
     jb_type = ''backup'', jb_trigger = ''manual'', jb_status = ''planned'', jb_started_at = 1,
     jb_finished_at = None, jb_log_tail = None, jb_created_at = 1, jb_repo_results = [], jb_hook_results = []\<rparr>"

definition example_agent :: agent_row where
  "example_agent = \<lparr>ag_id = ''a'', ag_name = ''web'', ag_hostname = ''web'', ag_os = None, ag_status = ''approved'',
     ag_api_key = Some ''k'', ag_agent_version = None, ag_restic_version = None, ag_rclone_version = None,
     ag_rclone_config = None, ag_last_heartbeat = None, ag_last_job_at = None, ag_config_version = 1, ag_config_applied_at = None,
     ag_command_timeouts = None, ag_outbox_overrides = None, ag_created_at = 0, ag_updated_at = 0\<rparr>"

definition example_plan_row :: plan_row where
  "example_plan_row = \<lparr>pr_id = ''p'', pr_name = ''etc'', pr_agent_id = ''a'', pr_schedule = ''@daily'',
     pr_paths = [''/etc''], pr_excludes = [], pr_tags = [], pr_repository_ids = [''r1''], pr_created_at = 0,
     pr_updated_at = 0, pr_prune_schedule = None, pr_retention = None, pr_forget_after_backup = True,
     pr_prune_after_forget = True, pr_enabled = True\<rparr>"

definition example_repo_row :: repository_row where
  "example_repo_row = \<lparr>ry_id = ''r1'', ry_name = ''disk'', ry_scope = ''global'', ry_agent_id = None,
     ry_type = ''local'', ry_path = ''/mnt'', ry_password = ''pw'', ry_created_at = 0, ry_updated_at = 0\<rparr>"

lemma example_rows [simp]:
  "pr_id example_plan_row = ''p''" "pr_name example_plan_row = ''etc''" "pr_agent_id example_plan_row = ''a''"
  "pr_repository_ids example_plan_row = [''r1'']" "ry_id example_repo_row = ''r1''" "ry_name example_repo_row = ''disk''"
  "ry_agent_id example_repo_row = None" "ry_password example_repo_row = ''pw''"
  by (simp_all add: example_plan_row_def example_repo_row_def)

definition example_store :: store where
  "example_store = \<lparr>st_tick = 0, st_agents = [example_agent],
     st_plans = [example_plan_row], st_repos = [example_repo_row],
     st_jobs = [planned_row ''j0''], st_hooks = [], st_scripts = [], st_settings = []\<rparr>"

definition example_report :: "string \<Rightarrow> report_request" where
  "example_report repo = \<lparr>jr_job_id = ''j1'', jr_plan_id = ''p'', jr_plan_name = ''etc'', jr_type = ''backup'',
     jr_trigger = ''manual'', jr_status = ''success'', jr_started_at = 2, jr_finished_at = 3,
     jr_repository_results = [empty_result\<lparr>rr_repository_id := repo, rr_status := ''success''\<rparr>],
     jr_hook_results = [], rq_agent_id = ''a'', rq_api_key = ''k'', rq_log_entries = [], rq_log_tail = ''''\<rparr>"

text \<open>The constraints a report's rows meet, when foreign keys are enforced.\<close>

definition report_fits :: "server_env \<Rightarrow> job \<Rightarrow> store \<Rightarrow> bool" where
  "report_fits v j s \<longleftrightarrow> job_fks v j s
    \<and> (se_foreign_keys v \<longrightarrow> list_all (\<lambda>r. rw_repository_id r \<in> set (repo_ids s)) (jb_repo_results j))"

lemma complete_job_ok:
  assumes "fault_free (se_sql v)" and "report_fits v j s" and "jb_id j \<in> set (job_ids s)"
  shows "\<exists>t. complete_job v background j s = (Inr (), (update_row (jb_id j) (complete_row j) s)\<lparr>st_tick := t\<rparr>)"
  using assms unfolding complete_job_def Let_def
  by (subst transaction_ok) (auto simp: report_fits_def repo_stmts_def hook_stmts_def list_all_iff)

lemma create_job_ok:
  assumes "fault_free (se_sql v)" and "report_fits v j s" and "jb_id j \<noteq> ''''" and "jb_id j \<notin> set (job_ids s)"
  shows "\<exists>t. create_job v background j s = (Inr (), s\<lparr>st_jobs := st_jobs s @ [j\<lparr>jb_created_at := se_now v (st_tick s)\<rparr>],
      st_tick := t\<rparr>)"
  using assms unfolding create_job_def Let_def
  by (subst transaction_ok) (auto simp: report_fits_def repo_stmts_def hook_stmts_def list_all_iff job_fks_def)

lemma find_planned_ok:
  "fault_free (se_sql v) \<Longrightarrow> find_planned_job v background a p s
    = (Inr (newest (filter (active a p) (st_jobs s))), s\<lparr>st_tick := Suc (st_tick s)\<rparr>)"
  by (simp add: find_planned_job_def)

lemma newest_singleton [simp]: "newest [r] = Some r"
  by (simp add: newest_def)

text \<open>
  Storing a report is not idempotent: when the acknowledgement of a report is lost and the
  agent sends the same report again, the first delivery completes the planned row and the
  second, finding no planned row, adds a second row for the same run under the agent's own
  job id, and both are acknowledged as stored.
\<close>

theorem retried_report_is_stored_twice:
  assumes "fault_free (se_sql v)" and "jb_plan_id j = Some p" and "p \<noteq> ''''"
    and "filter (active (jb_agent_id j) p) (st_jobs s) = [planned]"
    and "jb_status j \<notin> {''aborted'', ''planned'', ''running''}"
    and "jb_id j \<noteq> ''''" and "jb_id j \<notin> set (job_ids s)"
    and "report_fits v j s" and "store_wf s"
  shows "\<exists>s1 s2 r. store_job_report v background j s = (Inr (), s1)
    \<and> store_job_report v background j s1 = (Inr (), s2)
    \<and> length (st_jobs s2) = length (st_jobs s) + 1
    \<and> last (st_jobs s2) = j\<lparr>jb_created_at := r\<rparr>
    \<and> planned\<lparr>jb_status := jb_status j, jb_started_at := jb_started_at j, jb_finished_at := jb_finished_at j,
        jb_log_tail := jb_log_tail j, jb_repo_results := jb_repo_results planned @ jb_repo_results j,
        jb_hook_results := jb_hook_results planned @ jb_hook_results j\<rparr> \<in> set (st_jobs s2)"
proof -
  have pl: "planned \<in> set (st_jobs s)" "active (jb_agent_id j) p planned"
  proof -
    have "planned \<in> set (filter (active (jb_agent_id j) p) (st_jobs s))" unfolding assms(4) by simp
    then show "planned \<in> set (st_jobs s)" "active (jb_agent_id j) p planned" by simp_all
  qed
  let ?s0 = "s\<lparr>st_tick := Suc (st_tick s)\<rparr>"
  let ?j = "j\<lparr>jb_id := jb_id planned\<rparr>"
  have fits: "report_fits v ?j ?s0" using assms(8) by (simp add: report_fits_def job_fks_def split: option.splits)
  have "jb_id planned \<in> set (job_ids ?s0)" using pl(1) by (simp add: job_ids_def)
  then obtain t1 where c1: "complete_job v background ?j ?s0
      = (Inr (), (update_row (jb_id planned) (complete_row ?j) ?s0)\<lparr>st_tick := t1\<rparr>)"
    using complete_job_ok[OF assms(1) fits] by auto
  define s1 where "s1 = (update_row (jb_id planned) (complete_row ?j) ?s0)\<lparr>st_tick := t1\<rparr>"
  have 1: "store_job_report v background j s = (Inr (), s1)"
    using assms(2-5) c1 by (simp add: store_job_report_def find_planned_ok[OF assms(1)] s1_def)
  have jobs1: "st_jobs s1 = map (\<lambda>r. if jb_id r = jb_id planned then complete_row j r else r) (st_jobs s)"
    by (simp add: s1_def update_row_def complete_row_def cong: if_cong)
  have none: "filter (active (jb_agent_id j) p) (st_jobs s1) = []"
  proof -
    have "r = planned" if "r \<in> set (st_jobs s)" "active (jb_agent_id j) p r" for r
    proof -
      have "r \<in> set (filter (active (jb_agent_id j) p) (st_jobs s))" using that by simp
      then show ?thesis using assms(4) by simp
    qed
    moreover have "\<not> active (jb_agent_id j) p (complete_row j r)" for r
      using assms(5) by (simp add: active_def complete_row_def)
    ultimately show ?thesis unfolding jobs1 by (auto simp: filter_empty_conv)
  qed
  have ids: "job_ids s1 = job_ids s"
    unfolding job_ids_def jobs1 by (simp add: complete_row_def)
  have fits1: "report_fits v j (s1\<lparr>st_tick := Suc (st_tick s1)\<rparr>)"
    using assms(8) by (simp add: report_fits_def job_fks_def s1_def update_row_def split: option.splits)
  obtain t2 where c2: "create_job v background j (s1\<lparr>st_tick := Suc (st_tick s1)\<rparr>) =
      (Inr (), s1\<lparr>st_jobs := st_jobs s1 @ [j\<lparr>jb_created_at := se_now v (Suc (st_tick s1))\<rparr>], st_tick := t2\<rparr>)"
    using create_job_ok[OF assms(1) fits1 assms(6)] assms(7)[folded ids] by (auto simp: job_ids_def)
  define s2 where "s2 = s1\<lparr>st_jobs := st_jobs s1 @ [j\<lparr>jb_created_at := se_now v (Suc (st_tick s1))\<rparr>], st_tick := t2\<rparr>"
  have 2: "store_job_report v background j s1 = (Inr (), s2)"
    using assms(2,3,5) c2 none by (simp add: store_job_report_def find_planned_ok[OF assms(1)] newest_def s2_def)
  have "complete_row j planned \<in> set (st_jobs s2)" using pl(1) by (auto simp: s2_def jobs1)
  then show ?thesis using 1 2 by (intro exI[of _ s1] exI[of _ s2]) (auto simp: s2_def jobs1 complete_row_def)
qed

theorem retried_report_is_stored_twice_witness:
  "\<exists>s1 s2. store_job_report (example_env True) background (job_of_report example_codec ''a'' ''u'' (example_report ''r1''))
      example_store = (Inr (), s1)
    \<and> store_job_report (example_env True) background (job_of_report example_codec ''a'' ''u'' (example_report ''r1'')) s1
      = (Inr (), s2) \<and> length (st_jobs s2) = 2"
proof -
  let ?j = "job_of_report example_codec ''a'' ''u'' (example_report ''r1'')"
  have j: "jb_plan_id ?j = Some ''p''" "jb_agent_id ?j = ''a''" "jb_status ?j = ''success''" "jb_id ?j = ''j1''"
    by (simp_all add: job_of_report_def example_report_def non_empty_def)
  have f: "filter (active ''a'' ''p'') (st_jobs example_store) = [planned_row ''j0'']"
    by (simp add: example_store_def planned_row_def active_def)
  have "report_fits (example_env True) ?j example_store"
    by (simp add: report_fits_def job_fks_def j example_store_def example_agent_def)
      (simp add: job_of_report_def example_report_def convert_repo_result_def empty_result_def)
  moreover have "store_wf example_store" and "''j1'' \<notin> set (job_ids example_store)"
    by (simp_all add: store_wf_def job_ids_def example_store_def planned_row_def)
  moreover have "fault_free (se_sql (example_env True))" by (simp add: example_env_def)
  ultimately obtain s1 s2 where "store_job_report (example_env True) background ?j example_store = (Inr (), s1)"
    "store_job_report (example_env True) background ?j s1 = (Inr (), s2)"
    "length (st_jobs s2) = length (st_jobs example_store) + 1"
    using retried_report_is_stored_twice[of "example_env True" ?j "''p''" example_store "planned_row ''j0''"] j f
    by auto
  then show ?thesis by (auto simp: example_store_def)
qed

text \<open>
  A report of a trigger that was refused never touches a row that is already there: the
  old rows are all kept as they are, in front, whether the report is stored or not, also
  when a job of the same plan is planned or running.
\<close>

theorem aborted_report_keeps_rows:
  assumes "jb_status j = ''aborted''" and "store_job_report v c j s = (res, s')"
  shows "take (length (st_jobs s)) (st_jobs s') = st_jobs s \<and> length (st_jobs s') \<le> Suc (length (st_jobs s))"
  using store_report_cases[OF assms(2)] assms(1) by auto

theorem aborted_report_keeps_rows_witness:
  "take 1 (st_jobs (snd (store_job_report (example_env True) background
      ((job_of_report example_codec ''a'' ''u'' (example_report ''r1''))\<lparr>jb_status := ''aborted''\<rparr>) example_store)))
    = [planned_row ''j0'']"
proof -
  let ?j = "(job_of_report example_codec ''a'' ''u'' (example_report ''r1''))\<lparr>jb_status := ''aborted''\<rparr>"
  obtain res s' where "store_job_report (example_env True) background ?j example_store = (res, s')" by fastforce
  from aborted_report_keeps_rows[OF _ this] this show ?thesis by (simp add: example_store_def)
qed

text \<open>
  With foreign keys enforced, a report with a result for a repository the server does not
  know is refused every time it is sent, whatever else it holds and however the run ended:
  deleting a repository, or skipping one that is missing from the agent's configuration,
  makes the history of the run undeliverable.
\<close>

theorem unknown_repository_refused:
  assumes "se_foreign_keys v" and "rr \<in> set (jr_repository_results req)"
    and "rr_repository_id rr \<notin> set (repo_ids s)"
  shows "\<not> ja_success (fst (report_job cd v marshal c ctxAgent req (s, h)))
    \<and> st_jobs (fst (snd (report_job cd v marshal c ctxAgent req (s, h)))) = st_jobs s"
proof -
  define j where "j = job_of_report cd ctxAgent (se_uuid v (st_tick s)) req"
  have rows: "\<exists>r \<in> set (jb_repo_results j'). rw_repository_id r \<notin> set (repo_ids s)"
    if "jb_repo_results j' = jb_repo_results j" for j'
    using that assms(2,3) by (force simp: j_def job_of_report_def convert_repo_result_def)
  have bad: "list_ex (\<lambda>p. \<not> snd p) (repo_stmts v ex (jb_repo_results j') s0)"
    if "jb_repo_results j' = jb_repo_results j" "st_repos s0 = st_repos s" for j' ex s0
    using rows[OF that(1)] that(2) assms(1) by (auto simp: repo_stmts_def list_ex_iff image_iff)
  have create: "fst (create_job v c j s0) \<noteq> Inr ()" if "st_repos s0 = st_repos s" for s0
    using bad[of j s0 True] that unfolding create_job_def Let_def
    by (intro transaction_bad) simp
  have complete: "fst (complete_job v c j' s0) \<noteq> Inr ()"
    if "st_repos s0 = st_repos s" "jb_repo_results j' = jb_repo_results j" for s0 j'
    using bad[OF that(2,1)] unfolding complete_job_def Let_def
    by (intro transaction_bad) simp
  obtain res s1 where r: "store_job_report v c j s = (res, s1)" by fastforce
  have "res \<noteq> Inr ()"
  proof (cases "\<exists>p. jb_plan_id j = Some p \<and> p \<noteq> '''' \<and> jb_status j \<noteq> ''aborted''")
    case True
    then obtain p where p: "jb_plan_id j = Some p" "p \<noteq> ''''" "jb_status j \<noteq> ''aborted''" by blast
    obtain f s2 where f: "find_planned_job v c (jb_agent_id j) p s = (f, s2)" by fastforce
    have s2: "st_repos s2 = st_repos s" using find_planned_cases[OF f] by simp
    show ?thesis
    proof
      assume "res = Inr ()"
      with r p f create[OF s2] obtain x :: job where
        "complete_job v c (j\<lparr>jb_id := jb_id x\<rparr>) s2 = (Inr (), s1)"
        by (auto simp: store_job_report_def split: sum.splits option.splits)
      then show False using complete[OF s2, of "j\<lparr>jb_id := jb_id x\<rparr>"] by simp
    qed
  next
    case False
    then have "create_job v c j s = (res, s1)" using r
      by (auto simp: store_job_report_def split: if_splits option.splits)
    then show ?thesis using create[of s] by simp
  qed
  moreover have "st_jobs s1 = st_jobs s" using store_report_cases[OF r] \<open>res \<noteq> Inr ()\<close> by blast
  ultimately show ?thesis using r by (auto simp: report_job_def Let_def j_def split: sum.split)
qed

theorem unknown_repository_refused_witness:
  "\<not> ja_success (fst (report_job example_codec (example_env True) (\<lambda>_. Inr '''') background ''a''
      (example_report ''gone'') (example_store, new_hub)))"
  by (intro conjunct1[OF unknown_repository_refused[where rr = "empty_result\<lparr>rr_repository_id := ''gone'', rr_status := ''success''\<rparr>"]])
    (simp_all add: example_env_def example_report_def example_store_def)

text \<open>
  Marking a planned job as running deletes the log lines already stored for it: the
  update writes the log column with nothing in it, so lines that live logging appended
  before the heartbeat (or before a reconnect, after which the job counts as started again)
  are lost until the final report.
\<close>

theorem job_started_wipes_logs:
  assumes "fault_free (se_sql v)" and "agentID \<noteq> ''''"
    and "filter (active agentID (plan_named (cj_plan_name cj) (agent_plans agentID s))) (st_jobs s) = [planned]"
    and "plan_named (cj_plan_name cj) (agent_plans agentID s) \<noteq> ''''" and "jb_log_tail planned = Some t"
  shows "planned\<lparr>jb_status := ''running'', jb_finished_at := None, jb_log_tail := None\<rparr>
    \<in> set (st_jobs (fst (handle_job_started v marshal background agentID (Some cj) (s, h))))"
proof -
  let ?p = "plan_named (cj_plan_name cj) (agent_plans agentID s)"
  have "planned \<in> set (filter (active agentID ?p) (st_jobs s))" unfolding assms(3) by simp
  then have pl: "planned \<in> set (st_jobs s)" by simp
  obtain t where "list_plans v background agentID s = (Inr (agent_plans agentID s), s\<lparr>st_tick := t\<rparr>)"
    using list_plans_ok[OF assms(1,2)] by blast
  then show ?thesis using assms(1,3,4) pl
    by (force simp: handle_job_started_def find_planned_ok update_job_status_def exec_rows_def statement_ok
        update_row_def job_ids_def Let_def simp del: background_simp split: if_splits)
qed

theorem job_started_wipes_logs_witness:
  "(planned_row ''j0'')\<lparr>jb_status := ''running'', jb_finished_at := None, jb_log_tail := None\<rparr>
    \<in> set (st_jobs (fst (handle_job_started (example_env True) (\<lambda>_. Inr '''') background ''a''
        (Some \<lparr>cj_plan_name = ''etc'', cj_progress = - 1, cj_started_at = ''''\<rparr>)
        (example_store\<lparr>st_jobs := [(planned_row ''j0'')\<lparr>jb_log_tail := Some ''line''\<rparr>]\<rparr>, new_hub))))"
proof -
  let ?s = "example_store\<lparr>st_jobs := [(planned_row ''j0'')\<lparr>jb_log_tail := Some ''line''\<rparr>]\<rparr>"
  let ?cj = "\<lparr>cj_plan_name = ''etc'', cj_progress = - 1, cj_started_at = ''''\<rparr>"
  have p: "plan_named (cj_plan_name ?cj) (agent_plans ''a'' ?s) = ''p''"
    by (simp add: plan_named_def agent_plans_def example_store_def)
  have "((planned_row ''j0'')\<lparr>jb_log_tail := Some ''line''\<rparr>)\<lparr>jb_status := ''running'', jb_finished_at := None,
      jb_log_tail := None\<rparr> \<in> set (st_jobs (fst (handle_job_started (example_env True) (\<lambda>_. Inr '''') background ''a''
        (Some ?cj) (?s, new_hub))))"
  proof (rule job_started_wipes_logs[where t = "''line''"])
    show "filter (active ''a'' (plan_named (cj_plan_name ?cj) (agent_plans ''a'' ?s))) (st_jobs ?s)
        = [(planned_row ''j0'')\<lparr>jb_log_tail := Some ''line''\<rparr>]"
      unfolding p by (simp add: active_def planned_row_def)
    show "plan_named (cj_plan_name ?cj) (agent_plans ''a'' ?s) \<noteq> ''''" unfolding p by simp
  qed (simp_all add: example_env_def)
  then show ?thesis by simp
qed

text \<open>
  Live log lines are appended to the job they name without looking at whose job it is: a
  message from an agent writes into the log of a job that belongs to another agent.
\<close>

theorem live_logs_ignore_owner:
  assumes "fault_free (se_sql v)" and "find_job jobID s = Some r" and "jb_agent_id r \<noteq> agentID"
    and "jobID \<noteq> ''''" and "entries \<noteq> []"
  shows "find_job jobID (fst (handle_live_logs cd v marshal background agentID jobID entries (s, h)))
    = Some (r\<lparr>jb_log_tail := Some (lc_marshal cd (existing_logs cd (jb_log_tail r) @ map (convert_log cd) entries))\<rparr>)"
proof -
  let ?f = "\<lambda>r. r\<lparr>jb_log_tail := Some (lc_marshal cd (existing_logs cd (jb_log_tail r) @ map (convert_log cd) entries))\<rparr>"
  have "find_job jobID (update_row jobID ?f s') = map_option ?f (find_job jobID s')" for s'
    by (rule find_job_update) simp
  with assms show ?thesis
    by (simp add: handle_live_logs_def append_job_logs_def statement_ok Let_def)
qed

theorem live_logs_ignore_owner_witness:
  "jb_log_tail (the (find_job ''j0'' (fst (handle_live_logs example_codec (example_env True) (\<lambda>_. Inr '''')
      background ''intruder'' ''j0'' [\<lparr>lg_timestamp = '''', lg_level = '''', lg_source = '''',
        lg_message = ''forged'', lg_attributes = ''''\<rparr>] (example_store, new_hub))))) = Some ''forged''"
proof -
  have "find_job ''j0'' example_store = Some (planned_row ''j0'')" and "jb_agent_id (planned_row ''j0'') \<noteq> ''intruder''"
    by (simp_all add: find_job_def example_store_def planned_row_def)
  from live_logs_ignore_owner[OF _ this, of "example_env True"] show ?thesis
    by (simp add: example_env_def example_codec_def convert_log_def existing_logs_def planned_row_def)
qed

theorem report_stored_or_nothing_witness:
  "\<exists>s' h'. report_job example_codec (example_env True) (\<lambda>_. Inr '''') background ''a'' (example_report ''r1'')
      (example_store, new_hub) = (\<lparr>ja_success = True, ja_error = ''''\<rparr>, (s', h'))
    \<and> map jb_status (st_jobs s') = [''success'']"
proof -
  let ?j = "job_of_report example_codec ''a'' (se_uuid (example_env True) (st_tick example_store)) (example_report ''r1'')"
  have j: "jb_plan_id ?j = Some ''p''" "jb_agent_id ?j = ''a''" "jb_status ?j = ''success''"
    by (simp_all add: job_of_report_def example_report_def non_empty_def)
  have f: "filter (active ''a'' ''p'') (st_jobs example_store) = [planned_row ''j0'']"
    by (simp add: example_store_def planned_row_def active_def)
  have ff: "fault_free (se_sql (example_env True))" by (simp add: example_env_def)
  let ?store = "example_store\<lparr>st_tick := Suc (st_tick example_store)\<rparr>"
  let ?done = "?j\<lparr>jb_id := ''j0''\<rparr>"
  have "report_fits (example_env True) ?done ?store"
    by (simp add: report_fits_def job_fks_def j example_store_def example_agent_def)
      (simp add: job_of_report_def example_report_def convert_repo_result_def empty_result_def non_empty_def)
  moreover have "jb_id ?done \<in> set (job_ids ?store)" by (simp add: job_ids_def example_store_def planned_row_def)
  ultimately obtain t where c: "complete_job (example_env True) background ?done ?store
      = (Inr (), (update_row ''j0'' (complete_row ?done) ?store)\<lparr>st_tick := t\<rparr>)"
    using complete_job_ok[OF ff, of ?done ?store] by auto
  have "store_job_report (example_env True) background ?j example_store
      = (Inr (), (update_row ''j0'' (complete_row ?done) ?store)\<lparr>st_tick := t\<rparr>)"
    using c j f by (simp add: store_job_report_def find_planned_ok[OF ff]) (simp add: planned_row_def)
  then obtain s' where sr: "store_job_report (example_env True) background ?j example_store = (Inr (), s')"
    and s': "length (st_jobs s') = 1"
    by (simp add: update_row_def example_store_def)
  obtain h' where r: "report_job example_codec (example_env True) (\<lambda>_. Inr '''') background ''a''
      (example_report ''r1'') (example_store, new_hub) = (\<lparr>ja_success = True, ja_error = ''''\<rparr>, (s', h'))"
    by (simp add: report_job_def Let_def sr)
  from report_stored_or_nothing[OF r refl] s'
  obtain planned where "planned \<in> set (st_jobs example_store)"
    "st_jobs s' = map (\<lambda>r. if jb_id r = jb_id planned then complete_row ?j r else r) (st_jobs example_store)"
    by (auto simp: example_store_def)
  then have "map jb_status (st_jobs s') = [''success'']"
    using j(3) by (simp add: example_store_def complete_row_def planned_row_def)
  with r show ?thesis by (intro exI conjI)
qed

end
