(* ===== verification/HookStore.thy ===== *)
theory HookStore
  imports CatalogStore
begin

text \<open>
  The hooks of plans, the scripts they share and the settings table of the server
  (server/internal/database/hooks.go, scripts.go, settings.go), and the deletion of an agent
  (agents.go), whose cascade reaches all of them.
\<close>

section \<open>Hooks\<close>

text \<open>The check of the schema: a hook names a script or has a command, never both.\<close>

definition hook_check :: "server_env \<Rightarrow> plan_hook \<Rightarrow> store \<Rightarrow> bool" where
  "hook_check v h s \<longleftrightarrow> (ph_script_id h \<noteq> None) = (ph_command h = None)
     \<and> (se_foreign_keys v \<longrightarrow> (case ph_script_id h of None \<Rightarrow> True | Some i \<Rightarrow> i \<in> set (script_ids s)))"

definition create_hook :: "server_env \<Rightarrow> ctx \<Rightarrow> plan_hook \<Rightarrow> store \<Rightarrow> plan_hook result \<times> store" where
  "create_hook v c h0 s =
    (let h = h0\<lparr>ph_id := se_uuid v (st_tick s), ph_created_at := se_now v (st_tick s),
               ph_updated_at := se_now v (st_tick s)\<rparr>
     in case statement v c ''create hook''
               (ph_id h \<notin> set (hook_ids s) \<and> hook_check v h s \<and> (se_foreign_keys v \<longrightarrow> ph_plan_id h \<in> set (plan_ids s)))
               (\<lambda>s. s\<lparr>st_hooks := st_hooks s @ [h]\<rparr>) s of
          (Inl er, s1) \<Rightarrow> (Inl er, s1)
        | (Inr _, s1) \<Rightarrow> (Inr h, s1))"

definition find_hook :: "string \<Rightarrow> store \<Rightarrow> plan_hook option" where
  "find_hook i s = find (\<lambda>h. ph_id h = i) (st_hooks s)"

definition get_hook :: "server_env \<Rightarrow> ctx \<Rightarrow> string \<Rightarrow> store \<Rightarrow> plan_hook option result \<times> store" where
  "get_hook v c i s = query v c ''get hook'' (find_hook i s) s"

definition hooks_of :: "string \<Rightarrow> store \<Rightarrow> plan_hook list" where
  "hooks_of planID s = sort_key (\<lambda>h. (ph_sort_order h, ph_created_at h)) (filter (\<lambda>h. ph_plan_id h = planID) (st_hooks s))"

definition list_hooks :: "server_env \<Rightarrow> ctx \<Rightarrow> string \<Rightarrow> store \<Rightarrow> plan_hook list result \<times> store" where
  "list_hooks v c planID s = query v c ''list hooks'' (hooks_of planID s) s"

definition set_hook :: "(plan_hook \<Rightarrow> bool) \<Rightarrow> (plan_hook \<Rightarrow> plan_hook) \<Rightarrow> store \<Rightarrow> store" where
  "set_hook hit f s = s\<lparr>st_hooks := map (\<lambda>h. if hit h then f h else h) (st_hooks s)\<rparr>"

text \<open>The plan of a hook is not among the columns an update writes.\<close>

definition update_hook :: "server_env \<Rightarrow> ctx \<Rightarrow> plan_hook \<Rightarrow> store \<Rightarrow> unit result \<times> store" where
  "update_hook v c h s =
    (let hit = (ph_id h \<in> set (hook_ids s))
     in exec_rows v c ''update hook'' (hit \<longrightarrow> hook_check v h s) ''update hook: not found'' hit
          (set_hook (\<lambda>x. ph_id x = ph_id h) (\<lambda>x. x\<lparr>ph_on_event := ph_on_event h, ph_sort_order := ph_sort_order h,
             ph_script_id := ph_script_id h, ph_type := ph_type h, ph_command := ph_command h, ph_timeout := ph_timeout h,
             ph_on_error := ph_on_error h, ph_updated_at := se_now v (st_tick s)\<rparr>)) s)"

definition delete_hook :: "server_env \<Rightarrow> ctx \<Rightarrow> string \<Rightarrow> store \<Rightarrow> unit result \<times> store" where
  "delete_hook v c i s =
    exec_rows v c ''delete hook'' True ''delete hook: not found'' (i \<in> set (hook_ids s))
      (\<lambda>s. s\<lparr>st_hooks := filter (\<lambda>h. ph_id h \<noteq> i) (st_hooks s)\<rparr>) s"

text \<open>
  The loop of \<open>ReorderHooks\<close> inside its transaction: the update of the next id, and an error
  when it changed no row, which rolls everything back.
\<close>

fun reorder_from ::
  "server_env \<Rightarrow> ctx \<Rightarrow> string \<Rightarrow> int \<Rightarrow> int \<Rightarrow> string list \<Rightarrow> store \<Rightarrow> unit result \<times> store" where
  "reorder_from v c planID now i [] s = (Inr (), s)"
| "reorder_from v c planID now i (hookID # rest) s =
    (let mine = (\<lambda>h. ph_id h = hookID \<and> ph_plan_id h = planID)
     in case statement v c (''reorder hook '' @ hookID) True
               (set_hook mine (\<lambda>h. h\<lparr>ph_sort_order := i, ph_updated_at := now\<rparr>)) s of
          (Inl er, s1) \<Rightarrow> (Inl er, s1)
        | (Inr _, s1) \<Rightarrow>
          (if list_ex mine (st_hooks s) then reorder_from v c planID now (i + 1) rest s1
           else (Inl (Msg (''reorder hooks: hook '' @ hookID @ '' not found for plan '' @ planID)), s1)))"

definition reorder_hooks :: "server_env \<Rightarrow> ctx \<Rightarrow> string \<Rightarrow> string list \<Rightarrow> store \<Rightarrow> unit result \<times> store" where
  "reorder_hooks v c planID hookIDs s =
    (case statement v c ''begin transaction'' True (\<lambda>s. s) s of
       (Inl er, s1) \<Rightarrow> (Inl er, s1)
     | (Inr _, s1) \<Rightarrow>
       (case reorder_from v c planID (se_now v (st_tick s1)) 0 hookIDs s1 of
          (Inl er, s2) \<Rightarrow> (Inl er, s\<lparr>st_tick := st_tick s2\<rparr>)
        | (Inr _, s2) \<Rightarrow>
          (case statement v c '''' True (\<lambda>s. s) s2 of
             (Inl er, s3) \<Rightarrow> (Inl er, s\<lparr>st_tick := st_tick s3\<rparr>)
           | (Inr _, s3) \<Rightarrow> (Inr (), s3))))"

section \<open>Scripts\<close>

definition default_text :: "string \<Rightarrow> string \<Rightarrow> string" where
  "default_text d x = (if x = '''' then d else x)"

definition create_script :: "server_env \<Rightarrow> ctx \<Rightarrow> script_row \<Rightarrow> store \<Rightarrow> script_row result \<times> store" where
  "create_script v c x0 s =
    (let x = x0\<lparr>sx_id := se_uuid v (st_tick s), sx_created_at := se_now v (st_tick s),
               sx_updated_at := se_now v (st_tick s), sx_type := default_text ''command'' (sx_type x0),
               sx_timeout := (if sx_timeout x0 = 0 then 60 else sx_timeout x0),
               sx_on_error := default_text ''continue'' (sx_on_error x0)\<rparr>
     in case statement v c ''create script''
               (sx_id x \<notin> set (script_ids s) \<and> sx_name x \<notin> set (map sx_name (st_scripts s)))
               (\<lambda>s. s\<lparr>st_scripts := st_scripts s @ [x]\<rparr>) s of
          (Inl er, s1) \<Rightarrow> (Inl er, s1)
        | (Inr _, s1) \<Rightarrow> (Inr x, s1))"

definition find_script :: "string \<Rightarrow> store \<Rightarrow> script_row option" where
  "find_script i s = find (\<lambda>x. sx_id x = i) (st_scripts s)"

definition get_script :: "server_env \<Rightarrow> ctx \<Rightarrow> string \<Rightarrow> store \<Rightarrow> script_row option result \<times> store" where
  "get_script v c i s = query v c ''get script'' (find_script i s) s"

definition list_scripts :: "server_env \<Rightarrow> ctx \<Rightarrow> store \<Rightarrow> script_row list result \<times> store" where
  "list_scripts v c s = query v c ''list scripts'' (sort_key sx_name (st_scripts s)) s"

definition update_script :: "server_env \<Rightarrow> ctx \<Rightarrow> script_row \<Rightarrow> store \<Rightarrow> unit result \<times> store" where
  "update_script v c x s =
    (let hit = (sx_id x \<in> set (script_ids s))
     in exec_rows v c ''update script''
          (hit \<longrightarrow> sx_name x \<notin> set (map sx_name (filter (\<lambda>y. sx_id y \<noteq> sx_id x) (st_scripts s))))
          ''update script: not found'' hit
          (\<lambda>s. s\<lparr>st_scripts := map (\<lambda>y. if sx_id y = sx_id x
             then y\<lparr>sx_name := sx_name x, sx_type := sx_type x, sx_command := sx_command x, sx_timeout := sx_timeout x,
                    sx_on_error := sx_on_error x, sx_updated_at := se_now v (st_tick s)\<rparr> else y) (st_scripts s)\<rparr>) s)"

definition agent_ids_using_script ::
  "server_env \<Rightarrow> ctx \<Rightarrow> string \<Rightarrow> store \<Rightarrow> string list result \<times> store" where
  "agent_ids_using_script v c scriptID s =
    query v c ''agents using script''
      (remdups (map pr_agent_id (filter (\<lambda>p. list_ex (\<lambda>h. ph_plan_id h = pr_id p \<and> ph_script_id h = Some scriptID)
         (st_hooks s)) (st_plans s)))) s"

definition script_uses :: "string \<Rightarrow> store \<Rightarrow> nat" where
  "script_uses i s = length (filter (\<lambda>h. ph_script_id h = Some i) (st_hooks s))"

definition delete_script :: "server_env \<Rightarrow> ctx \<Rightarrow> string \<Rightarrow> store \<Rightarrow> unit result \<times> store" where
  "delete_script v c i s =
    (case run_stmts (se_sql v) c [(''begin transaction'', True), (''check script references'', True)] (st_tick s) of
       (Some er, t) \<Rightarrow> (Inl er, s\<lparr>st_tick := t\<rparr>)
     | (None, t) \<Rightarrow>
       (if script_uses i s > 0 then
          (Inl (Msg (''script is referenced by '' @ show_nat (script_uses i s) @ '' hook(s)'')), s\<lparr>st_tick := t\<rparr>)
        else case run_stmts (se_sql v) c [(''delete script'', True)] t of
          (Some er, t1) \<Rightarrow> (Inl er, s\<lparr>st_tick := t1\<rparr>)
        | (None, t1) \<Rightarrow>
          (if i \<notin> set (script_ids s) then (Inl (Msg ''delete script: not found''), s\<lparr>st_tick := t1\<rparr>)
           else case run_stmts (se_sql v) c [('''', True)] t1 of
             (Some er, t2) \<Rightarrow> (Inl er, s\<lparr>st_tick := t2\<rparr>)
           | (None, t2) \<Rightarrow> (Inr (), s\<lparr>st_scripts := filter (\<lambda>x. sx_id x \<noteq> i) (st_scripts s), st_tick := t2\<rparr>))))"

section \<open>Settings\<close>

definition get_setting :: "server_env \<Rightarrow> ctx \<Rightarrow> string \<Rightarrow> store \<Rightarrow> string option result \<times> store" where
  "get_setting v c key s = query v c (''get setting \"'' @ key @ ''\"'') (map_of (st_settings s) key) s"

definition set_setting :: "server_env \<Rightarrow> ctx \<Rightarrow> string \<Rightarrow> string \<Rightarrow> store \<Rightarrow> unit result \<times> store" where
  "set_setting v c key val s =
    statement v c (''set setting \"'' @ key @ ''\"'') True (\<lambda>s. s\<lparr>st_settings := AList.update key val (st_settings s)\<rparr>) s"

section \<open>Deleting an agent\<close>

text \<open>
  With foreign keys enforced: no job may belong to the agent, its plans and its repositories
  go with it, and a repository that a job result names, or that a plan uses which is still
  there when the repositories go, stops the whole statement.
\<close>

definition owned_repos :: "string \<Rightarrow> store \<Rightarrow> string list" where
  "owned_repos i s = map ry_id (filter (\<lambda>r. ry_agent_id r = Some i) (st_repos s))"

definition agent_deletable :: "server_env \<Rightarrow> string \<Rightarrow> store \<Rightarrow> bool" where
  "agent_deletable v i s \<longleftrightarrow> \<not> list_ex (\<lambda>j. jb_agent_id j = i) (st_jobs s)
     \<and> list_all (\<lambda>r. \<not> list_ex (job_refers r) (st_jobs s)
         \<and> \<not> list_ex (\<lambda>p. r \<in> set (pr_repository_ids p) \<and> (se_plans_first v \<longrightarrow> pr_agent_id p \<noteq> i)) (st_plans s))
       (owned_repos i s)"

definition drop_agent_rows :: "server_env \<Rightarrow> string \<Rightarrow> store \<Rightarrow> store" where
  "drop_agent_rows v i s =
    (let s1 = s\<lparr>st_agents := filter (\<lambda>a. ag_id a \<noteq> i) (st_agents s)\<rparr>;
         gone = map pr_id (filter (\<lambda>p. pr_agent_id p = i) (st_plans s))
     in if se_foreign_keys v then
          (unplan v (\<lambda>p. p \<in> set gone) s1)\<lparr>st_repos := filter (\<lambda>r. ry_agent_id r \<noteq> Some i) (st_repos s)\<rparr>
        else s1)"

definition delete_agent :: "server_env \<Rightarrow> ctx \<Rightarrow> string \<Rightarrow> store \<Rightarrow> unit result \<times> store" where
  "delete_agent v c i s =
    (let hit = (i \<in> set (agent_ids s))
     in exec_rows v c ''delete agent'' (hit \<and> se_foreign_keys v \<longrightarrow> agent_deletable v i s)
          ''delete agent: not found'' hit (\<lambda>s. if hit then drop_agent_rows v i s else s) s)"

end
