(* ===== verification/StoreInv.thy ===== *)
theory StoreInv
  imports HookStore
begin

text \<open>
  The consistency of the server's database: keys and unique columns have no duplicates and
  every reference of the schema points to a row, whatever sequence of operations runs and
  whichever of their statements fail.
\<close>

section \<open>The invariant\<close>

definition repos_ok :: "string set \<Rightarrow> repository_row list \<Rightarrow> bool" where
  "repos_ok A R \<longleftrightarrow> distinct (map ry_id R) \<and> distinct (map ry_name R)
     \<and> (\<forall>r \<in> set R. ry_agent_id r \<in> insert None (Some ` A))"

definition plans_ok :: "string set \<Rightarrow> string set \<Rightarrow> plan_row list \<Rightarrow> bool" where
  "plans_ok A R P \<longleftrightarrow> distinct (map pr_id P) \<and> distinct (map (\<lambda>p. (pr_name p, pr_agent_id p)) P)
     \<and> (\<forall>p \<in> set P. pr_agent_id p \<in> A \<and> distinct (pr_repository_ids p) \<and> set (pr_repository_ids p) \<subseteq> R)"

definition jobs_ok :: "string set \<Rightarrow> string set \<Rightarrow> string set \<Rightarrow> job list \<Rightarrow> bool" where
  "jobs_ok A P R J \<longleftrightarrow> distinct (map jb_id J)
     \<and> (\<forall>j \<in> set J. jb_agent_id j \<in> A \<and> jb_plan_id j \<in> insert None (Some ` P)
         \<and> rw_repository_id ` set (jb_repo_results j) \<subseteq> R)"

definition hooks_ok :: "string set \<Rightarrow> string set \<Rightarrow> plan_hook list \<Rightarrow> bool" where
  "hooks_ok P X H \<longleftrightarrow> distinct (map ph_id H)
     \<and> (\<forall>h \<in> set H. ph_plan_id h \<in> P \<and> (ph_script_id h \<noteq> None) = (ph_command h = None)
         \<and> ph_script_id h \<in> insert None (Some ` X))"

definition db_ok :: "store \<Rightarrow> bool" where
  "db_ok s \<longleftrightarrow> distinct (agent_ids s) \<and> distinct (script_ids s) \<and> distinct (map sx_name (st_scripts s))
     \<and> repos_ok (set (agent_ids s)) (st_repos s)
     \<and> plans_ok (set (agent_ids s)) (set (repo_ids s)) (st_plans s)
     \<and> jobs_ok (set (agent_ids s)) (set (plan_ids s)) (set (repo_ids s)) (st_jobs s)
     \<and> hooks_ok (set (plan_ids s)) (set (script_ids s)) (st_hooks s)"

definition empty_store :: store where
  "empty_store = \<lparr>st_tick = 0, st_agents = [], st_plans = [], st_repos = [], st_jobs = [], st_hooks = [],
     st_scripts = [], st_settings = []\<rparr>"

section \<open>The operations\<close>

datatype db_op =
    Op_create_agent agent_row
  | Op_approve string string
  | Op_reject string
  | Op_delete_agent string
  | Op_heartbeat string string string string
  | Op_rclone string string
  | Op_timeouts string "string option"
  | Op_outbox string "string option"
  | Op_config_version string
  | Op_config_applied string int
  | Op_create_repo repository_row
  | Op_update_repo repository_row
  | Op_delete_repo string
  | Op_create_plan plan_row
  | Op_update_plan plan_row
  | Op_delete_plan string
  | Op_create_hook plan_hook
  | Op_update_hook plan_hook
  | Op_delete_hook string
  | Op_reorder string "string list"
  | Op_create_script script_row
  | Op_update_script script_row
  | Op_delete_script string
  | Op_set_setting string string
  | Op_create_job job
  | Op_complete_job job
  | Op_job_status string string "int option" "string option"
  | Op_planned_job string string string string
  | Op_append_logs string "db_log list"

fun db_apply :: "secrets \<Rightarrow> log_codec \<Rightarrow> server_env \<Rightarrow> ctx \<Rightarrow> db_op \<Rightarrow> store \<Rightarrow> store" where
  "db_apply k cd v c (Op_create_agent a) s = snd (create_agent k v c a s)"
| "db_apply k cd v c (Op_approve i key) s = snd (approve_agent v c i key s)"
| "db_apply k cd v c (Op_reject i) s = snd (reject_agent v c i s)"
| "db_apply k cd v c (Op_delete_agent i) s = snd (delete_agent v c i s)"
| "db_apply k cd v c (Op_heartbeat i x y z) s = snd (update_heartbeat_row v c i x y z s)"
| "db_apply k cd v c (Op_rclone i x) s = snd (update_rclone_config k v c i x s)"
| "db_apply k cd v c (Op_timeouts i x) s = snd (update_command_timeouts v c i x s)"
| "db_apply k cd v c (Op_outbox i x) s = snd (update_outbox_overrides v c i x s)"
| "db_apply k cd v c (Op_config_version i) s = snd (update_config_version v c i s)"
| "db_apply k cd v c (Op_config_applied i t) s = snd (update_config_applied v c i t s)"
| "db_apply k cd v c (Op_create_repo r) s = snd (create_repository k v c r s)"
| "db_apply k cd v c (Op_update_repo r) s = snd (update_repository k v c r s)"
| "db_apply k cd v c (Op_delete_repo i) s = snd (delete_repository v c i s)"
| "db_apply k cd v c (Op_create_plan p) s = snd (create_plan v c p s)"
| "db_apply k cd v c (Op_update_plan p) s = snd (update_plan v c p s)"
| "db_apply k cd v c (Op_delete_plan i) s = snd (delete_plan v c i s)"
| "db_apply k cd v c (Op_create_hook h) s = snd (create_hook v c h s)"
| "db_apply k cd v c (Op_update_hook h) s = snd (update_hook v c h s)"
| "db_apply k cd v c (Op_delete_hook i) s = snd (delete_hook v c i s)"
| "db_apply k cd v c (Op_reorder p hs) s = snd (reorder_hooks v c p hs s)"
| "db_apply k cd v c (Op_create_script x) s = snd (create_script v c x s)"
| "db_apply k cd v c (Op_update_script x) s = snd (update_script v c x s)"
| "db_apply k cd v c (Op_delete_script i) s = snd (delete_script v c i s)"
| "db_apply k cd v c (Op_set_setting x y) s = snd (set_setting v c x y s)"
| "db_apply k cd v c (Op_create_job j) s = snd (create_job v c j s)"
| "db_apply k cd v c (Op_complete_job j) s = snd (complete_job v c j s)"
| "db_apply k cd v c (Op_job_status i st t l) s = snd (update_job_status v c i st t l s)"
| "db_apply k cd v c (Op_planned_job a p n t) s = snd (create_planned_job v c a p n t s)"
| "db_apply k cd v c (Op_append_logs i es) s = snd (append_job_logs cd v c i es s)"

text \<open>A run: each operation comes with the context of the request that makes it.\<close>

fun db_run :: "secrets \<Rightarrow> log_codec \<Rightarrow> server_env \<Rightarrow> (ctx \<times> db_op) list \<Rightarrow> store \<Rightarrow> store" where
  "db_run k cd v [] s = s"
| "db_run k cd v ((c, op) # ops) s = db_run k cd v ops (db_apply k cd v c op s)"

section \<open>Effects keep the invariant\<close>

lemma db_ok_tick [simp]: "db_ok (s\<lparr>st_tick := t\<rparr>) = db_ok s"
  by (simp add: db_ok_def)

lemma repos_mono: "repos_ok A R \<Longrightarrow> A \<subseteq> B \<Longrightarrow> repos_ok B R"
  by (fastforce simp: repos_ok_def)

lemma plans_mono: "plans_ok A R P \<Longrightarrow> A \<subseteq> B \<Longrightarrow> R \<subseteq> S \<Longrightarrow> plans_ok B S P"
  by (fastforce simp: plans_ok_def)

lemma jobs_mono: "jobs_ok A P R J \<Longrightarrow> A \<subseteq> B \<Longrightarrow> P \<subseteq> Q \<Longrightarrow> R \<subseteq> S \<Longrightarrow> jobs_ok B Q S J"
  by (fastforce simp: jobs_ok_def)

lemma hooks_mono: "hooks_ok P X H \<Longrightarrow> P \<subseteq> Q \<Longrightarrow> X \<subseteq> Y \<Longrightarrow> hooks_ok Q Y H"
  by (fastforce simp: hooks_ok_def)

text \<open>A table after an append, a filter, or a map that keeps the keys.\<close>

lemma jobs_append:
  "jobs_ok A P R J \<Longrightarrow> jb_id j \<notin> jb_id ` set J \<Longrightarrow> jb_agent_id j \<in> A \<Longrightarrow> jb_plan_id j \<in> insert None (Some ` P)
    \<Longrightarrow> rw_repository_id ` set (jb_repo_results j) \<subseteq> R \<Longrightarrow> jobs_ok A P R (J @ [j])"
  by (simp add: jobs_ok_def)

lemma jobs_map:
  assumes "jobs_ok A P R J" and "\<And>j. j \<in> set J \<Longrightarrow> jb_id (f j) = jb_id j \<and> jb_agent_id (f j) \<in> B
      \<and> jb_plan_id (f j) \<in> insert None (Some ` Q) \<and> rw_repository_id ` set (jb_repo_results (f j)) \<subseteq> S"
  shows "jobs_ok B Q S (map f J)"
proof -
  have "map jb_id (map f J) = map jb_id J" using assms(2) by simp
  then show ?thesis using assms unfolding jobs_ok_def by (metis (no_types, lifting) imageE list.set_map)
qed

lemma hooks_filter: "hooks_ok P X H \<Longrightarrow> hooks_ok P X (filter f H)"
  by (auto simp: hooks_ok_def distinct_map_filter)

lemma hooks_map:
  assumes "hooks_ok P X H" and "\<And>h. h \<in> set H \<Longrightarrow> ph_id (f h) = ph_id h \<and> ph_plan_id (f h) = ph_plan_id h
      \<and> (ph_script_id (f h) \<noteq> None) = (ph_command (f h) = None) \<and> ph_script_id (f h) \<in> insert None (Some ` X)"
  shows "hooks_ok P X (map f H)"
proof -
  have "map ph_id (map f H) = map ph_id H" using assms(2) by simp
  then show ?thesis using assms unfolding hooks_ok_def by (metis (no_types, lifting) imageE list.set_map)
qed

lemma distinct_map_inj_update:
  assumes "distinct (map key xs)" and "distinct (map g xs)"
    and "\<And>x. g (f x) = y" and "y \<notin> g ` {x \<in> set xs. key x \<noteq> i}"
  shows "distinct (map g (map (\<lambda>x. if key x = i then f x else x) xs))"
  using assms
proof (induction xs)
  case (Cons a xs)
  have rest: "map (\<lambda>x. if key x = i then f x else x) xs = xs" if "key a = i"
    using Cons.prems(1) that by (intro map_idI) (auto simp: image_iff)
  have "g x \<noteq> y" if "x \<in> set xs" "key x \<noteq> i" for x using Cons.prems(4) that by auto
  then show ?case using Cons rest by (cases "key a = i") (fastforce simp: image_iff)+
qed simp

lemma statement_keeps:
  assumes "db_ok s" and "ok \<Longrightarrow> db_ok (effect s)"
  shows "db_ok (snd (statement v c what ok effect s))"
  using assms by (cases "statement v c what ok effect s") (auto dest!: statement_cases)

lemma exec_rows_keeps:
  assumes "db_ok s" and "ok \<Longrightarrow> db_ok (effect s)"
  shows "db_ok (snd (exec_rows v c what ok missing hit effect s))"
  using assms by (cases "exec_rows v c what ok missing hit effect s") (auto dest!: exec_rows_cases)

lemma transaction_keeps:
  assumes "db_ok s" and "list_all snd stmts \<Longrightarrow> db_ok (effect s)"
  shows "db_ok (snd (transaction e c stmts effect s))"
  using assms by (cases "transaction e c stmts effect s") (auto dest!: transaction_cases)

text \<open>The shape most inserts have: run, and return what was written.\<close>

lemma pair_keeps:
  "db_ok (snd q) \<Longrightarrow> db_ok (snd (case q of (Inl er, s1) \<Rightarrow> (Inl er, s1) | (Inr z, s1) \<Rightarrow> (Inr (g z), s1)))"
  by (auto split: prod.split sum.split)

section \<open>Agents\<close>

lemma set_agent_ids [simp]: "(\<And>a. ag_id (f a) = ag_id a) \<Longrightarrow> agent_ids (set_agent i f s) = agent_ids s"
  by (simp add: set_agent_def comp_def if_distrib cong: if_cong)

lemma set_agent_keeps:
  assumes "db_ok s" and "\<And>a. ag_id (f a) = ag_id a"
  shows "db_ok (set_agent i f s)"
proof -
  have "agent_ids (set_agent i f s) = agent_ids s" using assms(2) by (rule set_agent_ids)
  moreover have "st_plans (set_agent i f s) = st_plans s" "st_repos (set_agent i f s) = st_repos s"
    "st_jobs (set_agent i f s) = st_jobs s" "st_hooks (set_agent i f s) = st_hooks s"
    "st_scripts (set_agent i f s) = st_scripts s" by (simp_all add: set_agent_def)
  ultimately show ?thesis using assms(1) unfolding db_ok_def by metis
qed

lemma add_agent_keeps:
  assumes "db_ok s" and "ag_id a \<notin> set (agent_ids s)"
  shows "db_ok (s\<lparr>st_agents := st_agents s @ [a]\<rparr>)"
  using assms unfolding db_ok_def
  by (auto elim!: repos_mono plans_mono jobs_mono)

lemma create_agent_keeps: "db_ok s \<Longrightarrow> db_ok (snd (create_agent k v c a s))"
  by (auto simp: create_agent_def Let_def split: sum.split intro!: statement_keeps add_agent_keeps)

lemma decide_agent_keeps: "db_ok s \<Longrightarrow> (\<And>a. ag_id (f a) = ag_id a) \<Longrightarrow> db_ok (snd (decide_agent v c what i f s))"
  by (auto simp: decide_agent_def intro!: exec_rows_keeps set_agent_keeps)

lemma update_column_keeps:
  "db_ok s \<Longrightarrow> (\<And>a. ag_id (f a) = ag_id a) \<Longrightarrow> db_ok (snd (update_agent_column v c what i f s))"
  by (auto simp: update_agent_column_def intro!: exec_rows_keeps set_agent_keeps)

lemma config_version_keeps: "db_ok s \<Longrightarrow> db_ok (snd (update_config_version v c i s))"
  by (auto simp: update_config_version_def Let_def split: prod.split option.split intro!: set_agent_keeps)

section \<open>Repositories and plans\<close>

lemma fk_agent_iff: "se_foreign_keys v \<Longrightarrow> fk_agent v a s \<longleftrightarrow> a \<in> insert None (Some ` set (agent_ids s))"
  by (auto simp: fk_agent_def split: option.split)

lemma create_repository_keeps:
  assumes "se_foreign_keys v" and "db_ok s"
  shows "db_ok (snd (create_repository k v c r s))"
proof -
  have "db_ok (s\<lparr>st_repos := st_repos s @ [x]\<rparr>)"
    if "ry_id x \<notin> set (repo_ids s)" "ry_name x \<notin> set (map ry_name (st_repos s))" "fk_agent v (ry_agent_id x) s" for x
    using assms that unfolding db_ok_def
    by (auto simp: repos_ok_def fk_agent_iff elim!: plans_mono jobs_mono)
  then have st: "db_ok (snd (statement v c what (ry_id y \<notin> set (repo_ids s) \<and> ry_name y \<notin> set (map ry_name (st_repos s))
      \<and> fk_agent v (ry_agent_id y) s) (\<lambda>s. s\<lparr>st_repos := st_repos s @ [y\<lparr>ry_password := pw\<rparr>]\<rparr>) s))" for what y pw
    using assms(2) by (intro statement_keeps) auto
  let ?y = "r\<lparr>ry_id := se_uuid v (st_tick s), ry_created_at := se_now v (st_tick s), ry_updated_at := se_now v (st_tick s)\<rparr>"
  show ?thesis
  proof (cases "seal k (st_tick s) (ry_password ?y)")
    case (Inr pw)
    show ?thesis unfolding create_repository_def Let_def Inr sum.case
      by (rule pair_keeps) (rule st[of "''create repository''" ?y pw])
  qed (use assms(2) in \<open>simp add: create_repository_def\<close>)
qed

lemma map_key_unchanged: "(\<And>x. key (f x) = key x) \<Longrightarrow> map key (map (\<lambda>x. if P x then f x else x) xs) = map key xs"
  by simp

lemma update_repository_keeps:
  assumes "se_foreign_keys v" and "db_ok s"
  shows "db_ok (snd (update_repository k v c r s))"
proof -
  let ?f = "\<lambda>pw x. x\<lparr>ry_name := ry_name r, ry_scope := ry_scope r, ry_agent_id := ry_agent_id r, ry_type := ry_type r,
      ry_path := ry_path r, ry_password := pw, ry_updated_at := se_now v (st_tick s)\<rparr>"
  let ?g = "\<lambda>pw. map (\<lambda>x. if ry_id x = ry_id r then ?f pw x else x) (st_repos s)"
  have "db_ok (s\<lparr>st_repos := ?g pw\<rparr>)"
    if ok: "ry_id r \<in> set (repo_ids s) \<longrightarrow> ry_name r \<notin> set (map ry_name (filter (\<lambda>x. ry_id x \<noteq> ry_id r) (st_repos s)))
        \<and> fk_agent v (ry_agent_id r) s" for pw
  proof (cases "ry_id r \<in> set (repo_ids s)")
    case False
    then have "ry_id x \<noteq> ry_id r" if "x \<in> set (st_repos s)" for x using that by (metis image_eqI list.set_map)
    then have "?g pw = st_repos s" by (intro map_idI) simp
    then show ?thesis using assms(2) by (simp add: db_ok_def)
  next
    case True
    have rs: "repos_ok (set (agent_ids s)) (st_repos s)" using assms(2) by (simp add: db_ok_def)
    have ids: "map ry_id (?g pw) = repo_ids s" by simp
    have "distinct (map ry_name (?g pw))" using ok True rs
      by (intro distinct_map_inj_update[where y = "ry_name r"]) (auto simp: repos_ok_def)
    moreover have "\<forall>x \<in> set (?g pw). ry_agent_id x \<in> insert None (Some ` set (agent_ids s))"
      using ok True rs assms(1) fk_agent_iff[OF assms(1)] by (auto simp: repos_ok_def)
    moreover have "distinct (map ry_id (?g pw))" unfolding ids using rs by (simp add: repos_ok_def)
    ultimately have new: "repos_ok (set (agent_ids s)) (?g pw)" unfolding repos_ok_def by blast
    define R where "R = ?g pw"
    have "map ry_id R = repo_ids s" "repos_ok (set (agent_ids s)) R" unfolding R_def using ids new by blast+
    then have "db_ok (s\<lparr>st_repos := R\<rparr>)" using assms(2) by (simp add: db_ok_def)
    then show ?thesis unfolding R_def .
  qed
  then show ?thesis using assms(2) unfolding update_repository_def Let_def
    by (auto split: sum.split intro!: exec_rows_keeps)
qed

lemma delete_repository_keeps:
  assumes "se_foreign_keys v" and "db_ok s"
  shows "db_ok (snd (delete_repository v c i s))"
proof -
  have "db_ok (s\<lparr>st_repos := filter (\<lambda>r. ry_id r \<noteq> i) (st_repos s)\<rparr>)"
    if ok: "i \<in> set (repo_ids s) \<longrightarrow> \<not> list_ex (\<lambda>p. i \<in> set (pr_repository_ids p)) (st_plans s)
        \<and> \<not> list_ex (job_refers i) (st_jobs s)"
  proof (cases "i \<in> set (repo_ids s)")
    case False
    then have "filter (\<lambda>r. ry_id r \<noteq> i) (st_repos s) = st_repos s" by (intro filter_True) auto
    then show ?thesis using assms(2) by (simp add: db_ok_def)
  next
    case True
    then have "\<not> list_ex (\<lambda>p. i \<in> set (pr_repository_ids p)) (st_plans s)" "\<not> list_ex (job_refers i) (st_jobs s)"
      using ok by blast+
    then have no: "\<forall>p \<in> set (st_plans s). i \<notin> set (pr_repository_ids p)"
      "\<forall>j \<in> set (st_jobs s). i \<notin> rw_repository_id ` set (jb_repo_results j)"
      by (fastforce simp: list_ex_iff job_refers_def)+
    have ids: "ry_id ` {r \<in> set (st_repos s). ry_id r \<noteq> i} = set (repo_ids s) - {i}" by auto
    have "repos_ok (set (agent_ids s)) (filter (\<lambda>r. ry_id r \<noteq> i) (st_repos s))"
      using assms(2) by (auto simp: db_ok_def repos_ok_def distinct_map_filter)
    moreover have "plans_ok (set (agent_ids s)) (set (repo_ids s) - {i}) (st_plans s)"
      using assms(2) no(1) by (fastforce simp: db_ok_def plans_ok_def)
    moreover have "jobs_ok (set (agent_ids s)) (set (plan_ids s)) (set (repo_ids s) - {i}) (st_jobs s)"
      using assms(2) no(2) unfolding db_ok_def jobs_ok_def by blast
    ultimately show ?thesis using assms(2) ids unfolding db_ok_def by simp
  qed
  then show ?thesis using assms unfolding delete_repository_def Let_def
    by (auto intro!: exec_rows_keeps)
qed

lemma link_stmts_ok:
  assumes "se_foreign_keys v" and "list_all snd (link_stmts v s seen rs)"
  shows "distinct rs \<and> set rs \<inter> set seen = {} \<and> set rs \<subseteq> set (repo_ids s)"
  using assms(2)
proof (induction rs arbitrary: seen)
  case (Cons r rs)
  then show ?case using Cons.IH[of "r # seen"] assms(1) by auto
qed simp

lemma db_ok_plans:
  "db_ok s \<Longrightarrow> plans_ok (set (agent_ids s)) (set (repo_ids s)) P \<Longrightarrow> set (plan_ids s) \<subseteq> pr_id ` set P
    \<Longrightarrow> db_ok (s\<lparr>st_plans := P\<rparr>)"
  unfolding db_ok_def by (auto elim!: jobs_mono hooks_mono)

lemma create_plan_keeps:
  assumes "se_foreign_keys v" and "db_ok s"
  shows "db_ok (snd (create_plan v c p s))"
proof -
  let ?p = "p\<lparr>pr_id := se_uuid v (st_tick s), pr_created_at := se_now v (st_tick s), pr_updated_at := se_now v (st_tick s)\<rparr>"
  have "db_ok (s\<lparr>st_plans := st_plans s @ [y]\<rparr>)"
    if "pr_id y \<notin> set (plan_ids s)" "(pr_name y, pr_agent_id y) \<notin> set (map (\<lambda>x. (pr_name x, pr_agent_id x)) (st_plans s))"
      "fk_agent v (Some (pr_agent_id y)) s" "list_all snd (link_stmts v s [] (pr_repository_ids y))" for y
  proof (rule db_ok_plans[OF assms(2)])
    show "plans_ok (set (agent_ids s)) (set (repo_ids s)) (st_plans s @ [y])"
      using assms(2) that(1,2,3) link_stmts_ok[OF assms(1) that(4)] fk_agent_iff[OF assms(1)]
      by (auto simp: db_ok_def plans_ok_def)
  qed auto
  from this[of ?p] assms(2) show ?thesis unfolding create_plan_def Let_def
    by (intro pair_keeps transaction_keeps) simp_all
qed

lemma update_plan_keeps:
  assumes "se_foreign_keys v" and "db_ok s"
  shows "db_ok (snd (update_plan v c p s))"
proof (cases "pr_id p \<in> set (plan_ids s)")
  case False
  then show ?thesis using assms(2) by (auto simp: update_plan_def split: prod.split option.split)
next
  case True
  let ?f = "\<lambda>x. p\<lparr>pr_created_at := pr_created_at x, pr_updated_at := se_now v (st_tick s)\<rparr>"
  define P where "P = map (\<lambda>x. if pr_id x = pr_id p then ?f x else x) (st_plans s)"
  have ids: "map pr_id P = plan_ids s" by (simp add: P_def)
  have old: "plans_ok (set (agent_ids s)) (set (repo_ids s)) (st_plans s)" using assms(2) by (simp add: db_ok_def)
  have "db_ok (s\<lparr>st_plans := P\<rparr>)"
    if un: "(pr_name p, pr_agent_id p) \<notin> set (map (\<lambda>x. (pr_name x, pr_agent_id x)) (filter (\<lambda>x. pr_id x \<noteq> pr_id p) (st_plans s)))"
      and fk: "fk_agent v (Some (pr_agent_id p)) s" and ln: "list_all snd (link_stmts v s [] (pr_repository_ids p))"
  proof (rule db_ok_plans[OF assms(2)])
    have "distinct (map (\<lambda>x. (pr_name x, pr_agent_id x)) P)" using old un unfolding P_def
      by (intro distinct_map_inj_update[where y = "(pr_name p, pr_agent_id p)"]) (auto simp: plans_ok_def)
    moreover have "distinct (map pr_id P)" unfolding ids using old by (simp add: plans_ok_def)
    moreover have "\<forall>x \<in> set P. pr_agent_id x \<in> set (agent_ids s) \<and> distinct (pr_repository_ids x)
        \<and> set (pr_repository_ids x) \<subseteq> set (repo_ids s)"
      using old fk fk_agent_iff[OF assms(1)] link_stmts_ok[OF assms(1) ln] by (auto simp: P_def plans_ok_def)
    ultimately show "plans_ok (set (agent_ids s)) (set (repo_ids s)) P" unfolding plans_ok_def by blast
    show "set (plan_ids s) \<subseteq> pr_id ` set P" using ids by (metis list.set_map order_refl)
  qed
  then show ?thesis using True assms(2) unfolding update_plan_def P_def
    by (auto intro!: transaction_keeps)
qed

lemma unplan_simps [simp]:
  "st_agents (unplan v gone s) = st_agents s" "st_repos (unplan v gone s) = st_repos s"
  "st_scripts (unplan v gone s) = st_scripts s" "st_plans (unplan v gone s) = filter (\<lambda>p. \<not> gone (pr_id p)) (st_plans s)"
  by (simp_all add: unplan_def Let_def)

lemma unplan_keeps:
  assumes "se_foreign_keys v" and "db_ok s"
  shows "db_ok (unplan v gone s)"
proof -
  let ?P = "filter (\<lambda>p. \<not> gone (pr_id p)) (st_plans s)"
  let ?f = "\<lambda>j. case jb_plan_id j of None \<Rightarrow> j | Some p \<Rightarrow> (if gone p then j\<lparr>jb_plan_id := None\<rparr> else j)"
  have ids: "set (map pr_id ?P) = {p \<in> set (plan_ids s). \<not> gone p}" by auto
  have "plans_ok (set (agent_ids s)) (set (repo_ids s)) ?P"
    using assms(2) by (auto simp: db_ok_def plans_ok_def distinct_map_filter)
  moreover have "jobs_ok (set (agent_ids s)) (set (map pr_id ?P)) (set (repo_ids s)) (map ?f (st_jobs s))"
  proof (rule jobs_map[where A = "set (agent_ids s)" and P = "set (plan_ids s)" and R = "set (repo_ids s)"])
    fix j assume "j \<in> set (st_jobs s)"
    then have "jb_agent_id j \<in> set (agent_ids s)" "jb_plan_id j \<in> insert None (Some ` set (plan_ids s))"
      "rw_repository_id ` set (jb_repo_results j) \<subseteq> set (repo_ids s)"
      using assms(2) unfolding db_ok_def jobs_ok_def by blast+
    then show "jb_id (?f j) = jb_id j \<and> jb_agent_id (?f j) \<in> set (agent_ids s)
        \<and> jb_plan_id (?f j) \<in> insert None (Some ` set (map pr_id ?P))
        \<and> rw_repository_id ` set (jb_repo_results (?f j)) \<subseteq> set (repo_ids s)"
      unfolding ids by (auto split: option.split)
  qed (use assms(2) in \<open>simp add: db_ok_def\<close>)
  moreover have "hooks_ok (set (map pr_id ?P)) (set (script_ids s)) (filter (\<lambda>h. \<not> gone (ph_plan_id h)) (st_hooks s))"
    using assms(2) unfolding ids by (auto simp: db_ok_def hooks_ok_def distinct_map_filter)
  ultimately show ?thesis using assms unfolding db_ok_def unplan_def Let_def by simp
qed

lemma delete_plan_keeps: "se_foreign_keys v \<Longrightarrow> db_ok s \<Longrightarrow> db_ok (snd (delete_plan v c i s))"
  unfolding delete_plan_def by (intro exec_rows_keeps unplan_keeps)

section \<open>Hooks and scripts\<close>

lemma hook_check_iff:
  "se_foreign_keys v \<Longrightarrow> hook_check v h s \<longleftrightarrow> (ph_script_id h \<noteq> None) = (ph_command h = None)
    \<and> ph_script_id h \<in> insert None (Some ` set (script_ids s))"
  by (auto simp: hook_check_def split: option.split)

lemma create_hook_keeps:
  assumes "se_foreign_keys v" and "db_ok s"
  shows "db_ok (snd (create_hook v c h s))"
proof -
  have "db_ok (s\<lparr>st_hooks := st_hooks s @ [y]\<rparr>)"
    if "ph_id y \<notin> set (hook_ids s)" "hook_check v y s" "ph_plan_id y \<in> set (plan_ids s)" for y
  proof -
    have "hooks_ok (set (plan_ids s)) (set (script_ids s)) (st_hooks s @ [y])"
      using assms(2) that hook_check_iff[OF assms(1), of y s] unfolding db_ok_def hooks_ok_def by auto
    then show ?thesis using assms(2) by (simp add: db_ok_def)
  qed
  then show ?thesis using assms unfolding create_hook_def Let_def
    by (intro pair_keeps statement_keeps) simp_all
qed

lemma set_hook_keeps:
  assumes "db_ok s" and "\<And>h. h \<in> set (st_hooks s) \<Longrightarrow> hit h \<Longrightarrow> ph_id (f h) = ph_id h \<and> ph_plan_id (f h) = ph_plan_id h
      \<and> (ph_script_id (f h) \<noteq> None) = (ph_command (f h) = None)
      \<and> ph_script_id (f h) \<in> insert None (Some ` set (script_ids s))"
  shows "db_ok (set_hook hit f s)"
proof -
  have ok: "hooks_ok (set (plan_ids s)) (set (script_ids s)) (st_hooks s)" using assms(1) by (simp add: db_ok_def)
  have "hooks_ok (set (plan_ids s)) (set (script_ids s)) (map (\<lambda>h. if hit h then f h else h) (st_hooks s))"
  proof (rule hooks_map[OF ok])
    fix h assume h: "h \<in> set (st_hooks s)"
    then have "(ph_script_id h \<noteq> None) = (ph_command h = None)" "ph_script_id h \<in> insert None (Some ` set (script_ids s))"
      using ok unfolding hooks_ok_def by blast+
    then show "ph_id (if hit h then f h else h) = ph_id h \<and> ph_plan_id (if hit h then f h else h) = ph_plan_id h
        \<and> (ph_script_id (if hit h then f h else h) \<noteq> None) = (ph_command (if hit h then f h else h) = None)
        \<and> ph_script_id (if hit h then f h else h) \<in> insert None (Some ` set (script_ids s))"
      using assms(2)[OF h] by simp
  qed
  then show ?thesis using assms(1) by (simp add: db_ok_def set_hook_def)
qed

lemma update_hook_keeps:
  assumes "se_foreign_keys v" and "db_ok s"
  shows "db_ok (snd (update_hook v c h s))"
  unfolding update_hook_def Let_def
proof (rule exec_rows_keeps[OF assms(2)], rule set_hook_keeps[OF assms(2)])
  let ?f = "\<lambda>x. x\<lparr>ph_on_event := ph_on_event h, ph_sort_order := ph_sort_order h, ph_script_id := ph_script_id h,
      ph_type := ph_type h, ph_command := ph_command h, ph_timeout := ph_timeout h, ph_on_error := ph_on_error h,
      ph_updated_at := se_now v (st_tick s)\<rparr>"
  fix x assume ok: "ph_id h \<in> set (hook_ids s) \<longrightarrow> hook_check v h s" and x: "x \<in> set (st_hooks s)" "ph_id x = ph_id h"
  have "ph_id h \<in> set (hook_ids s)" using x by (metis image_eqI list.set_map)
  then show "ph_id (?f x) = ph_id x \<and> ph_plan_id (?f x) = ph_plan_id x
      \<and> (ph_script_id (?f x) \<noteq> None) = (ph_command (?f x) = None)
      \<and> ph_script_id (?f x) \<in> insert None (Some ` set (script_ids s))"
    using ok hook_check_iff[OF assms(1), of h s] by simp
qed

lemma delete_hook_keeps: "db_ok s \<Longrightarrow> db_ok (snd (delete_hook v c i s))"
  unfolding delete_hook_def by (intro exec_rows_keeps) (auto simp: db_ok_def intro: hooks_filter)

lemma set_hook_order_keeps:
  assumes "db_ok s"
  shows "db_ok (set_hook hit (\<lambda>h. h\<lparr>ph_sort_order := i, ph_updated_at := now\<rparr>) s)"
proof (rule set_hook_keeps[OF assms])
  fix h assume "h \<in> set (st_hooks s)"
  then show "ph_id (h\<lparr>ph_sort_order := i, ph_updated_at := now\<rparr>) = ph_id h
      \<and> ph_plan_id (h\<lparr>ph_sort_order := i, ph_updated_at := now\<rparr>) = ph_plan_id h
      \<and> (ph_script_id (h\<lparr>ph_sort_order := i, ph_updated_at := now\<rparr>) \<noteq> None)
        = (ph_command (h\<lparr>ph_sort_order := i, ph_updated_at := now\<rparr>) = None)
      \<and> ph_script_id (h\<lparr>ph_sort_order := i, ph_updated_at := now\<rparr>) \<in> insert None (Some ` set (script_ids s))"
    using assms unfolding db_ok_def hooks_ok_def by simp
qed

lemma reorder_from_keeps:
  "db_ok s \<Longrightarrow> reorder_from v c planID now i hs s = (r, s') \<Longrightarrow> db_ok s'"
proof (induction hs arbitrary: i s)
  case (Cons hookID hs)
  let ?mine = "\<lambda>h. ph_id h = hookID \<and> ph_plan_id h = planID"
  obtain q s1 where q: "statement v c (''reorder hook '' @ hookID) True
      (set_hook ?mine (\<lambda>h. h\<lparr>ph_sort_order := i, ph_updated_at := now\<rparr>)) s = (q, s1)" by fastforce
  have "db_ok (snd (statement v c (''reorder hook '' @ hookID) True
      (set_hook ?mine (\<lambda>h. h\<lparr>ph_sort_order := i, ph_updated_at := now\<rparr>)) s))"
    by (rule statement_keeps[OF Cons.prems(1)]) (rule set_hook_order_keeps[OF Cons.prems(1)])
  then have "db_ok s1" using q by simp
  then show ?case using Cons.IH[of s1 "i + 1"] Cons.prems q by (auto simp: Let_def split: sum.splits if_splits)
qed simp

lemma reorder_hooks_keeps: "db_ok s \<Longrightarrow> db_ok (snd (reorder_hooks v c planID hs s))"
proof -
  assume ok: "db_ok s"
  have id: "db_ok (snd (statement v c what True (\<lambda>s. s) x))" if "db_ok x" for what x
    using that by (intro statement_keeps)
  obtain q s1 where 1: "statement v c ''begin transaction'' True (\<lambda>s. s) s = (q, s1)" by fastforce
  obtain q2 s2 where 2: "reorder_from v c planID (se_now v (st_tick s1)) 0 hs s1 = (q2, s2)" by fastforce
  obtain q3 s3 where 3: "statement v c '''' True (\<lambda>s. s) s2 = (q3, s3)" by fastforce
  have "db_ok s1" using id[OF ok, of "''begin transaction''"] 1 by simp
  then have "db_ok s2" using reorder_from_keeps 2 by blast
  then have "db_ok s3" using id[of s2 "''''"] 3 by simp
  then show ?thesis using ok \<open>db_ok s1\<close> 1 2 3 by (simp add: reorder_hooks_def split: sum.split)
qed

lemma create_script_keeps: "db_ok s \<Longrightarrow> db_ok (snd (create_script v c x s))"
  unfolding create_script_def Let_def
  by (intro pair_keeps statement_keeps) (auto simp: db_ok_def elim!: hooks_mono)

lemma update_script_keeps:
  assumes "db_ok s"
  shows "db_ok (snd (update_script v c x s))"
proof -
  let ?f = "\<lambda>y. y\<lparr>sx_name := sx_name x, sx_type := sx_type x, sx_command := sx_command x, sx_timeout := sx_timeout x,
      sx_on_error := sx_on_error x, sx_updated_at := se_now v (st_tick s)\<rparr>"
  define X where "X = map (\<lambda>y. if sx_id y = sx_id x then ?f y else y) (st_scripts s)"
  have ids: "map sx_id X = script_ids s" by (simp add: X_def)
  have "db_ok (s\<lparr>st_scripts := X\<rparr>)"
    if un: "sx_id x \<in> set (script_ids s) \<longrightarrow> sx_name x \<notin> set (map sx_name (filter (\<lambda>y. sx_id y \<noteq> sx_id x) (st_scripts s)))"
  proof (cases "sx_id x \<in> set (script_ids s)")
    case True
    have "distinct (map sx_name X)" using assms un True unfolding X_def
      by (intro distinct_map_inj_update[where y = "sx_name x"]) (auto simp: db_ok_def)
    then show ?thesis using assms ids by (simp add: db_ok_def)
  next
    case False
    then have "sx_id y \<noteq> sx_id x" if "y \<in> set (st_scripts s)" for y using that by (metis image_eqI list.set_map)
    then have "X = st_scripts s" unfolding X_def by (intro map_idI) simp
    then show ?thesis using assms by simp
  qed
  then show ?thesis using assms unfolding update_script_def Let_def X_def by (intro exec_rows_keeps)
qed

lemma delete_script_keeps:
  assumes "db_ok s"
  shows "db_ok (snd (delete_script v c i s))"
proof -
  have "db_ok (s\<lparr>st_scripts := filter (\<lambda>x. sx_id x \<noteq> i) (st_scripts s)\<rparr>)" if "script_uses i s = 0"
  proof -
    have "ph_script_id h \<noteq> Some i" if "h \<in> set (st_hooks s)" for h
      using that \<open>script_uses i s = 0\<close> by (auto simp: script_uses_def filter_empty_conv)
    then have "hooks_ok (set (plan_ids s)) (set (script_ids s) - {i}) (st_hooks s)"
      using assms unfolding db_ok_def hooks_ok_def by blast
    moreover have "set (map sx_id (filter (\<lambda>x. sx_id x \<noteq> i) (st_scripts s))) = set (script_ids s) - {i}" by auto
    ultimately show ?thesis using assms by (simp add: db_ok_def distinct_map_filter del: set_map)
  qed
  from db_ok_tick[THEN iffD2, OF this] show ?thesis using assms
    by (auto simp: delete_script_def split: prod.split option.split)
qed

section \<open>Jobs\<close>

lemma repo_stmts_ok:
  "se_foreign_keys v \<Longrightarrow> list_all snd (repo_stmts v ex rs s) \<Longrightarrow> rw_repository_id ` set rs \<subseteq> set (repo_ids s)"
  by (auto simp: repo_stmts_def list_all_iff)

lemma job_fks_iff:
  "se_foreign_keys v \<Longrightarrow> job_fks v j s \<longleftrightarrow> jb_agent_id j \<in> set (agent_ids s)
    \<and> jb_plan_id j \<in> insert None (Some ` set (plan_ids s))"
  by (auto simp: job_fks_def split: option.split)

lemma add_job_keeps:
  assumes "db_ok s" and "jb_id j \<notin> set (job_ids s)" and "jb_agent_id j \<in> set (agent_ids s)"
    and "jb_plan_id j \<in> insert None (Some ` set (plan_ids s))"
    and "rw_repository_id ` set (jb_repo_results j) \<subseteq> set (repo_ids s)"
  shows "db_ok (s\<lparr>st_jobs := st_jobs s @ [j]\<rparr>)"
  using assms jobs_append[of "set (agent_ids s)" "set (plan_ids s)" "set (repo_ids s)" "st_jobs s" j]
  by (simp add: db_ok_def job_ids_def)

lemma create_job_keeps:
  assumes "se_foreign_keys v" and "db_ok s"
  shows "db_ok (snd (create_job v c j s))"
  unfolding create_job_def Let_def
  using assms job_fks_iff[OF assms(1)]
  by (intro transaction_keeps add_job_keeps) (auto dest!: repo_stmts_ok[OF assms(1)] simp: image_subset_iff)

lemma update_row_keeps:
  assumes "db_ok s" and "\<And>j. jb_id (f j) = jb_id j \<and> jb_agent_id (f j) = jb_agent_id j \<and> jb_plan_id (f j) = jb_plan_id j
      \<and> rw_repository_id ` set (jb_repo_results (f j)) \<subseteq> rw_repository_id ` set (jb_repo_results j) \<union> set (repo_ids s)"
  shows "db_ok (update_row i f s)"
proof -
  have ok: "jobs_ok (set (agent_ids s)) (set (plan_ids s)) (set (repo_ids s)) (st_jobs s)"
    using assms(1) by (simp add: db_ok_def)
  have "jobs_ok (set (agent_ids s)) (set (plan_ids s)) (set (repo_ids s))
      (map (\<lambda>r. if jb_id r = i then f r else r) (st_jobs s))"
  proof (rule jobs_map[OF ok])
    fix j assume "j \<in> set (st_jobs s)"
    then have "jb_agent_id j \<in> set (agent_ids s)" "jb_plan_id j \<in> insert None (Some ` set (plan_ids s))"
      "rw_repository_id ` set (jb_repo_results j) \<subseteq> set (repo_ids s)"
      using ok unfolding jobs_ok_def by blast+
    then show "jb_id (if jb_id j = i then f j else j) = jb_id j
        \<and> jb_agent_id (if jb_id j = i then f j else j) \<in> set (agent_ids s)
        \<and> jb_plan_id (if jb_id j = i then f j else j) \<in> insert None (Some ` set (plan_ids s))
        \<and> rw_repository_id ` set (jb_repo_results (if jb_id j = i then f j else j)) \<subseteq> set (repo_ids s)"
      using assms(2)[of j] by (cases "jb_id j = i") (simp_all, blast)
  qed
  then show ?thesis using assms(1) by (simp add: db_ok_def update_row_def)
qed

lemma complete_job_keeps:
  assumes "se_foreign_keys v" and "db_ok s"
  shows "db_ok (snd (complete_job v c j s))"
  unfolding complete_job_def Let_def
  using assms
  by (intro transaction_keeps update_row_keeps)
    (auto dest!: repo_stmts_ok[OF assms(1)] simp: complete_row_def image_subset_iff)

lemma update_job_status_keeps: "db_ok s \<Longrightarrow> db_ok (snd (update_job_status v c i st t l s))"
  unfolding update_job_status_def by (intro exec_rows_keeps update_row_keeps) auto

lemma create_planned_keeps:
  assumes "se_foreign_keys v" and "db_ok s"
  shows "db_ok (snd (create_planned_job v c a p n t s))"
  unfolding create_planned_job_def Let_def
  using assms job_fks_iff[OF assms(1)]
  by (intro pair_keeps statement_keeps add_job_keeps) auto

lemma append_logs_keeps: "db_ok s \<Longrightarrow> db_ok (snd (append_job_logs cd v c i es s))"
proof -
  assume ok: "db_ok s"
  have "db_ok (snd (statement v c what True (update_row i (\<lambda>r. r\<lparr>jb_log_tail := g r\<rparr>)) (s\<lparr>st_tick := t\<rparr>)))" for what g t
    using ok by (intro statement_keeps update_row_keeps) auto
  then show ?thesis using ok by (auto simp: append_job_logs_def Let_def split: option.split)
qed

section \<open>Deleting an agent\<close>

lemma drop_agent_rows_simps:
  "st_agents (drop_agent_rows v i s) = filter (\<lambda>a. ag_id a \<noteq> i) (st_agents s)"
  "st_scripts (drop_agent_rows v i s) = st_scripts s"
  by (simp_all add: drop_agent_rows_def Let_def)

text \<open>
  The plans go first, then the rows that name the agent; nothing that is left names the
  agent or one of its repositories.
\<close>

lemma drop_agent_keeps:
  assumes fk: "se_foreign_keys v" and ok: "db_ok s" and del: "agent_deletable v i s"
  shows "db_ok (drop_agent_rows v i s)"
proof -
  define u where "u = unplan v (\<lambda>p. p \<in> set (map pr_id (filter (\<lambda>p. pr_agent_id p = i) (st_plans s)))) s"
  have u: "db_ok u" unfolding u_def by (rule unplan_keeps[OF fk ok])
  have rows: "st_agents u = st_agents s" "st_repos u = st_repos s" "st_scripts u = st_scripts s" by (simp_all add: u_def)
  let ?A = "set (agent_ids s) - {i}"
  let ?R = "set (repo_ids s) - set (owned_repos i s)"
  have "distinct (map pr_id (st_plans s))" using ok by (simp add: db_ok_def plans_ok_def)
  then have mine: "p \<in> set (st_plans s) \<Longrightarrow> pr_id p \<in> pr_id ` {p \<in> set (st_plans s). pr_agent_id p = i} \<longleftrightarrow> pr_agent_id p = i" for p
    by (auto simp: distinct_map inj_on_def)
  have plans: "set (st_plans u) = {p \<in> set (st_plans s). pr_agent_id p \<noteq> i}"
    using mine by (auto simp: u_def)
  have noR: "set (pr_repository_ids p) \<inter> set (owned_repos i s) = {}" if "p \<in> set (st_plans u)" for p
    using del that unfolding plans by (fastforce simp: agent_deletable_def list_all_iff list_ex_iff)
  have jobs: "\<exists>j0 \<in> set (st_jobs s). jb_agent_id j = jb_agent_id j0 \<and> jb_repo_results j = jb_repo_results j0"
    if "j \<in> set (st_jobs u)" for j
    using that fk by (auto simp: u_def unplan_def Let_def split: option.splits if_splits)
  have noJ: "jb_agent_id j \<noteq> i \<and> rw_repository_id ` set (jb_repo_results j) \<inter> set (owned_repos i s) = {}"
    if j: "j \<in> set (st_jobs u)" for j
  proof -
    obtain j0 where j0: "j0 \<in> set (st_jobs s)" "jb_agent_id j = jb_agent_id j0" "jb_repo_results j = jb_repo_results j0"
      using jobs[OF j] by blast
    then have "jb_agent_id j0 \<noteq> i" "\<forall>r \<in> set (owned_repos i s). \<not> job_refers r j0"
      using del unfolding agent_deletable_def list_all_iff list_ex_iff by blast+
    then show ?thesis unfolding j0(2,3) by (auto simp: job_refers_def list_ex_iff)
  qed
  have sets: "set (map ag_id (filter (\<lambda>a. ag_id a \<noteq> i) (st_agents s))) = ?A" by auto
  have "distinct (map ry_id (st_repos s))" using ok by (simp add: db_ok_def repos_ok_def)
  then have "x \<in> set (st_repos s) \<Longrightarrow> ry_id x \<in> ry_id ` {r \<in> set (st_repos s). ry_agent_id r = Some i} \<longleftrightarrow> ry_agent_id x = Some i" for x
    by (auto simp: distinct_map inj_on_def)
  then have rsets: "set (map ry_id (filter (\<lambda>r. ry_agent_id r \<noteq> Some i) (st_repos s))) = ?R"
    by (auto simp: owned_repos_def)
  have "repos_ok ?A (filter (\<lambda>r. ry_agent_id r \<noteq> Some i) (st_repos s))"
    using ok by (auto simp: db_ok_def repos_ok_def distinct_map_filter)
  moreover have "plans_ok ?A ?R (st_plans u)"
  proof -
    have pu: "plans_ok (set (agent_ids s)) (set (repo_ids s)) (st_plans u)" using u rows by (simp add: db_ok_def)
    have "pr_agent_id p \<noteq> i" if "p \<in> set (st_plans u)" for p using that plans by simp
    with pu noR show ?thesis unfolding plans_ok_def by blast
  qed
  moreover have "jobs_ok ?A (set (plan_ids u)) ?R (st_jobs u)"
  proof -
    have "jobs_ok (set (agent_ids s)) (set (plan_ids u)) (set (repo_ids s)) (st_jobs u)" using u rows by (simp add: db_ok_def)
    with noJ show ?thesis unfolding jobs_ok_def by blast
  qed
  moreover have "drop_agent_rows v i s = u\<lparr>st_agents := filter (\<lambda>a. ag_id a \<noteq> i) (st_agents s),
      st_repos := filter (\<lambda>r. ry_agent_id r \<noteq> Some i) (st_repos s)\<rparr>"
    using fk by (simp add: drop_agent_rows_def u_def unplan_def Let_def del: set_map set_filter)
  ultimately show ?thesis using u rows sets rsets by (simp add: db_ok_def distinct_map_filter del: set_map)
qed

lemma delete_agent_keeps:
  "se_foreign_keys v \<Longrightarrow> db_ok s \<Longrightarrow> db_ok (snd (delete_agent v c i s))"
  unfolding delete_agent_def Let_def
  by (intro exec_rows_keeps) (auto intro: drop_agent_keeps)

section \<open>Every run\<close>

lemma db_apply_keeps: "se_foreign_keys v \<Longrightarrow> db_ok s \<Longrightarrow> db_ok (db_apply k cd v c op s)"
proof (cases op)
  case (Op_rclone i x)
  then show "db_ok s \<Longrightarrow> db_ok (db_apply k cd v c op s)"
    by (auto simp: update_rclone_config_def update_column_keeps split: sum.split)
qed (auto simp: approve_agent_def reject_agent_def update_heartbeat_row_def update_command_timeouts_def
    update_outbox_overrides_def update_config_applied_def set_setting_def Let_def
    intro!: create_agent_keeps decide_agent_keeps delete_agent_keeps update_column_keeps config_version_keeps
      create_repository_keeps update_repository_keeps delete_repository_keeps create_plan_keeps update_plan_keeps
      delete_plan_keeps create_hook_keeps update_hook_keeps delete_hook_keeps reorder_hooks_keeps create_script_keeps
      update_script_keeps delete_script_keeps create_job_keeps complete_job_keeps update_job_status_keeps
      create_planned_keeps append_logs_keeps statement_keeps set_agent_keeps,
    simp add: db_ok_def)

lemma db_run_keeps: "se_foreign_keys v \<Longrightarrow> db_ok s \<Longrightarrow> db_ok (db_run k cd v ops s)"
  by (induction ops arbitrary: s) (auto simp: db_apply_keeps)


definition demo_env :: server_env where
  "demo_env = \<lparr>se_sql = calm, se_now = int, se_uuid = (\<lambda>t. ''u'' @ show_nat t), se_foreign_keys = True, se_plans_first = True\<rparr>"

definition demo_secrets :: secrets where
  "demo_secrets = \<lparr>sk_aead = toy_aead, sk_key = '''', sk_rand = \<lambda>_. Inr ''''\<rparr>"

definition demo_codec :: log_codec where
  "demo_codec = \<lparr>lc_attrs = \<lambda>_. [], lc_marshal = \<lambda>_. ''[]'', lc_unmarshal = \<lambda>_. None\<rparr>"

definition demo_agent :: agent_row where
  "demo_agent = \<lparr>ag_id = ''a'', ag_name = ''web'', ag_hostname = ''web'', ag_os = None, ag_status = ''pending'',
     ag_api_key = None, ag_agent_version = None, ag_restic_version = None, ag_rclone_version = None,
     ag_rclone_config = None, ag_last_heartbeat = None, ag_last_job_at = None, ag_config_version = 0,
     ag_config_applied_at = None, ag_command_timeouts = None, ag_outbox_overrides = None, ag_created_at = 0, ag_updated_at = 0\<rparr>"


end
