(* ===== verification/Settings.thy ===== *)
theory Settings
  imports StoreInv Complex_Main
begin

text \<open>
  The registry of settings of the server (server/internal/settings/registry.go and store.go):
  the known keys with their defaults and validators, the resolution of stored values and the
  update. A raw JSON value is the text it has in the request.
\<close>

section \<open>JSON numbers\<close>

text \<open>The integer literals of JSON; \<open>strconv.ParseInt\<close> reads no other number literal.\<close>

definition int_literal :: "string \<Rightarrow> int option" where
  "int_literal raw =
    (let ds = (case raw of CHR ''-'' # rest \<Rightarrow> rest | _ \<Rightarrow> raw)
     in if ds = [] \<or> \<not> list_all is_digit ds \<or> (hd ds = CHR ''0'' \<and> tl ds \<noteq> []) then None
        else if raw = ds then Some (digits_value ds) else Some (- digits_value ds))"

text \<open>\<open>json.Unmarshal\<close> into an \<open>int32\<close>: \<open>null\<close> leaves it as it was.\<close>

definition json_int32 :: "string \<Rightarrow> int option" where
  "json_int32 raw =
    (if raw = ''null'' then Some 0
     else case int_literal raw of
       None \<Rightarrow> None
     | Some n \<Rightarrow> (if - (2 ^ 31) \<le> n \<and> n < 2 ^ 31 then Some n else None))"

text \<open>
  What the JSON library makes of the other values: a \<open>float64\<close> (its exact value), its
  conversion to \<open>int\<close>, a retention object, a list of strings (with what it has read so far
  when it fails), and the two override objects.
\<close>

record json_codec =
  jc_float :: "string \<Rightarrow> rat option"
  jc_trunc :: "rat \<Rightarrow> int"
  jc_retention :: "string \<Rightarrow> retention_policy option"
  jc_strings :: "string \<Rightarrow> string list \<times> bool"
  jc_timeouts :: "string \<Rightarrow> command_timeouts option"
  jc_outbox :: "string \<Rightarrow> outbox_proto option"

text \<open>Integer literals that a \<open>float64\<close> holds exactly are read exactly.\<close>

definition exact_floats :: "json_codec \<Rightarrow> bool" where
  "exact_floats jc \<longleftrightarrow>
    (\<forall>raw n. int_literal raw = Some n \<longrightarrow> - (2 ^ 53) \<le> n \<longrightarrow> n \<le> 2 ^ 53 \<longrightarrow> jc_float jc raw = Some (of_int n))
    \<and> (\<forall>n. - (2 ^ 53) \<le> n \<longrightarrow> n \<le> 2 ^ 53 \<longrightarrow> jc_trunc jc (of_int n) = n)"

section \<open>Validators\<close>

type_synonym validator = "json_codec \<Rightarrow> string \<Rightarrow> string option"

definition validate_int_min :: "int \<Rightarrow> validator" where
  "validate_int_min minVal jc raw =
    (case jc_float jc raw of
       None \<Rightarrow> Some ''must be a number''
     | Some f \<Rightarrow>
       (if of_int (floor f) \<noteq> f then Some ''must be an integer''
        else if jc_trunc jc f < minVal then Some (''must be at least '' @ show_int minVal)
        else None))"

definition validate_health_threshold :: validator where
  "validate_health_threshold jc raw =
    (case jc_float jc raw of
       None \<Rightarrow> Some ''must be a number''
     | Some f \<Rightarrow> (if f \<le> 0 \<or> f > 1 then Some ''must be greater than 0 and at most 1'' else None))"

definition is_json_null :: "string \<Rightarrow> bool" where
  "is_json_null raw = (trim_space raw = ''null'')"

definition retention_checks :: "retention_policy \<Rightarrow> (string \<times> int) list" where
  "retention_checks rp = [(''keep_last'', rp_keep_last rp), (''keep_hourly'', rp_keep_hourly rp),
     (''keep_daily'', rp_keep_daily rp), (''keep_weekly'', rp_keep_weekly rp), (''keep_monthly'', rp_keep_monthly rp),
     (''keep_yearly'', rp_keep_yearly rp)]"

definition validate_retention :: validator where
  "validate_retention jc raw =
    (if is_json_null raw then Some ''must be a retention object''
     else case jc_retention jc raw of
       None \<Rightarrow> Some ''must be a retention object''
     | Some rp \<Rightarrow>
       (case find (\<lambda>(_, n). n < 0) (retention_checks rp) of
          Some (name, _) \<Rightarrow> Some (name @ '' must be at least 0'')
        | None \<Rightarrow> None))"

definition validate_blocked_paths :: validator where
  "validate_blocked_paths jc raw =
    (if is_json_null raw then Some ''must be a string array''
     else case jc_strings jc raw of
       (_, True) \<Rightarrow> Some ''must be a string array''
     | (ps, False) \<Rightarrow>
       (if list_ex (\<lambda>p. trim_space p = '''') ps then Some ''paths must be non-empty strings'' else None))"

section \<open>The registry\<close>

definition registry :: "(string \<times> string \<times> validator) list" where
  "registry =
    [(''default_retention'', ''{\"keep_last\":5,\"keep_hourly\":0,\"keep_daily\":0,\"keep_weekly\":0,\"keep_monthly\":0,\"keep_yearly\":0}'', validate_retention),
     (''heartbeat_interval_seconds'', ''30'', validate_int_min 5),
     (''agent_offline_threshold_seconds'', ''300'', validate_int_min 30),
     (''job_history_days'', ''30'', validate_int_min 1),
     (''health_threshold_failing'', ''0.9'', validate_health_threshold),
     (''health_threshold_warning'', ''0.99'', validate_health_threshold),
     (''max_heatmap_runs'', ''30'', validate_int_min 5),
     (''default_hook_timeout_seconds'', ''60'', validate_int_min 5),
     (''file_browser_blocked_paths'', ''[\"/proc\",\"/sys\",\"/dev\",\"/run/credentials\",\"/selinux\",\"/cgroup\"]'', validate_blocked_paths),
     (''command_timeout_backup_seconds'', ''86400'', validate_int_min 60),
     (''command_timeout_restore_seconds'', ''86400'', validate_int_min 60),
     (''command_timeout_list_snapshots_seconds'', ''300'', validate_int_min 5),
     (''command_timeout_browse_snapshot_seconds'', ''300'', validate_int_min 5),
     (''command_timeout_browse_filesystem_seconds'', ''30'', validate_int_min 1),
     (''command_timeout_default_seconds'', ''300'', validate_int_min 5),
     (''outbox_spill_max_rows'', ''20000'', validate_int_min 100),
     (''outbox_spill_retention_seconds'', ''604800'', validate_int_min 60),
     (''outbox_flush_interval_seconds'', ''60'', validate_int_min 1),
     (''outbox_delivery_timeout_seconds'', ''10'', validate_int_min 1),
     (''outbox_max_attempts'', ''10'', validate_int_min 1)]"

definition setting_keys :: "string list" where
  "setting_keys = map fst registry"

definition default_json :: "string \<Rightarrow> string option" where
  "default_json key = map_option fst (map_of registry key)"

definition default_int :: "json_codec \<Rightarrow> string \<Rightarrow> int option" where
  "default_int jc key =
    (case default_json key of
       None \<Rightarrow> None
     | Some raw \<Rightarrow> map_option (jc_trunc jc) (jc_float jc raw))"

record field_error =
  fe_key :: string
  fe_message :: string

definition validate_entry :: "json_codec \<Rightarrow> string \<times> string \<Rightarrow> field_error list" where
  "validate_entry jc e = (case e of (key, raw) \<Rightarrow>
    (case map_of registry key of
       None \<Rightarrow> [\<lparr>fe_key = key, fe_message = ''unknown setting''\<rparr>]
     | Some (_, val) \<Rightarrow>
       (case val jc raw of None \<Rightarrow> [] | Some m \<Rightarrow> [\<lparr>fe_key = key, fe_message = m\<rparr>])))"

text \<open>The input map in the order its iteration happens to have.\<close>

definition validate_input :: "json_codec \<Rightarrow> (string \<times> string) list \<Rightarrow> field_error list" where
  "validate_input jc input = concat (map (validate_entry jc) input)"

section \<open>Loading and updating\<close>

fun load_from ::
  "json_codec \<Rightarrow> server_env \<Rightarrow> ctx \<Rightarrow> (string \<times> string \<times> validator) list \<Rightarrow> store \<Rightarrow> (string \<times> string) list result \<times> store" where
  "load_from jc v c [] s = (Inr [], s)"
| "load_from jc v c ((key, dflt, val) # es) s =
    (case get_setting v c key s of
       (Inl er, s1) \<Rightarrow> (Inl (Wrap (''get setting \"'' @ key @ ''\"'') er), s1)
     | (Inr stored, s1) \<Rightarrow>
       (let raw = (case stored of None \<Rightarrow> dflt | Some x \<Rightarrow> (case val jc x of None \<Rightarrow> x | Some _ \<Rightarrow> dflt))
        in case load_from jc v c es s1 of
             (Inl er, s2) \<Rightarrow> (Inl er, s2)
           | (Inr out, s2) \<Rightarrow> (Inr ((key, raw) # out), s2)))"

definition load_resolved :: "json_codec \<Rightarrow> server_env \<Rightarrow> ctx \<Rightarrow> store \<Rightarrow> (string \<times> string) list result \<times> store" where
  "load_resolved jc v c s = load_from jc v c registry s"

fun apply_settings :: "server_env \<Rightarrow> ctx \<Rightarrow> (string \<times> string) list \<Rightarrow> store \<Rightarrow> unit result \<times> store" where
  "apply_settings v c [] s = (Inr (), s)"
| "apply_settings v c ((key, raw) # rest) s =
    (case set_setting v c key raw s of
       (Inl er, s1) \<Rightarrow> (Inl er, s1)
     | (Inr _, s1) \<Rightarrow> apply_settings v c rest s1)"

section \<open>Lemmas\<close>

definition resolve :: "json_codec \<Rightarrow> string option \<Rightarrow> string \<Rightarrow> validator \<Rightarrow> string" where
  "resolve jc stored dflt val =
    (case stored of None \<Rightarrow> dflt | Some x \<Rightarrow> (case val jc x of None \<Rightarrow> x | Some _ \<Rightarrow> dflt))"

lemma load_from_ok:
  assumes "fault_free (se_sql v)"
  shows "load_from jc v background es s = (Inr (map (\<lambda>(k, d, val). (k, resolve jc (map_of (st_settings s) k) d val)) es),
    s\<lparr>st_tick := st_tick s + length es\<rparr>)"
proof (induction es arbitrary: s)
  case (Cons e es)
  then show ?case by (cases e) (simp add: get_setting_def query_ok[OF assms] resolve_def del: background_simp)
qed simp

lemma load_from_values:
  "load_from jc v c es s = (Inr out, s') \<Longrightarrow> map fst out = map fst es
    \<and> list_all2 (\<lambda>(k, raw) (k', d, val). raw = resolve jc (map_of (st_settings s) k') d val) out es"
proof (induction es arbitrary: s out)
  case (Cons e es)
  obtain k d val where e: "e = (k, d, val)" by (metis prod.exhaust)
  obtain r s1 where q: "get_setting v c k s = (r, s1)" by fastforce
  then have s1: "st_settings s1 = st_settings s" "\<And>x. r = Inr x \<Longrightarrow> x = map_of (st_settings s) k"
    using query_cases[OF q[unfolded get_setting_def]] by auto
  from Cons.prems obtain out' where o: "load_from jc v c es s1 = (Inr out', s')"
    "out = (k, resolve jc (map_of (st_settings s) k) d val) # out'"
    unfolding e using q s1(2) by (auto simp: Let_def resolve_def split: sum.splits prod.splits)
  show ?case using Cons.IH[OF o(1)] s1(1) by (simp add: e o(2))
qed simp

lemma map_of_table: "map_of (map (\<lambda>(k, d, val). (k, g k d val)) es) k = map_option (\<lambda>(d, val). g k d val) (map_of es k)"
  by (induction es) auto

lemma apply_settings_ok:
  assumes "fault_free (se_sql v)"
  shows "\<exists>t. apply_settings v background input s
    = (Inr (), s\<lparr>st_settings := fold (\<lambda>(k, x). AList.update k x) input (st_settings s), st_tick := t\<rparr>)"
proof (induction input arbitrary: s)
  case Nil
  show ?case by (intro exI[of _ "st_tick s"]) simp
next
  case (Cons e input)
  obtain k x where e: "e = (k, x)" by fastforce
  let ?s = "s\<lparr>st_settings := AList.update k x (st_settings s), st_tick := Suc (st_tick s)\<rparr>"
  from Cons.IH[of ?s] obtain t where "apply_settings v background input ?s
      = (Inr (), ?s\<lparr>st_settings := fold (\<lambda>(k, x). AList.update k x) input (st_settings ?s), st_tick := t\<rparr>)" by blast
  then show ?case by (intro exI[of _ t]) (simp add: e set_setting_def statement_ok[OF assms] del: background_simp)
qed

lemma map_of_updates:
  "distinct (map fst input) \<Longrightarrow> map_of (fold (\<lambda>(k, x). AList.update k x) input m) k
    = (case map_of input k of None \<Rightarrow> map_of m k | Some x \<Rightarrow> Some x)"
proof (induction input arbitrary: m)
  case (Cons e input)
  then show ?case by (cases e) (auto simp: update_conv' split: option.split dest: map_of_SomeD intro: rev_image_eqI)
qed simp

section \<open>Properties\<close>

text \<open>
  C37. Settings round trip: when an update is accepted (the validation reports no field) and
  stored, the settings that are read back afterwards are exactly the registered keys, each
  key of the update has the value it was given, and every other key its stored value if that
  is valid and its default otherwise.
\<close>

theorem settings_round_trip:
  assumes "fault_free (se_sql v)" and "distinct (map fst input)" and "validate_input jc input = []"
  shows "\<exists>s1 s2 out. apply_settings v background input s = (Inr (), s1)
    \<and> load_resolved jc v background s1 = (Inr out, s2)
    \<and> map fst out = setting_keys
    \<and> list_all (\<lambda>(k, raw). map_of out k = Some raw) input
    \<and> list_all (\<lambda>(k, raw). k \<in> set (map fst input) \<or> map_of out k
        = map_option (\<lambda>(d, val). resolve jc (map_of (st_settings s) k) d val) (map_of registry k)) out"
proof -
  obtain t where ap: "apply_settings v background input s
      = (Inr (), s\<lparr>st_settings := fold (\<lambda>(k, x). AList.update k x) input (st_settings s), st_tick := t\<rparr>)"
    using apply_settings_ok[OF assms(1)] by blast
  define s1 where "s1 = s\<lparr>st_settings := fold (\<lambda>(k, x). AList.update k x) input (st_settings s), st_tick := t\<rparr>"
  define out where "out = map (\<lambda>(k, d, val). (k, resolve jc (map_of (st_settings s1) k) d val)) registry"
  have st: "map_of (st_settings s1) k = (case map_of input k of None \<Rightarrow> map_of (st_settings s) k | Some x \<Rightarrow> Some x)" for k
    unfolding s1_def using map_of_updates[OF assms(2)] by simp
  have out: "map_of out k = map_option (\<lambda>(d, val). resolve jc (map_of (st_settings s1) k) d val) (map_of registry k)" for k
    unfolding out_def by (rule map_of_table)
  have "map_of out k = Some raw" if "(k, raw) \<in> set input" for k raw
  proof -
    have "validate_entry jc (k, raw) = []" using assms(3) that by (auto simp: validate_input_def)
    then obtain d val where "map_of registry k = Some (d, val)" "val jc raw = None"
      by (auto simp: validate_entry_def split: option.splits)
    moreover have "map_of input k = Some raw" using that assms(2) by simp
    ultimately show ?thesis by (simp add: out st resolve_def)
  qed
  moreover have "map_of out k = map_option (\<lambda>(d, val). resolve jc (map_of (st_settings s) k) d val) (map_of registry k)"
    if "k \<notin> set (map fst input)" for k
  proof -
    have "map_of input k = None" using that by (simp add: map_of_eq_None_iff)
    then show ?thesis by (simp add: out st)
  qed
  moreover have "load_resolved jc v background s1 = (Inr out, s1\<lparr>st_tick := st_tick s1 + length registry\<rparr>)"
    unfolding load_resolved_def load_from_ok[OF assms(1)] out_def ..
  moreover have "map fst out = setting_keys" by (auto simp: out_def setting_keys_def)
  ultimately show ?thesis using ap unfolding s1_def[symmetric]
    by (intro exI[of _ s1] exI[of _ out] exI) (auto simp: list_all_iff)
qed

definition plain_codec :: json_codec where
  "plain_codec = \<lparr>jc_float = \<lambda>raw. map_option of_int (int_literal raw), jc_trunc = floor,
     jc_retention = \<lambda>_. None, jc_strings = \<lambda>_. ([], True), jc_timeouts = \<lambda>_. None, jc_outbox = \<lambda>_. None\<rparr>"

lemma plain_codec_exact: "exact_floats plain_codec"
  by (simp add: exact_floats_def plain_codec_def)

theorem settings_round_trip_witness:
  "\<exists>s1 s2 out. apply_settings demo_env background [(''outbox_max_attempts'', ''3'')] empty_store = (Inr (), s1)
    \<and> load_resolved plain_codec demo_env background s1 = (Inr out, s2)
    \<and> map_of out ''outbox_max_attempts'' = Some ''3''"
proof -
  have "validate_input plain_codec [(''outbox_max_attempts'', ''3'')] = []"
    by (simp add: validate_input_def validate_entry_def registry_def validate_int_min_def plain_codec_def
        int_literal_def is_digit_def digits_value_def)
  with settings_round_trip[of demo_env "[(''outbox_max_attempts'', ''3'')]" plain_codec empty_store]
  show ?thesis by (fastforce simp: demo_env_def)
qed

end
