(* ===== verification/ConfigPush.thy ===== *)
theory ConfigPush
  imports Settings AgentMgr
begin

text \<open>
  Building and pushing an agent's configuration (server/internal/configpush/resolver.go): the
  plans of the agent with their hooks resolved, the repositories they use with their
  passwords, and the tunables layered from defaults, settings and the agent's overrides.
\<close>

section \<open>Settings with fallbacks\<close>

definition bind_ok ::
  "(go_error \<Rightarrow> go_error) \<Rightarrow> 'a result \<times> store \<Rightarrow> ('a \<Rightarrow> store \<Rightarrow> 'b result \<times> store) \<Rightarrow> 'b result \<times> store" where
  "bind_ok wrap q f = (case q of (Inl er, s) \<Rightarrow> (Inl (wrap er), s) | (Inr x, s) \<Rightarrow> f x s)"

text \<open>A stored value counts when it is a positive \<open>int32\<close>.\<close>

definition positive_int :: "int \<Rightarrow> string option \<Rightarrow> int" where
  "positive_int dflt stored =
    (case stored of
       None \<Rightarrow> dflt
     | Some raw \<Rightarrow> (case json_int32 raw of None \<Rightarrow> dflt | Some n \<Rightarrow> (if n > 0 then n else dflt)))"

definition load_int :: "server_env \<Rightarrow> ctx \<Rightarrow> string \<Rightarrow> store \<Rightarrow> int result \<times> store" where
  "load_int v c key s = bind_ok (Wrap (''get '' @ key)) (get_setting v c key s) (\<lambda>x s. (Inr (positive_int 0 x), s))"

text \<open>The loop over a map from field names to settings, in the order of its iteration.\<close>

fun load_ints :: "server_env \<Rightarrow> ctx \<Rightarrow> (string \<times> string) list \<Rightarrow> store \<Rightarrow> (string \<times> int) list result \<times> store" where
  "load_ints v c [] s = (Inr [], s)"
| "load_ints v c ((field, key) # ks) s =
    bind_ok (\<lambda>er. er) (load_int v c key s) (\<lambda>n s.
    bind_ok (\<lambda>er. er) (load_ints v c ks s) (\<lambda>ns s. (Inr ((field, n) # ns), s)))"

definition field_value :: "(string \<times> int) list \<Rightarrow> string \<Rightarrow> int" where
  "field_value ns field = (case map_of ns field of None \<Rightarrow> 0 | Some n \<Rightarrow> n)"

definition override :: "int \<Rightarrow> int \<Rightarrow> int" where
  "override base x = (if x > 0 then x else base)"

section \<open>Command timeouts\<close>

definition timeout_keys :: "(string \<times> string) list" where
  "timeout_keys = [(''backup'', ''command_timeout_backup_seconds''), (''restore'', ''command_timeout_restore_seconds''),
     (''list_snapshots'', ''command_timeout_list_snapshots_seconds''),
     (''browse_snapshot'', ''command_timeout_browse_snapshot_seconds''),
     (''browse_filesystem'', ''command_timeout_browse_filesystem_seconds''),
     (''default'', ''command_timeout_default_seconds'')]"

definition timeouts_of :: "(string \<times> int) list \<Rightarrow> command_timeouts" where
  "timeouts_of ns = \<lparr>ct_backup_secs = field_value ns ''backup'', ct_restore_secs = field_value ns ''restore'',
     ct_list_snapshots_secs = field_value ns ''list_snapshots'', ct_browse_snapshot_secs = field_value ns ''browse_snapshot'',
     ct_browse_filesystem_secs = field_value ns ''browse_filesystem'', ct_default_secs = field_value ns ''default''\<rparr>"

definition override_timeouts :: "command_timeouts \<Rightarrow> command_timeouts \<Rightarrow> command_timeouts" where
  "override_timeouts b x = \<lparr>ct_backup_secs = override (ct_backup_secs b) (ct_backup_secs x),
     ct_restore_secs = override (ct_restore_secs b) (ct_restore_secs x),
     ct_list_snapshots_secs = override (ct_list_snapshots_secs b) (ct_list_snapshots_secs x),
     ct_browse_snapshot_secs = override (ct_browse_snapshot_secs b) (ct_browse_snapshot_secs x),
     ct_browse_filesystem_secs = override (ct_browse_filesystem_secs b) (ct_browse_filesystem_secs x),
     ct_default_secs = override (ct_default_secs b) (ct_default_secs x)\<rparr>"

definition no_timeouts :: command_timeouts where
  "no_timeouts = \<lparr>ct_backup_secs = 0, ct_restore_secs = 0, ct_list_snapshots_secs = 0, ct_browse_snapshot_secs = 0,
     ct_browse_filesystem_secs = 0, ct_default_secs = 0\<rparr>"

text \<open>An override that is absent, empty or not readable counts as none.\<close>

definition stored_override :: "(string \<Rightarrow> 'a option) \<Rightarrow> string option \<Rightarrow> 'a option" where
  "stored_override decode x = (case x of None \<Rightarrow> None | Some raw \<Rightarrow> (if raw = '''' then None else decode raw))"

definition layer :: "('a \<Rightarrow> 'a \<Rightarrow> 'a) \<Rightarrow> 'a \<Rightarrow> 'a \<Rightarrow> 'a option \<Rightarrow> 'a option" where
  "layer over none base x =
    (let merged = (case x of None \<Rightarrow> base | Some y \<Rightarrow> over base y)
     in if merged = none then None else Some merged)"

definition resolve_command_timeouts ::
  "json_codec \<Rightarrow> (string \<times> string) list \<Rightarrow> server_env \<Rightarrow> ctx \<Rightarrow> agent_row \<Rightarrow> store \<Rightarrow> command_timeouts option result \<times> store" where
  "resolve_command_timeouts jc keys v c agent s =
    bind_ok (\<lambda>er. er) (load_ints v c keys s) (\<lambda>ns s.
      (Inr (layer override_timeouts no_timeouts (timeouts_of ns)
        (stored_override (jc_timeouts jc) (ag_command_timeouts agent))), s))"

section \<open>Outbox tunables\<close>

definition outbox_keys :: "(string \<times> string) list" where
  "outbox_keys = [(''spill_max_rows'', ''outbox_spill_max_rows''), (''spill_retention_secs'', ''outbox_spill_retention_seconds''),
     (''flush_interval_secs'', ''outbox_flush_interval_seconds''),
     (''delivery_timeout_secs'', ''outbox_delivery_timeout_seconds''), (''max_attempts'', ''outbox_max_attempts'')]"

definition outbox_of :: "(string \<times> int) list \<Rightarrow> outbox_proto" where
  "outbox_of ns = \<lparr>op_spill_max_rows = field_value ns ''spill_max_rows'',
     op_spill_retention_secs = field_value ns ''spill_retention_secs'',
     op_flush_interval_secs = field_value ns ''flush_interval_secs'',
     op_delivery_timeout_secs = field_value ns ''delivery_timeout_secs'', op_max_attempts = field_value ns ''max_attempts''\<rparr>"

definition override_outbox :: "outbox_proto \<Rightarrow> outbox_proto \<Rightarrow> outbox_proto" where
  "override_outbox b x = \<lparr>op_spill_max_rows = override (op_spill_max_rows b) (op_spill_max_rows x),
     op_spill_retention_secs = override (op_spill_retention_secs b) (op_spill_retention_secs x),
     op_flush_interval_secs = override (op_flush_interval_secs b) (op_flush_interval_secs x),
     op_delivery_timeout_secs = override (op_delivery_timeout_secs b) (op_delivery_timeout_secs x),
     op_max_attempts = override (op_max_attempts b) (op_max_attempts x)\<rparr>"

definition no_outbox :: outbox_proto where
  "no_outbox = \<lparr>op_spill_max_rows = 0, op_spill_retention_secs = 0, op_flush_interval_secs = 0,
     op_delivery_timeout_secs = 0, op_max_attempts = 0\<rparr>"

definition resolve_outbox ::
  "json_codec \<Rightarrow> (string \<times> string) list \<Rightarrow> server_env \<Rightarrow> ctx \<Rightarrow> agent_row \<Rightarrow> store \<Rightarrow> outbox_proto option result \<times> store" where
  "resolve_outbox jc keys v c agent s =
    bind_ok (\<lambda>er. er) (load_ints v c keys s) (\<lambda>ns s.
      (Inr (layer override_outbox no_outbox (outbox_of ns)
        (stored_override (jc_outbox jc) (ag_outbox_overrides agent))), s))"

section \<open>Plans and hooks\<close>

definition pb_retention :: "retention_policy \<Rightarrow> retention_policy" where
  "pb_retention rp = \<lparr>rp_keep_last = to_int32 (rp_keep_last rp), rp_keep_hourly = to_int32 (rp_keep_hourly rp),
     rp_keep_daily = to_int32 (rp_keep_daily rp), rp_keep_weekly = to_int32 (rp_keep_weekly rp),
     rp_keep_monthly = to_int32 (rp_keep_monthly rp), rp_keep_yearly = to_int32 (rp_keep_yearly rp)\<rparr>"

definition or_else :: "'a \<Rightarrow> 'a option \<Rightarrow> 'a" where
  "or_else d x = (case x of None \<Rightarrow> d | Some y \<Rightarrow> y)"

definition script_hook :: "plan_hook \<Rightarrow> script_row \<Rightarrow> resolved_hook" where
  "script_hook h x = \<lparr>rh_name = sx_name x, rh_on_event = ph_on_event h, rh_sort_order = to_int32 (ph_sort_order h),
     rh_type = sx_type x, rh_command = sx_command x,
     rh_timeout_seconds = to_int32 (or_else (sx_timeout x) (ph_timeout h)), rh_on_error = or_else (sx_on_error x) (ph_on_error h)\<rparr>"

definition inline_hook :: "int \<Rightarrow> plan_hook \<Rightarrow> resolved_hook" where
  "inline_hook dflt h = \<lparr>rh_name = ph_on_event h @ ''-inline'', rh_on_event = ph_on_event h,
     rh_sort_order = to_int32 (ph_sort_order h), rh_type = or_else ''command'' (ph_type h),
     rh_command = or_else '''' (ph_command h),
     rh_timeout_seconds = (case ph_timeout h of None \<Rightarrow> dflt | Some t \<Rightarrow> to_int32 t),
     rh_on_error = or_else ''continue'' (ph_on_error h)\<rparr>"

text \<open>A hook whose script cannot be loaded is left out.\<close>

fun resolve_hooks :: "server_env \<Rightarrow> ctx \<Rightarrow> int \<Rightarrow> plan_hook list \<Rightarrow> store \<Rightarrow> resolved_hook list \<times> store" where
  "resolve_hooks v c dflt [] s = ([], s)"
| "resolve_hooks v c dflt (h # hs) s =
    (case ph_script_id h of
       None \<Rightarrow> (case resolve_hooks v c dflt hs s of (rs, s1) \<Rightarrow> (inline_hook dflt h # rs, s1))
     | Some i \<Rightarrow>
       (case get_script v c i s of
          (Inr (Some x), s1) \<Rightarrow> (case resolve_hooks v c dflt hs s1 of (rs, s2) \<Rightarrow> (script_hook h x # rs, s2))
        | (_, s1) \<Rightarrow> resolve_hooks v c dflt hs s1))"

definition pb_plan :: "plan_row \<Rightarrow> resolved_hook list \<Rightarrow> backup_plan" where
  "pb_plan p hooks = \<lparr>bp_id = pr_id p, bp_name = pr_name p, bp_paths = pr_paths p, bp_excludes = pr_excludes p,
     bp_tags = pr_tags p, bp_repository_ids = pr_repository_ids p, bp_schedule = pr_schedule p,
     bp_forget_after_backup = pr_forget_after_backup p, bp_prune_after_forget = pr_prune_after_forget p,
     bp_prune_schedule = or_else '''' (pr_prune_schedule p), bp_retention = map_option pb_retention (pr_retention p),
     bp_hooks = hooks, bp_enabled = pr_enabled p\<rparr>"

text \<open>A plan whose hooks cannot be listed is left out.\<close>

fun build_plans :: "server_env \<Rightarrow> ctx \<Rightarrow> int \<Rightarrow> plan_row list \<Rightarrow> store \<Rightarrow> backup_plan list \<times> store" where
  "build_plans v c dflt [] s = ([], s)"
| "build_plans v c dflt (p # ps) s =
    (case list_hooks v c (pr_id p) s of
       (Inl _, s1) \<Rightarrow> build_plans v c dflt ps s1
     | (Inr hooks, s1) \<Rightarrow>
       (case resolve_hooks v c dflt hooks s1 of
          (rs, s2) \<Rightarrow> (case build_plans v c dflt ps s2 of (qs, s3) \<Rightarrow> (pb_plan p rs # qs, s3))))"

definition pb_repository :: "repository_row \<Rightarrow> repository" where
  "pb_repository r = \<lparr>repo_id = ry_id r, repo_name = ry_name r, repo_type = ry_type r, repo_path = ry_path r,
     repo_password = ry_password r\<rparr>"

definition used_repo_ids :: "plan_row list \<Rightarrow> string list" where
  "used_repo_ids ps = remdups (concat (map pr_repository_ids ps))"

section \<open>Pushing\<close>

text \<open>
  The iteration orders of the two maps of setting keys and of the map of repositories are
  parameters.
\<close>

record push_params =
  pp_codec :: json_codec
  pp_secrets :: secrets
  pp_timeout_keys :: "(string \<times> string) list"
  pp_outbox_keys :: "(string \<times> string) list"
  pp_repo_order :: "repository_row list \<Rightarrow> repository_row list"

definition blocked_of :: "json_codec \<Rightarrow> string option \<Rightarrow> string list" where
  "blocked_of jc x = (case x of None \<Rightarrow> [] | Some raw \<Rightarrow> fst (jc_strings jc raw))"

definition retention_of :: "json_codec \<Rightarrow> string option \<Rightarrow> retention_policy option" where
  "retention_of jc x = (case x of None \<Rightarrow> None | Some raw \<Rightarrow> map_option pb_retention (jc_retention jc raw))"

text \<open>Everything up to the message; \<open>None\<close> when there is nothing to push.\<close>

definition build_config ::
  "push_params \<Rightarrow> server_env \<Rightarrow> ctx \<Rightarrow> string \<Rightarrow> store \<Rightarrow> agent_config option result \<times> store" where
  "build_config pp v c agentID s =
    bind_ok (Wrap ''get agent'') (get_agent (pp_secrets pp) v c agentID s) (\<lambda>found s.
    (case found of
       None \<Rightarrow> (Inr None, s)
     | Some agent \<Rightarrow>
       (if ag_status agent \<noteq> ''approved'' then (Inr None, s)
        else
    bind_ok (Wrap ''list plans'') (list_plans v c agentID s) (\<lambda>plans s.
    bind_ok (Wrap ''get repositories'') (get_repositories_by_ids (pp_secrets pp) v c (used_repo_ids plans) s) (\<lambda>repos s.
    bind_ok (Wrap ''get default retention'') (get_setting v c ''default_retention'' s) (\<lambda>ret s.
    (case default_int (pp_codec pp) ''default_hook_timeout_seconds'' of
       None \<Rightarrow> (Inl (Msg ''missing settings default default_hook_timeout_seconds''), s)
     | Some hookDefault \<Rightarrow>
    bind_ok (Wrap ''get default hook timeout'') (get_setting v c ''default_hook_timeout_seconds'' s) (\<lambda>hookVal s.
    (case default_int (pp_codec pp) ''heartbeat_interval_seconds'' of
       None \<Rightarrow> (Inl (Msg ''missing settings default heartbeat_interval_seconds''), s)
     | Some hbDefault \<Rightarrow>
    bind_ok (Wrap ''get heartbeat interval'') (get_setting v c ''heartbeat_interval_seconds'' s) (\<lambda>hbVal s.
    bind_ok (Wrap ''get blocked paths'') (get_setting v c ''file_browser_blocked_paths'' s) (\<lambda>bpVal s.
    bind_ok (Wrap ''resolve command timeouts'')
      (resolve_command_timeouts (pp_codec pp) (pp_timeout_keys pp) v c agent s) (\<lambda>cts s.
    bind_ok (Wrap ''resolve outbox'') (resolve_outbox (pp_codec pp) (pp_outbox_keys pp) v c agent s) (\<lambda>ob s.
    (case build_plans v c (positive_int (to_int32 hookDefault) hookVal) plans s of
       (pbPlans, s) \<Rightarrow>
    bind_ok (Wrap ''update config version'') (update_config_version v c agentID s) (\<lambda>version s.
      (Inr (Some \<lparr>ac_config_version = to_int32 version, ac_repositories = map pb_repository (pp_repo_order pp repos),
         ac_backup_plans = pbPlans, ac_default_retention = retention_of (pp_codec pp) ret,
         ac_rclone_config = or_else '''' (ag_rclone_config agent),
         ac_heartbeat_interval_secs = positive_int (to_int32 hbDefault) hbVal,
         ac_blocked_paths = blocked_of (pp_codec pp) bpVal, ac_command_timeouts = cts, ac_outbox = ob\<rparr>), s))))))))))))))))"

definition push_config_to_agent ::
  "push_params \<Rightarrow> server_env \<Rightarrow> ctx \<Rightarrow> string \<Rightarrow> store \<times> manager \<Rightarrow> unit result \<times> (store \<times> manager)" where
  "push_config_to_agent pp v c agentID sm =
    (case sm of (s, m) \<Rightarrow>
      (if \<not> is_online agentID m then (Inr (), (s, m))
       else case build_config pp v c agentID s of
         (Inl er, s1) \<Rightarrow> (Inl er, (s1, m))
       | (Inr None, s1) \<Rightarrow> (Inr (), (s1, m))
       | (Inr (Some config), s1) \<Rightarrow>
         (case mgr_send agentID (Config config) m of
            (Inl er, m1) \<Rightarrow> (Inl (Wrap (''send config to agent '' @ agentID) er), (s1, m1))
          | (Inr _, m1) \<Rightarrow> (Inr (), (s1, m1)))))"

fun push_each ::
  "push_params \<Rightarrow> server_env \<Rightarrow> ctx \<Rightarrow> agent_row list \<Rightarrow> store \<times> manager \<Rightarrow> store \<times> manager" where
  "push_each pp v c [] sm = sm"
| "push_each pp v c (a # as) sm =
    push_each pp v c as
      (if ag_status a = ''approved'' \<and> is_online (ag_id a) (snd sm)
       then snd (push_config_to_agent pp v c (ag_id a) sm) else sm)"

definition push_config_to_all_agents ::
  "push_params \<Rightarrow> server_env \<Rightarrow> ctx \<Rightarrow> store \<times> manager \<Rightarrow> store \<times> manager" where
  "push_config_to_all_agents pp v c sm =
    (case list_agents (pp_secrets pp) v c (fst sm) of
       (Inl _, s1) \<Rightarrow> (s1, snd sm)
     | (Inr as, s1) \<Rightarrow> push_each pp v c as (s1, snd sm))"

section \<open>What the reads return\<close>

definition ticked :: "store \<Rightarrow> store \<Rightarrow> bool" where
  "ticked s s' \<longleftrightarrow> (\<exists>t. s' = s\<lparr>st_tick := t\<rparr>)"

lemma ticked_refl [simp]: "ticked s s"
  by (auto simp: ticked_def intro: exI[of _ "st_tick s"])

lemma ticked_trans: "ticked s s1 \<Longrightarrow> ticked s1 s2 \<Longrightarrow> ticked s s2"
  by (auto simp: ticked_def)

lemma ticked_rows:
  "ticked s s' \<Longrightarrow> st_agents s' = st_agents s \<and> st_plans s' = st_plans s \<and> st_repos s' = st_repos s
    \<and> st_hooks s' = st_hooks s \<and> st_scripts s' = st_scripts s \<and> st_settings s' = st_settings s \<and> st_jobs s' = st_jobs s"
  by (auto simp: ticked_def)

lemma query_ticked: "query v c what x s = (r, s') \<Longrightarrow> ticked s s' \<and> (\<forall>y. r = Inr y \<longrightarrow> y = x)"
  by (drule query_cases) (auto simp: ticked_def)

lemma bind_ok_Inr: "bind_ok w q f = (Inr y, s') \<longleftrightarrow> (\<exists>x s. q = (Inr x, s) \<and> f x s = (Inr y, s'))"
  by (auto simp: bind_ok_def split: prod.splits sum.splits)

lemma bind_ok_ok [simp]: "bind_ok w (Inr x, s) f = f x s"
  by (simp add: bind_ok_def)

definition setting_of :: "string \<Rightarrow> store \<Rightarrow> string option" where
  "setting_of key s = map_of (st_settings s) key"

lemma get_agentD:
  assumes "get_agent k v c i s = (Inr r, s')"
  shows "ticked s s' \<and> (\<forall>a. r = Some a \<longrightarrow> (\<exists>row. find_agent i s = Some row
    \<and> open_agent k ''decrypt agent rclone config'' row = Inr a))"
proof -
  obtain q s1 where q: "query v c ''get agent'' (find_agent i s) s = (q, s1)" by fastforce
  with query_ticked[OF q] assms show ?thesis
    by (auto simp: get_agent_def read_agent_def split: sum.splits option.splits)
qed

lemma list_plansD:
  assumes "list_plans v c i s = (Inr ps, s')" and "i \<noteq> ''''"
  shows "ticked s s' \<and> ps = agent_plans i s"
proof -
  let ?ps = "sort_key pr_name (filter (\<lambda>p. i = '''' \<or> pr_agent_id p = i) (st_plans s))"
  obtain q s1 where q: "query v c ''list plans'' ?ps s = (q, s1)" by fastforce
  obtain q2 s2 where q2: "query v c ''load plan repositories'' ?ps s1 = (q2, s2)" by fastforce
  have e: "?ps = agent_plans i s" using assms(2) by (simp add: agent_plans_def)
  show ?thesis using assms(1) query_ticked[OF q] query_ticked[OF q2] q q2 unfolding list_plans_def Let_def
    by (auto simp: e[symmetric] split: sum.splits if_splits intro: ticked_trans)
qed

lemma get_reposD:
  assumes "get_repositories_by_ids k v c ids s = (Inr rs, s')"
  shows "ticked s s' \<and> list_all2 (\<lambda>r x. open_repo k r = Inr x) (filter (\<lambda>r. ry_id r \<in> set ids) (st_repos s)) rs"
proof -
  obtain q s1 where q: "query v c ''get repositories by ids'' (filter (\<lambda>r. ry_id r \<in> set ids) (st_repos s)) s = (q, s1)"
    by fastforce
  show ?thesis using assms query_ticked[OF q] q
    by (auto simp: get_repositories_by_ids_def map_rows_Inr split: if_splits sum.splits)
qed

lemma get_settingD: "get_setting v c key s = (Inr x, s') \<Longrightarrow> ticked s s' \<and> x = setting_of key s"
  using query_ticked by (fastforce simp: get_setting_def setting_of_def)

lemma ticked_setting: "ticked s s' \<Longrightarrow> setting_of key s' = setting_of key s"
  by (auto simp: ticked_def setting_of_def)

definition loaded :: "(string \<times> string) list \<Rightarrow> store \<Rightarrow> (string \<times> int) list" where
  "loaded keys s = map (\<lambda>(f, k). (f, positive_int 0 (setting_of k s))) keys"

lemma load_intsD: "load_ints v c keys s = (Inr ns, s') \<Longrightarrow> ticked s s' \<and> ns = loaded keys s"
proof (induction keys arbitrary: s ns)
  case (Cons e keys)
  obtain f k where e: "e = (f, k)" by fastforce
  from Cons.prems obtain n s1 ms where 1: "load_int v c k s = (Inr n, s1)" and 2: "load_ints v c keys s1 = (Inr ms, s')"
    and ns: "ns = (f, n) # ms" by (auto simp: e bind_ok_Inr)
  have n: "ticked s s1 \<and> n = positive_int 0 (setting_of k s)" using 1 by (auto simp: load_int_def bind_ok_Inr dest!: get_settingD)
  then have "setting_of key s1 = setting_of key s" for key using ticked_setting by blast
  then have "loaded keys s1 = loaded keys s" by (simp add: loaded_def)
  with Cons.IH[OF 2] n ns show ?case using ticked_trans by (auto simp: e loaded_def)
qed (simp add: loaded_def)

text \<open>Tunables of an agent: settings, with its overrides on top.\<close>

definition agent_timeouts :: "push_params \<Rightarrow> agent_row \<Rightarrow> store \<Rightarrow> command_timeouts option" where
  "agent_timeouts pp a s = layer override_timeouts no_timeouts (timeouts_of (loaded timeout_keys s))
     (stored_override (jc_timeouts (pp_codec pp)) (ag_command_timeouts a))"

definition agent_outbox :: "push_params \<Rightarrow> agent_row \<Rightarrow> store \<Rightarrow> outbox_proto option" where
  "agent_outbox pp a s = layer override_outbox no_outbox (outbox_of (loaded outbox_keys s))
     (stored_override (jc_outbox (pp_codec pp)) (ag_outbox_overrides a))"

definition orders_ok :: "push_params \<Rightarrow> bool" where
  "orders_ok pp \<longleftrightarrow> mset (pp_timeout_keys pp) = mset timeout_keys \<and> mset (pp_outbox_keys pp) = mset outbox_keys
     \<and> (\<forall>rs. mset (pp_repo_order pp rs) = mset rs)"

lemma field_value_perm:
  assumes "mset keys = mset keys'" and "distinct (map fst keys')"
  shows "field_value (loaded keys s) f = field_value (loaded keys' s) f"
proof -
  have fst: "map fst (loaded ks s) = map fst ks" for ks by (induction ks) (auto simp: loaded_def)
  have "mset (map fst keys) = mset (map fst keys')" using assms(1) by (metis mset_map)
  then have "distinct (map fst (loaded keys s))" "distinct (map fst (loaded keys' s))"
    using assms(2) mset_eq_imp_distinct_iff fst by metis+
  moreover have "set (loaded keys s) = set (loaded keys' s)"
    unfolding loaded_def set_map using mset_eq_setD[OF assms(1)] by simp
  ultimately have "map_of (loaded keys s) = map_of (loaded keys' s)" by (metis map_of_inject_set)
  then show ?thesis by (simp add: field_value_def)
qed

lemma timeouts_any_order:
  assumes "mset keys = mset timeout_keys"
  shows "timeouts_of (loaded keys s) = timeouts_of (loaded timeout_keys s)"
proof -
  have "field_value (loaded keys s) f = field_value (loaded timeout_keys s) f" for f
    by (rule field_value_perm[OF assms]) (simp add: timeout_keys_def)
  then show ?thesis by (simp only: timeouts_of_def)
qed

lemma outbox_any_order:
  assumes "mset keys = mset outbox_keys"
  shows "outbox_of (loaded keys s) = outbox_of (loaded outbox_keys s)"
proof -
  have "field_value (loaded keys s) f = field_value (loaded outbox_keys s) f" for f
    by (rule field_value_perm[OF assms]) (simp add: outbox_keys_def)
  then show ?thesis by (simp only: outbox_of_def)
qed

lemma resolve_timeoutsD:
  assumes "resolve_command_timeouts (pp_codec pp) (pp_timeout_keys pp) v c a s = (Inr x, s')" and "orders_ok pp"
  shows "ticked s s' \<and> x = agent_timeouts pp a s"
proof -
  from assms(1) obtain ns where "load_ints v c (pp_timeout_keys pp) s = (Inr ns, s')"
    and x: "x = layer override_timeouts no_timeouts (timeouts_of ns)
      (stored_override (jc_timeouts (pp_codec pp)) (ag_command_timeouts a))"
    by (auto simp: resolve_command_timeouts_def bind_ok_Inr)
  from load_intsD[OF this(1)] x show ?thesis
    using assms(2) timeouts_any_order[of "pp_timeout_keys pp" s] by (simp add: agent_timeouts_def orders_ok_def)
qed

lemma resolve_outboxD:
  assumes "resolve_outbox (pp_codec pp) (pp_outbox_keys pp) v c a s = (Inr x, s')" and "orders_ok pp"
  shows "ticked s s' \<and> x = agent_outbox pp a s"
proof -
  from assms(1) obtain ns where "load_ints v c (pp_outbox_keys pp) s = (Inr ns, s')"
    and x: "x = layer override_outbox no_outbox (outbox_of ns)
      (stored_override (jc_outbox (pp_codec pp)) (ag_outbox_overrides a))"
    by (auto simp: resolve_outbox_def bind_ok_Inr)
  from load_intsD[OF this(1)] x show ?thesis
    using assms(2) outbox_any_order[of "pp_outbox_keys pp" s] by (simp add: agent_outbox_def orders_ok_def)
qed


section \<open>What a configuration holds\<close>

declare background_simp [simp del]

text \<open>The hooks of a plan as the agent gets them, when everything can be loaded.\<close>

definition resolve_hook :: "int \<Rightarrow> store \<Rightarrow> plan_hook \<Rightarrow> resolved_hook option" where
  "resolve_hook dflt s h =
    (case ph_script_id h of
       None \<Rightarrow> Some (inline_hook dflt h)
     | Some i \<Rightarrow> map_option (script_hook h) (find_script i s))"

definition plan_spec :: "int \<Rightarrow> store \<Rightarrow> plan_row \<Rightarrow> backup_plan" where
  "plan_spec dflt s p = pb_plan p (List.map_filter (resolve_hook dflt s) (hooks_of (pr_id p) s))"

lemma ticked_hooks [simp]:
  "resolve_hook d (s\<lparr>st_tick := t\<rparr>) = resolve_hook d s" "hooks_of i (s\<lparr>st_tick := t\<rparr>) = hooks_of i s"
  "plan_spec d (s\<lparr>st_tick := t\<rparr>) = plan_spec d s"
proof -
  show 1: "resolve_hook d (s\<lparr>st_tick := t\<rparr>) = resolve_hook d s" by (rule ext) (simp add: resolve_hook_def find_script_def split: option.split)
  show 2: "hooks_of i (s\<lparr>st_tick := t\<rparr>) = hooks_of i s" for i by (simp add: hooks_of_def)
  show "plan_spec d (s\<lparr>st_tick := t\<rparr>) = plan_spec d s" by (rule ext) (simp add: plan_spec_def 1 2)
qed

lemma resolve_hooks_ok:
  assumes "fault_free (se_sql v)"
  shows "\<exists>t. resolve_hooks v background d hs s = (List.map_filter (resolve_hook d s) hs, s\<lparr>st_tick := t\<rparr>)"
proof (induction hs arbitrary: s)
  case Nil
  show ?case by (intro exI[of _ "st_tick s"]) simp
next
  case (Cons h hs)
  show ?case
  proof (cases "ph_script_id h")
    case None
    with Cons.IH[of s] show ?thesis by (auto simp: resolve_hook_def)
  next
    case (Some i)
    with Cons.IH[of "s\<lparr>st_tick := Suc (st_tick s)\<rparr>"] show ?thesis
      by (auto simp: get_script_def query_ok[OF assms] resolve_hook_def split: option.split)
  qed
qed

lemma build_plans_ok:
  assumes "fault_free (se_sql v)"
  shows "\<exists>t. build_plans v background d ps s = (map (plan_spec d s) ps, s\<lparr>st_tick := t\<rparr>)"
proof (induction ps arbitrary: s)
  case Nil
  show ?case by (intro exI[of _ "st_tick s"]) simp
next
  case (Cons p ps)
  let ?s1 = "s\<lparr>st_tick := Suc (st_tick s)\<rparr>"
  obtain t where "resolve_hooks v background d (hooks_of (pr_id p) s) ?s1
    = (List.map_filter (resolve_hook d s) (hooks_of (pr_id p) s), s\<lparr>st_tick := t\<rparr>)"
    using resolve_hooks_ok[OF assms, of d "hooks_of (pr_id p) s" ?s1] by auto
  moreover obtain t2 where "build_plans v background d ps (s\<lparr>st_tick := t\<rparr>) = (map (plan_spec d s) ps, s\<lparr>st_tick := t2\<rparr>)"
    using Cons.IH[of "s\<lparr>st_tick := t\<rparr>"] by auto
  ultimately show ?case by (auto simp: list_hooks_def query_ok[OF assms] plan_spec_def)
qed

text \<open>With failures the plans are still the agent's own, in their order, some left out.\<close>

lemma resolve_hooks_ticked: "resolve_hooks v c d hs s = (rs, s') \<Longrightarrow> ticked s s'"
proof (induction hs arbitrary: s rs s')
  case (Cons h hs)
  show ?case
  proof (cases "ph_script_id h")
    case None
    with Cons show ?thesis by (auto split: prod.splits)
  next
    case (Some i)
    obtain q s1 where q: "get_script v c i s = (q, s1)" by fastforce
    from q query_ticked have "ticked s s1" by (fastforce simp: get_script_def)
    moreover have "ticked s1 s'" using Cons q Some by (auto split: prod.splits sum.splits option.splits)
    ultimately show ?thesis by (rule ticked_trans)
  qed
qed simp

lemma build_plansD:
  "build_plans v c d ps s = (qs, s') \<Longrightarrow> ticked s s' \<and> (\<exists>us. us \<in> set (subseqs ps) \<and> list_all2 (\<lambda>q p. \<exists>hooks. q = pb_plan p hooks) qs us)"
proof (induction ps arbitrary: s qs s')
  case (Cons p ps)
  obtain q s1 where q: "list_hooks v c (pr_id p) s = (q, s1)" by fastforce
  then have t1: "ticked s s1" using query_ticked by (fastforce simp: list_hooks_def)
  show ?case
  proof (cases q)
    case (Inl er)
    with Cons.prems q have "build_plans v c d ps s1 = (qs, s')" by simp
    from Cons.IH[OF this] t1 ticked_trans show ?thesis by (auto simp: Let_def)
  next
    case (Inr hooks)
    obtain rs s2 where r: "resolve_hooks v c d hooks s1 = (rs, s2)" by fastforce
    obtain qs' s3 where b: "build_plans v c d ps s2 = (qs', s3)" by fastforce
    have qs: "qs = pb_plan p rs # qs'" "s' = s3" using Cons.prems q Inr r b by auto
    from Cons.IH[OF b] obtain us where us: "ticked s2 s3" "us \<in> set (subseqs ps)"
      "list_all2 (\<lambda>q p. \<exists>hooks. q = pb_plan p hooks) qs' us" by blast
    have "ticked s s'" using t1 resolve_hooks_ticked[OF r] us(1) ticked_trans qs(2) by blast
    moreover have "p # us \<in> set (subseqs (p # ps))" using us(2) by (simp add: Let_def)
    ultimately show ?thesis using us(3) qs(1) by (intro conjI exI[of _ "p # us"]) auto
  qed
qed simp


text \<open>The message, from the agent, its plans as resolved and the repositories as opened.\<close>

definition config_of ::
  "push_params \<Rightarrow> store \<Rightarrow> agent_row \<Rightarrow> repository_row list \<Rightarrow> backup_plan list \<Rightarrow> agent_config" where
  "config_of pp s a repos plans = \<lparr>ac_config_version = to_int32 (ag_config_version a + 1),
     ac_repositories = map pb_repository repos, ac_backup_plans = plans,
     ac_default_retention = retention_of (pp_codec pp) (setting_of ''default_retention'' s),
     ac_rclone_config = or_else '''' (ag_rclone_config a),
     ac_heartbeat_interval_secs = positive_int 30 (setting_of ''heartbeat_interval_seconds'' s),
     ac_blocked_paths = blocked_of (pp_codec pp) (setting_of ''file_browser_blocked_paths'' s),
     ac_command_timeouts = agent_timeouts pp a s, ac_outbox = agent_outbox pp a s\<rparr>"

definition hook_timeout_of :: "store \<Rightarrow> int" where
  "hook_timeout_of s = positive_int 60 (setting_of ''default_hook_timeout_seconds'' s)"

definition codec_ok :: "push_params \<Rightarrow> bool" where
  "codec_ok pp \<longleftrightarrow> exact_floats (pp_codec pp) \<and> orders_ok pp"

lemma exact_default:
  "exact_floats jc \<Longrightarrow> default_json key = Some raw \<Longrightarrow> int_literal raw = Some n \<Longrightarrow> 0 \<le> n \<Longrightarrow> n \<le> 2 ^ 53 \<Longrightarrow>
    default_int jc key = Some n"
  by (simp add: default_int_def exact_floats_def)

lemma default_ints:
  assumes "exact_floats jc"
  shows "default_int jc ''default_hook_timeout_seconds'' = Some 60" "default_int jc ''heartbeat_interval_seconds'' = Some 30"
  by (rule exact_default[OF assms, where raw = "''60''"] exact_default[OF assms, where raw = "''30''"];
      simp add: default_json_def registry_def int_literal_def is_digit_def digits_value_def)+

lemma update_config_versionD:
  assumes "update_config_version v c i s = (Inr n, s')" and "find_agent i s = Some row"
  shows "n = ag_config_version row + 1
    \<and> (\<exists>t now. s' = (set_agent i (\<lambda>a. a\<lparr>ag_config_version := ag_config_version a + 1, ag_updated_at := now\<rparr>) s)\<lparr>st_tick := t\<rparr>)"
proof -
  let ?f = "\<lambda>a. a\<lparr>ag_config_version := ag_config_version a + 1, ag_updated_at := se_now v (st_tick s)\<rparr>"
  have "find_agent i (set_agent i ?f s) = Some (?f row)"
  proof -
    have "find (\<lambda>a. ag_id a = i) (map (\<lambda>a. if ag_id a = i then ?f a else a) as) = Some (?f row)"
      if "find (\<lambda>a. ag_id a = i) as = Some row" for as
      using that by (induction as) (auto split: if_splits)
    then show ?thesis using assms(2) by (simp add: find_agent_def set_agent_def)
  qed
  then show ?thesis using assms(1) by (auto simp: update_config_version_def Let_def split: prod.splits option.splits)
qed


lemma open_agent_same:
  "open_agent k what row = Inr a \<Longrightarrow> ag_status a = ag_status row \<and> ag_config_version a = ag_config_version row
    \<and> ag_command_timeouts a = ag_command_timeouts row \<and> ag_outbox_overrides a = ag_outbox_overrides row"
  by (auto simp: open_agent_def split: sum.splits)

lemma ticked_find: "ticked s s' \<Longrightarrow> find_agent i s' = find_agent i s"
  by (auto simp: ticked_def find_agent_def)

lemma ticked_plans: "ticked s s' \<Longrightarrow> agent_plans i s' = agent_plans i s"
  by (auto simp: ticked_def agent_plans_def)

lemma ticked_tunables:
  assumes "ticked s s'"
  shows "agent_timeouts pp a s' = agent_timeouts pp a s" "agent_outbox pp a s' = agent_outbox pp a s"
    "config_of pp s' a rs qs = config_of pp s a rs qs" "hook_timeout_of s' = hook_timeout_of s"
proof -
  have st: "setting_of k s' = setting_of k s" for k using assms by (rule ticked_setting)
  have l: "loaded ks s' = loaded ks s" for ks by (simp add: loaded_def st)
  show 1: "agent_timeouts pp a s' = agent_timeouts pp a s" by (simp add: agent_timeouts_def l)
  show 2: "agent_outbox pp a s' = agent_outbox pp a s" by (simp add: agent_outbox_def l)
  show "config_of pp s' a rs qs = config_of pp s a rs qs" by (simp add: config_of_def st 1 2)
  show "hook_timeout_of s' = hook_timeout_of s" by (simp add: hook_timeout_of_def st)
qed

lemma bind_okE:
  "bind_ok w q f = (Inr y, s') \<Longrightarrow> (\<And>x s. q = (Inr x, s) \<Longrightarrow> f x s = (Inr y, s') \<Longrightarrow> P) \<Longrightarrow> P"
  by (auto simp: bind_ok_Inr)

lemma found_elims:
  "(case x of None \<Rightarrow> (Inr None, s) | Some a \<Rightarrow> g a) = (Inr (Some y), s') \<Longrightarrow>
    (\<And>a. x = Some a \<Longrightarrow> g a = (Inr (Some y), s') \<Longrightarrow> P) \<Longrightarrow> P"
  "(if b then (Inr None, s) else z) = (Inr (Some y), s') \<Longrightarrow> (\<not> b \<Longrightarrow> z = (Inr (Some y), s') \<Longrightarrow> P) \<Longrightarrow> P"
  "(case q of (qs, t) \<Rightarrow> h qs t) = r \<Longrightarrow> (\<And>qs t. q = (qs, t) \<Longrightarrow> h qs t = r \<Longrightarrow> P) \<Longrightarrow> P"
  "(Inr (Some u) :: go_error + 'c option, s) = (Inr (Some y), s') \<Longrightarrow> (s' = s \<Longrightarrow> y = u \<Longrightarrow> P) \<Longrightarrow> P"
  by (auto split: option.splits if_splits prod.splits)

text \<open>
  Whatever fails, a configuration that is built is that of the agent: its row as opened, its
  plans in order with those missing whose hooks could not be listed, and the repositories
  they use.
\<close>

lemma build_configD:
  assumes "build_config pp v c i s = (Inr (Some config), s')" and "i \<noteq> ''''" and "codec_ok pp"
  shows "\<exists>row a rs qs s0 s1. find_agent i s = Some row \<and> open_agent (pp_secrets pp) ''decrypt agent rclone config'' row = Inr a
    \<and> ag_status row = ''approved''
    \<and> list_all2 (\<lambda>r x. open_repo (pp_secrets pp) r = Inr x)
        (filter (\<lambda>r. ry_id r \<in> set (used_repo_ids (agent_plans i s))) (st_repos s)) rs
    \<and> ticked s s0 \<and> build_plans v c (hook_timeout_of s) (agent_plans i s) s0 = (qs, s1) \<and> ticked s s1
    \<and> config = config_of pp s a (pp_repo_order pp rs) qs
    \<and> (\<exists>t now. s' = (set_agent i (\<lambda>a. a\<lparr>ag_config_version := ag_config_version a + 1, ag_updated_at := now\<rparr>) s)\<lparr>st_tick := t\<rparr>)"
proof -
  note d = default_ints[of "pp_codec pp"]
  from assms(3) have ex: "exact_floats (pp_codec pp)" and ord: "orders_ok pp" by (auto simp: codec_ok_def)
  have i30: "to_int32 30 = 30" "to_int32 60 = 60" by (simp_all add: to_int32_id)
  have "\<exists>fd a s1 ps s2 rs s3 ret s4 hv s5 hb s6 bp s7 ct s8 ob s9 qs s10 n s11. get_agent (pp_secrets pp) v c i s = (Inr fd, s1)
      \<and> fd = Some a \<and> \<not> ag_status a \<noteq> ''approved''
      \<and> list_plans v c i s1 = (Inr ps, s2) \<and> get_repositories_by_ids (pp_secrets pp) v c (used_repo_ids ps) s2 = (Inr rs, s3)
      \<and> get_setting v c ''default_retention'' s3 = (Inr ret, s4)
      \<and> get_setting v c ''default_hook_timeout_seconds'' s4 = (Inr hv, s5)
      \<and> get_setting v c ''heartbeat_interval_seconds'' s5 = (Inr hb, s6)
      \<and> get_setting v c ''file_browser_blocked_paths'' s6 = (Inr bp, s7)
      \<and> resolve_command_timeouts (pp_codec pp) (pp_timeout_keys pp) v c a s7 = (Inr ct, s8)
      \<and> resolve_outbox (pp_codec pp) (pp_outbox_keys pp) v c a s8 = (Inr ob, s9)
      \<and> build_plans v c (positive_int 60 hv) ps s9 = (qs, s10)
      \<and> update_config_version v c i s10 = (Inr n, s11) \<and> s' = s11
      \<and> config = \<lparr>ac_config_version = to_int32 n, ac_repositories = map pb_repository (pp_repo_order pp rs),
         ac_backup_plans = qs, ac_default_retention = retention_of (pp_codec pp) ret,
         ac_rclone_config = or_else '''' (ag_rclone_config a),
         ac_heartbeat_interval_secs = positive_int 30 hb,
         ac_blocked_paths = blocked_of (pp_codec pp) bp, ac_command_timeouts = ct, ac_outbox = ob\<rparr>"
    using assms(1)[unfolded build_config_def d[OF ex] option.case i30]
    by (elim bind_okE found_elims) (intro exI conjI; assumption)
  then obtain fd a s1 ps s2 rs s3 ret s4 hv s5 hb s6 bp s7 ct s8 ob s9 qs s10 n s11 where
      0: "get_agent (pp_secrets pp) v c i s = (Inr fd, s1)" "fd = Some a" and st: "\<not> ag_status a \<noteq> ''approved''" and
      2: "list_plans v c i s1 = (Inr ps, s2)" and 3: "get_repositories_by_ids (pp_secrets pp) v c (used_repo_ids ps) s2 = (Inr rs, s3)"
      and 4: "get_setting v c ''default_retention'' s3 = (Inr ret, s4)"
      and 5: "get_setting v c ''default_hook_timeout_seconds'' s4 = (Inr hv, s5)"
      and 6: "get_setting v c ''heartbeat_interval_seconds'' s5 = (Inr hb, s6)"
      and 7: "get_setting v c ''file_browser_blocked_paths'' s6 = (Inr bp, s7)"
      and 8: "resolve_command_timeouts (pp_codec pp) (pp_timeout_keys pp) v c a s7 = (Inr ct, s8)"
      and 9: "resolve_outbox (pp_codec pp) (pp_outbox_keys pp) v c a s8 = (Inr ob, s9)"
      and 10: "build_plans v c (positive_int 60 hv) ps s9 = (qs, s10)"
      and 11: "update_config_version v c i s10 = (Inr n, s11)" "s' = s11"
      and cf: "config = \<lparr>ac_config_version = to_int32 n, ac_repositories = map pb_repository (pp_repo_order pp rs),
         ac_backup_plans = qs, ac_default_retention = retention_of (pp_codec pp) ret,
         ac_rclone_config = or_else '''' (ag_rclone_config a),
         ac_heartbeat_interval_secs = positive_int 30 hb,
         ac_blocked_paths = blocked_of (pp_codec pp) bp, ac_command_timeouts = ct, ac_outbox = ob\<rparr>"
    by (elim exE conjE) (erule (13) that, assumption+)
  note 1 = 0(1)[unfolded 0(2)] and 11 = 11(1)[folded 11(2)]
  have t1: "ticked s s1" using get_agentD[OF 1] by blast
  have t2: "ticked s s2" using list_plansD[OF 2 assms(2)] t1 ticked_trans by blast
  have t3: "ticked s s3" using get_reposD[OF 3] t2 ticked_trans by blast
  have t4: "ticked s s4" using get_settingD[OF 4] t3 ticked_trans by blast
  have t5: "ticked s s5" using get_settingD[OF 5] t4 ticked_trans by blast
  have t6: "ticked s s6" using get_settingD[OF 6] t5 ticked_trans by blast
  have t7: "ticked s s7" using get_settingD[OF 7] t6 ticked_trans by blast
  have t8: "ticked s s8" using resolve_timeoutsD[OF 8 ord] t7 ticked_trans by blast
  have t9: "ticked s s9" using resolve_outboxD[OF 9 ord] t8 ticked_trans by blast
  have t10: "ticked s s10" using build_plansD[OF 10] t9 ticked_trans by blast
  obtain row where row: "find_agent i s = Some row" "open_agent (pp_secrets pp) ''decrypt agent rclone config'' row = Inr a"
    using get_agentD[OF 1] by blast
  have ps: "ps = agent_plans i s" using list_plansD[OF 2 assms(2)] ticked_plans[OF t1] by simp
  have hv: "positive_int 60 hv = hook_timeout_of s" using get_settingD[OF 5] ticked_setting[OF t4] by (simp add: hook_timeout_of_def)
  have "find_agent i s10 = Some row" using row(1) ticked_find[OF t10] by simp
  from update_config_versionD[OF 11 this] obtain t now where n: "n = ag_config_version a + 1"
      and s': "s' = (set_agent i (\<lambda>a. a\<lparr>ag_config_version := ag_config_version a + 1, ag_updated_at := now\<rparr>) s10)\<lparr>st_tick := t\<rparr>"
    using open_agent_same[OF row(2)] by auto
  have "config = config_of pp s a (pp_repo_order pp rs) qs"
    using get_settingD[OF 4] get_settingD[OF 6] get_settingD[OF 7] resolve_timeoutsD[OF 8 ord] resolve_outboxD[OF 9 ord]
    by (simp add: cf config_of_def n ticked_setting[OF t3] ticked_setting[OF t5] ticked_setting[OF t6]
        ticked_tunables[OF t7] ticked_tunables[OF t8])
  moreover have "s' = (set_agent i (\<lambda>a. a\<lparr>ag_config_version := ag_config_version a + 1, ag_updated_at := now\<rparr>) s)\<lparr>st_tick := t\<rparr>"
    using t10 by (auto simp: s' ticked_def set_agent_def)
  moreover have "list_all2 (\<lambda>r x. open_repo (pp_secrets pp) r = Inr x)
      (filter (\<lambda>r. ry_id r \<in> set (used_repo_ids (agent_plans i s))) (st_repos s)) rs"
    using get_reposD[OF 3] ticked_rows[OF t2] ps by simp
  moreover have "ag_status row = ''approved''" using st open_agent_same[OF row(2)] by simp
  moreover have "build_plans v c (hook_timeout_of s) (agent_plans i s) s9 = (qs, s10)" using 10 ps hv by simp
  ultimately show ?thesis using row t9 t10
    by (intro exI[of _ row] exI[of _ a] exI[of _ rs] exI[of _ qs] exI[of _ s9] exI[of _ s10] conjI exI[of _ t] exI[of _ now])
qed


text \<open>Without failures a configuration is built.\<close>

definition gives :: "('a \<Rightarrow> bool) \<Rightarrow> 'a result \<times> store \<Rightarrow> bool" where
  "gives P q \<longleftrightarrow> (\<exists>x s. q = (Inr x, s) \<and> P x)"

lemma gives_bind:
  "gives (\<lambda>_. True) q \<Longrightarrow> (\<And>x s. q = (Inr x, s) \<Longrightarrow> gives P (f x s)) \<Longrightarrow> gives P (bind_ok w q f)"
  by (auto simp: gives_def bind_ok_def)

lemma gives_any: "gives P q \<Longrightarrow> gives (\<lambda>_. True) q"
  by (auto simp: gives_def)

lemma gives_reads:
  assumes "fault_free (se_sql v)"
  shows "gives (\<lambda>_. True) (get_setting v background key s)" "gives (\<lambda>_. True) (list_plans v background i s)"
    "gives (\<lambda>_. True) (load_ints v background keys s)"
    "gives (\<lambda>_. True) (resolve_command_timeouts jc keys v background a s)"
    "gives (\<lambda>_. True) (resolve_outbox jc keys v background a s)"
proof -
  note q = query_ok[OF assms]
  show 1: "gives (\<lambda>_. True) (get_setting v background key s)" for key s by (simp add: gives_def get_setting_def q)
  show "gives (\<lambda>_. True) (list_plans v background i s)" by (simp add: gives_def list_plans_def Let_def q)
  show 2: "gives (\<lambda>_. True) (load_ints v background keys s)" for keys s
  proof (induction keys arbitrary: s)
    case (Cons e keys)
    obtain f k where "e = (f, k)" by fastforce
    then show ?case unfolding load_int_def
      by (auto intro!: gives_bind[OF gives_bind[OF 1]] gives_bind[OF Cons.IH] simp: load_int_def) (simp_all add: gives_def)
  qed (simp add: gives_def)
  show "gives (\<lambda>_. True) (resolve_command_timeouts jc keys v background a s)"
    unfolding resolve_command_timeouts_def by (rule gives_bind[OF 2]) (simp add: gives_def)
  show "gives (\<lambda>_. True) (resolve_outbox jc keys v background a s)"
    unfolding resolve_outbox_def by (rule gives_bind[OF 2]) (simp add: gives_def)
qed

lemma gives_repos:
  assumes "fault_free (se_sql v)" and "list_all (\<lambda>r. ry_id r \<in> set ids \<longrightarrow> (\<exists>x. open_repo k r = Inr x)) (st_repos s)"
  shows "gives (\<lambda>_. True) (get_repositories_by_ids k v background ids s)"
proof -
  have "\<exists>xs. map_rows (open_repo k) rs = Inr xs" if "\<forall>r \<in> set rs. \<exists>x. open_repo k r = Inr x" for rs
    using that by (induction rs) (auto split: sum.splits)
  from this[of "filter (\<lambda>r. ry_id r \<in> set ids) (st_repos s)"] show ?thesis
    using assms by (auto simp: gives_def get_repositories_by_ids_def query_ok list_all_iff)
qed

lemma not_isl: "\<not> isl x \<longleftrightarrow> (\<exists>y. x = Inr y)"
  by (cases x) auto

definition pushable :: "push_params \<Rightarrow> string \<Rightarrow> store \<Rightarrow> bool" where
  "pushable pp i s \<longleftrightarrow>
    (case find_agent i s of
       None \<Rightarrow> False
     | Some row \<Rightarrow> ag_status row = ''approved'' \<and> \<not> isl (open_agent (pp_secrets pp) ''decrypt agent rclone config'' row))
    \<and> list_all (\<lambda>r. ry_id r \<in> set (used_repo_ids (agent_plans i s)) \<longrightarrow> \<not> isl (open_repo (pp_secrets pp) r)) (st_repos s)"


lemma update_config_version_ok:
  assumes "fault_free (se_sql v)" and "find_agent i s = Some row"
  shows "gives (\<lambda>_. True) (update_config_version v background i s)"
proof -
  define stmts where "stmts = [(''begin transaction'', True), (''update config version'', True),
    (''read config version'', i \<in> set (agent_ids s)), (''commit config version'', True)]"
  have "list_all snd stmts" using assms(2) by (auto simp: stmts_def find_agent_def find_Some_iff)
  from run_stmts_ok[OF assms(1) this] show ?thesis
    unfolding update_config_version_def stmts_def[symmetric] by (simp add: gives_def Let_def)
qed

lemma build_config_gives:
  assumes "fault_free (se_sql v)" and "codec_ok pp" and "pushable pp i s" and "i \<noteq> ''''"
  shows "gives (\<lambda>x. x \<noteq> None) (build_config pp v background i s)"
proof -
  note q = query_ok[OF assms(1)]
  note reads = gives_reads[OF assms(1)]
  have ex: "exact_floats (pp_codec pp)" and ord: "orders_ok pp" using assms(2) by (simp_all add: codec_ok_def)
  obtain row a where row: "find_agent i s = Some row" "ag_status row = ''approved''"
      "open_agent (pp_secrets pp) ''decrypt agent rclone config'' row = Inr a"
    using assms(3) by (auto simp: pushable_def not_isl split: option.splits)
  have repos: "list_all (\<lambda>r. ry_id r \<in> set (used_repo_ids (agent_plans i s)) \<longrightarrow> (\<exists>x. open_repo (pp_secrets pp) r = Inr x)) (st_repos s)"
    using assms(3) unfolding pushable_def not_isl by blast
  have st: "ag_status a = ''approved''" using row open_agent_same by auto
  show ?thesis unfolding build_config_def
  proof (rule gives_bind, goal_cases)
    case 1
    show ?case by (simp add: get_agent_def read_agent_def q row gives_def)
  next
    case (2 x s1)
    then have x: "x = Some a" and t1: "ticked s s1" using get_agentD[OF 2]
      by (auto simp: get_agent_def read_agent_def q row)
    have app: "(ag_status a \<noteq> ''approved'') = False" using st by simp
    note simps = app x option.case if_False default_ints[OF ex]
    show ?case unfolding simps
    proof (rule gives_bind[OF reads(2)], goal_cases)
      case (1 plans s2)
      then have ps: "plans = agent_plans i s" and t2: "ticked s s2"
        using list_plansD[OF 1 assms(4)] t1 ticked_plans[OF t1] ticked_trans by auto
      have r: "gives (\<lambda>_. True) (get_repositories_by_ids (pp_secrets pp) v background (used_repo_ids plans) s2)"
        by (rule gives_repos[OF assms(1)]) (use repos ticked_rows[OF t2] ps in simp)
      show ?case
      proof (intro gives_bind[OF r] gives_bind[OF reads(1)] gives_bind[OF reads(4)] gives_bind[OF reads(5)], goal_cases)
        case (1 rs s3 ret s4 hv s5 hb s6 bp s7 ct s8 ob s9)
        obtain qs s10 where b: "build_plans v background (positive_int (to_int32 60) hv) plans s9 = (qs, s10)" by fastforce
        have "ticked s2 s3" "ticked s3 s4" "ticked s4 s5" "ticked s5 s6" "ticked s6 s7" "ticked s7 s8" "ticked s8 s9" "ticked s9 s10"
          using get_reposD[OF 1(1)] get_settingD[OF 1(2)] get_settingD[OF 1(3)] get_settingD[OF 1(4)] get_settingD[OF 1(5)]
            resolve_timeoutsD[OF 1(6) ord] resolve_outboxD[OF 1(7) ord] build_plansD[OF b] by auto
        then have "ticked s s10" using t2 ticked_trans by metis
        then have u: "gives (\<lambda>_. True) (update_config_version v background i s10)"
          using update_config_version_ok[OF assms(1)] ticked_find row(1) by metis
        show ?case unfolding b prod.case by (rule gives_bind[OF u]) (simp add: gives_def)
      qed
    qed
  qed
qed


lemma opened_ids: "open_repo k r = Inr x \<Longrightarrow> ry_id x = ry_id r"
  by (auto simp: open_repo_def split: sum.splits)

lemma pushed:
  "push_config_to_agent pp v c i (s, m) = (res, (s', m')) \<Longrightarrow>
    m' = m \<or> (\<exists>config s1. is_online i m \<and> build_config pp v c i s = (Inr (Some config), s1)
      \<and> s' = s1 \<and> m' = snd (mgr_send i (Config config) m))"
  by (auto simp: push_config_to_agent_def split: if_splits sum.splits prod.splits option.splits)

section \<open>Properties\<close>

text \<open>
  C5. What an agent is told is its own: whatever fails while its configuration is built, a
  push changes the registry of connections only by sending one configuration on the stream of
  the agent itself, which is connected and approved; the plans in it are plans of this agent
  in the order of their names, the repositories (whose passwords it holds) are stored ones
  that a plan of this agent uses, and its version is the stored version plus one.
\<close>

theorem push_sends_only_own_plans:
  assumes "push_config_to_agent pp v c i (s, m) = (res, (s', m'))" and "i \<noteq> ''''" and "codec_ok pp"
  shows "m' = m \<or> (\<exists>config row. is_online i m \<and> find_agent i s = Some row \<and> ag_status row = ''approved''
    \<and> m' = snd (mgr_send i (Config config) m)
    \<and> (\<exists>ps \<in> set (subseqs (agent_plans i s)). map bp_id (ac_backup_plans config) = map pr_id ps)
    \<and> set (map repo_id (ac_repositories config)) \<subseteq> set (repo_ids s) \<inter> set (used_repo_ids (agent_plans i s))
    \<and> ac_config_version config = to_int32 (ag_config_version row + 1))"
proof (cases "m' = m")
  case False
  with pushed[OF assms(1)] obtain config s1 where on: "is_online i m" "m' = snd (mgr_send i (Config config) m)"
    and b: "build_config pp v c i s = (Inr (Some config), s1)" by blast
  from build_configD[OF b assms(2,3)] obtain row a rs qs s0 s2 where
      row: "find_agent i s = Some row" "ag_status row = ''approved''"
      and a: "open_agent (pp_secrets pp) ''decrypt agent rclone config'' row = Inr a"
      and rs: "list_all2 (\<lambda>r x. open_repo (pp_secrets pp) r = Inr x)
        (filter (\<lambda>r. ry_id r \<in> set (used_repo_ids (agent_plans i s))) (st_repos s)) rs"
      and qs: "build_plans v c (hook_timeout_of s) (agent_plans i s) s0 = (qs, s2)"
      and cf: "config = config_of pp s a (pp_repo_order pp rs) qs" by blast
  from build_plansD[OF qs] obtain us where us: "us \<in> set (subseqs (agent_plans i s))"
      "list_all2 (\<lambda>q p. \<exists>hooks. q = pb_plan p hooks) qs us" by blast
  have "map bp_id qs = map pr_id us" using us(2) by (induction rule: list_all2_induct) (auto simp: pb_plan_def)
  then have plans: "\<exists>ps \<in> set (subseqs (agent_plans i s)). map bp_id (ac_backup_plans config) = map pr_id ps"
    using us(1) by (auto simp: cf config_of_def)
  have "map ry_id (filter (\<lambda>r. ry_id r \<in> set (used_repo_ids (agent_plans i s))) (st_repos s)) = map ry_id rs"
    using rs by (induction rule: list_all2_induct) (auto dest: opened_ids)
  from arg_cong[OF this, of set, symmetric]
  have ids: "ry_id ` set rs \<subseteq> set (repo_ids s) \<inter> set (used_repo_ids (agent_plans i s))" by auto
  have "mset (pp_repo_order pp rs) = mset rs" using assms(3) by (simp add: codec_ok_def orders_ok_def)
  then have "set (pp_repo_order pp rs) = set rs" by (rule mset_eq_setD)
  then have repos: "set (map repo_id (ac_repositories config)) \<subseteq> set (repo_ids s) \<inter> set (used_repo_ids (agent_plans i s))"
    using ids by (auto simp: cf config_of_def pb_repository_def)
  have "ac_config_version config = to_int32 (ag_config_version row + 1)"
    using open_agent_same[OF a] by (simp add: cf config_of_def)
  then show ?thesis using on row plans repos by blast
qed simp


text \<open>
  C4. The configuration an agent gets: without failures, a push to a connected and approved
  agent whose secrets can be read sends exactly the configuration that its tables describe.
  Its plans are all of the agent's plans by name, each with its hooks by sort order, those of
  scripts with the script's command and the hook's overrides; its repositories are those the
  plans use, opened; timeouts and outbox tunables are the settings with the agent's overrides
  on top. Nothing depends on the order in which the maps of settings are iterated, the
  repositories may come in any order, and the stored version is raised to the one sent.
\<close>

theorem push_sends_configuration:
  assumes "fault_free (se_sql v)" and "codec_ok pp" and "pushable pp i s" and "i \<noteq> ''''" and "is_online i m"
  shows "\<exists>config s' row a rs. push_config_to_agent pp v background i (s, m)
      = (map_sum (Wrap (''send config to agent '' @ i)) id (fst (mgr_send i (Config config) m)),
         (s', snd (mgr_send i (Config config) m)))
    \<and> find_agent i s = Some row \<and> open_agent (pp_secrets pp) ''decrypt agent rclone config'' row = Inr a
    \<and> list_all2 (\<lambda>r x. open_repo (pp_secrets pp) r = Inr x)
        (filter (\<lambda>r. ry_id r \<in> set (used_repo_ids (agent_plans i s))) (st_repos s)) rs
    \<and> mset (ac_repositories config) = mset (map pb_repository rs)
    \<and> ac_repositories config = map pb_repository (pp_repo_order pp rs)
    \<and> config = config_of pp s a (pp_repo_order pp rs) (map (plan_spec (hook_timeout_of s) s) (agent_plans i s))
    \<and> map_option ag_config_version (find_agent i s') = Some (ag_config_version row + 1)"
proof -
  from build_config_gives[OF assms(1-4)] obtain config s' where
      b: "build_config pp v background i s = (Inr (Some config), s')" by (auto simp: gives_def)
  from build_configD[OF b assms(4,2)] obtain row a rs qs s0 s2 t now where
      row: "find_agent i s = Some row" and a: "open_agent (pp_secrets pp) ''decrypt agent rclone config'' row = Inr a"
      and rs: "list_all2 (\<lambda>r x. open_repo (pp_secrets pp) r = Inr x)
        (filter (\<lambda>r. ry_id r \<in> set (used_repo_ids (agent_plans i s))) (st_repos s)) rs"
      and t0: "ticked s s0" and qs: "build_plans v background (hook_timeout_of s) (agent_plans i s) s0 = (qs, s2)"
      and cf: "config = config_of pp s a (pp_repo_order pp rs) qs"
      and s': "s' = (set_agent i (\<lambda>a. a\<lparr>ag_config_version := ag_config_version a + 1, ag_updated_at := now\<rparr>) s)\<lparr>st_tick := t\<rparr>"
    by blast
  have "qs = map (plan_spec (hook_timeout_of s) s) (agent_plans i s)"
    using build_plans_ok[OF assms(1), of "hook_timeout_of s" "agent_plans i s" s0] qs t0 by (auto simp: ticked_def)
  moreover have "mset (pp_repo_order pp rs) = mset rs" using assms(2) by (simp add: codec_ok_def orders_ok_def)
  then have "mset (ac_repositories config) = mset (map pb_repository rs)" by (simp add: cf config_of_def)
  moreover have "ac_repositories config = map pb_repository (pp_repo_order pp rs)" by (simp add: cf config_of_def)
  moreover have "map_option ag_config_version (find_agent i s') = Some (ag_config_version row + 1)"
  proof -
    let ?f = "\<lambda>a. a\<lparr>ag_config_version := ag_config_version a + 1, ag_updated_at := now\<rparr>"
    have "map_option ag_config_version (find (\<lambda>a. ag_id a = i) (map (\<lambda>a. if ag_id a = i then ?f a else a) as))
        = map_option (\<lambda>a. ag_config_version a + 1) (find (\<lambda>a. ag_id a = i) as)" for as
      by (induction as) auto
    from this[of "st_agents s"] show ?thesis
      using row by (simp add: s' find_agent_def set_agent_def del: map_option_eq_Some)
  qed
  moreover have "push_config_to_agent pp v background i (s, m)
      = (map_sum (Wrap (''send config to agent '' @ i)) id (fst (mgr_send i (Config config) m)),
         (s', snd (mgr_send i (Config config) m)))"
    using assms(5) by (simp add: push_config_to_agent_def b split: prod.split sum.split)
  ultimately show ?thesis using row a rs cf by blast
qed


text \<open>An agent with one plan, whose hooks are a script and an inline command.\<close>

definition demo_plan :: plan_row where
  "demo_plan = \<lparr>pr_id = ''p'', pr_name = ''etc'', pr_agent_id = ''a'', pr_schedule = ''@daily'', pr_paths = [''/etc''],
     pr_excludes = [], pr_tags = [], pr_repository_ids = [''r''], pr_created_at = 0, pr_updated_at = 0,
     pr_prune_schedule = None, pr_retention = None, pr_forget_after_backup = False, pr_prune_after_forget = False,
     pr_enabled = True\<rparr>"

definition demo_repo :: repository_row where
  "demo_repo = \<lparr>ry_id = ''r'', ry_name = ''nas'', ry_scope = ''agent'', ry_agent_id = Some ''a'', ry_type = ''local'',
     ry_path = ''/srv'', ry_password = ''pw'', ry_created_at = 0, ry_updated_at = 0\<rparr>"

definition demo_hook :: plan_hook where
  "demo_hook = \<lparr>ph_id = ''h'', ph_plan_id = ''p'', ph_on_event = ''pre_backup'', ph_sort_order = 0,
     ph_script_id = Some ''x'', ph_type = None, ph_command = None, ph_timeout = None, ph_on_error = Some ''abort'',
     ph_created_at = 0, ph_updated_at = 0\<rparr>"

definition demo_script :: script_row where
  "demo_script = \<lparr>sx_id = ''x'', sx_name = ''dump'', sx_type = ''command'', sx_command = ''pg_dump'', sx_timeout = 60,
     sx_on_error = ''continue'', sx_created_at = 0, sx_updated_at = 0\<rparr>"

definition demo_store :: store where
  "demo_store = empty_store\<lparr>st_agents := [demo_agent\<lparr>ag_status := ''approved''\<rparr>], st_plans := [demo_plan],
     st_repos := [demo_repo], st_hooks := [demo_hook], st_scripts := [demo_script]\<rparr>"

definition demo_params :: push_params where
  "demo_params = \<lparr>pp_codec = plain_codec, pp_secrets = demo_secrets, pp_timeout_keys = timeout_keys,
     pp_outbox_keys = outbox_keys, pp_repo_order = rev\<rparr>"

definition demo_manager :: manager where
  "demo_manager = (case open_stream mgr_new of (ch, m) \<Rightarrow> register ''a'' ch m)"

lemma demo_params_ok: "codec_ok demo_params"
  by (simp add: codec_ok_def demo_params_def orders_ok_def plain_codec_exact)

lemma demo_online: "is_online ''a'' demo_manager"
  by (simp add: demo_manager_def open_stream_def register_def is_online_def mgr_new_def put_def)

lemma demo_pushable: "pushable demo_params ''a'' demo_store"
  by (simp add: pushable_def demo_params_def demo_store_def demo_agent_def find_agent_def empty_store_def open_agent_def
      db_decrypt_ptr_def open_repo_def unseal_def db_decrypt_def demo_secrets_def demo_repo_def)

lemma demo_hooks: "map bp_hooks (map (plan_spec 60 demo_store) (agent_plans ''a'' demo_store)) =
   [[\<lparr>rh_name = ''dump'', rh_on_event = ''pre_backup'', rh_sort_order = 0, rh_type = ''command'', rh_command = ''pg_dump'',
      rh_timeout_seconds = 60, rh_on_error = ''abort''\<rparr>]]"
  by (simp add: agent_plans_def demo_store_def demo_plan_def plan_spec_def pb_plan_def hooks_of_def demo_hook_def
      resolve_hook_def find_script_def demo_script_def script_hook_def or_else_def to_int32_id List.map_filter_def)

theorem push_sends_configuration_witness:
  "\<exists>config s'. push_config_to_agent demo_params demo_env background ''a'' (demo_store, demo_manager)
      = (map_sum (Wrap (''send config to agent '' @ ''a'')) id (fst (mgr_send ''a'' (Config config) demo_manager)),
         (s', snd (mgr_send ''a'' (Config config) demo_manager)))
    \<and> map bp_hooks (ac_backup_plans config) =
   [[\<lparr>rh_name = ''dump'', rh_on_event = ''pre_backup'', rh_sort_order = 0, rh_type = ''command'', rh_command = ''pg_dump'',
      rh_timeout_seconds = 60, rh_on_error = ''abort''\<rparr>]]"
proof -
  have "fault_free (se_sql demo_env)" by (simp add: demo_env_def)
  from push_sends_configuration[OF this demo_params_ok demo_pushable _ demo_online]
  obtain config s' a rs where
    p: "push_config_to_agent demo_params demo_env background ''a'' (demo_store, demo_manager)
      = (map_sum (Wrap (''send config to agent '' @ ''a'')) id (fst (mgr_send ''a'' (Config config) demo_manager)),
         (s', snd (mgr_send ''a'' (Config config) demo_manager)))"
    and c: "config = config_of demo_params demo_store a rs
        (map (plan_spec (hook_timeout_of demo_store) demo_store) (agent_plans ''a'' demo_store))" by auto
  have "hook_timeout_of demo_store = 60"
    by (simp add: hook_timeout_of_def setting_of_def demo_store_def empty_store_def positive_int_def)
  then show ?thesis using p demo_hooks by (intro exI[of _ config] exI[of _ s']) (simp add: c config_of_def)
qed

theorem push_sends_only_own_plans_witness:
  "\<exists>res s' m'. push_config_to_agent demo_params demo_env background ''a'' (demo_store, demo_manager) = (res, (s', m'))
    \<and> (m' = demo_manager \<or> is_online ''a'' demo_manager)"
proof -
  obtain res s' m' where p: "push_config_to_agent demo_params demo_env background ''a'' (demo_store, demo_manager) = (res, (s', m'))"
    by (metis prod.exhaust)
  with push_sends_only_own_plans[OF p _ demo_params_ok] show ?thesis by auto
qed


text \<open>
  How tunables are layered: each timeout an agent is told is its override when that is
  positive, and otherwise the setting when that is a positive 32-bit integer; the whole
  object is left out exactly when all of them are zero, so that the agent uses its defaults.
\<close>

theorem timeouts_are_layered:
  fixes pp a s
  defines "ov \<equiv> \<lambda>f. case stored_override (jc_timeouts (pp_codec pp)) (ag_command_timeouts a) of None \<Rightarrow> 0 | Some x \<Rightarrow> f x"
  defines "global \<equiv> \<lambda>k. positive_int 0 (setting_of (''command_timeout_'' @ k @ ''_seconds'') s)"
  defines "told \<equiv> \<lambda>f k. if ov f > 0 then ov f else global k"
  shows "agent_timeouts pp a s =
    (if told ct_backup_secs ''backup'' = 0 \<and> told ct_restore_secs ''restore'' = 0
        \<and> told ct_list_snapshots_secs ''list_snapshots'' = 0 \<and> told ct_browse_snapshot_secs ''browse_snapshot'' = 0
        \<and> told ct_browse_filesystem_secs ''browse_filesystem'' = 0 \<and> told ct_default_secs ''default'' = 0 then None
     else Some \<lparr>ct_backup_secs = told ct_backup_secs ''backup'', ct_restore_secs = told ct_restore_secs ''restore'',
       ct_list_snapshots_secs = told ct_list_snapshots_secs ''list_snapshots'',
       ct_browse_snapshot_secs = told ct_browse_snapshot_secs ''browse_snapshot'',
       ct_browse_filesystem_secs = told ct_browse_filesystem_secs ''browse_filesystem'',
       ct_default_secs = told ct_default_secs ''default''\<rparr>)"
proof -
  have "timeouts_of (loaded timeout_keys s) = \<lparr>ct_backup_secs = global ''backup'', ct_restore_secs = global ''restore'',
      ct_list_snapshots_secs = global ''list_snapshots'', ct_browse_snapshot_secs = global ''browse_snapshot'',
      ct_browse_filesystem_secs = global ''browse_filesystem'', ct_default_secs = global ''default''\<rparr>"
    by (simp add: timeouts_of_def loaded_def timeout_keys_def field_value_def global_def)
  then show ?thesis
    by (cases "stored_override (jc_timeouts (pp_codec pp)) (ag_command_timeouts a)")
      (simp_all add: agent_timeouts_def layer_def no_timeouts_def override_timeouts_def override_def told_def ov_def)
qed

section \<open>Settings that do not reach the agent\<close>

lemma json_int32_literal:
  "int_literal raw = Some n \<Longrightarrow> json_int32 raw = (if - (2 ^ 31) \<le> n \<and> n < 2 ^ 31 then Some n else None)"
  by (auto simp: json_int32_def int_literal_def is_digit_def)

text \<open>
  Which accepted settings an agent gets: an integer literal that the validator of a
  setting with a positive minimum accepts is what the agent is told when it fits 32 bits; a
  larger one, which the validator accepts as well, is ignored in favour of the fallback. So
  is every accepted number that is not written as an integer literal, such as 1e3.
\<close>

theorem accepted_setting_takes_effect:
  assumes "exact_floats jc" and "validate_int_min k jc raw = None" and "0 < k"
    and "case int_literal raw of None \<Rightarrow> True | Some n \<Rightarrow> \<bar>n\<bar> \<le> 2 ^ 53"
  shows "positive_int d (Some raw) = (case int_literal raw of None \<Rightarrow> d | Some n \<Rightarrow> (if n < 2 ^ 31 then n else d))"
proof (cases "int_literal raw")
  case None
  then show ?thesis by (simp add: positive_int_def json_int32_def)
next
  case (Some n)
  then have n: "- (2 ^ 53) \<le> n" "n \<le> 2 ^ 53" using assms(4) by auto
  then have "jc_float jc raw = Some (of_int n)" "jc_trunc jc (of_int n) = n"
    using assms(1) Some by (auto simp: exact_floats_def)
  then have "k \<le> n" using assms(2) by (simp add: validate_int_min_def split: if_splits)
  then show ?thesis using assms(3) by (simp add: positive_int_def json_int32_literal[OF Some] Some)
qed

theorem accepted_setting_takes_effect_witness:
  "positive_int 0 (Some ''3000000000'') = 0"
  using accepted_setting_takes_effect[of plain_codec 60 "''3000000000''" 0] plain_codec_exact
  by (simp add: validate_int_min_def plain_codec_def int_literal_def is_digit_def digits_value_def)



end
