(* ===== verification/Enrollment.thy ===== *)
theory Enrollment
  imports ConfigPush JobReports
begin

text \<open>
  The gRPC side of an agent's life on the server (server/internal/grpcserver): authentication
  (auth.go), enrollment (register.go), the stream of a connected agent (connect.go) and the
  unary reports (report.go) behind the interceptor.
\<close>

section \<open>The server\<close>

record server =
  sv_db :: store
  sv_mgr :: manager
  sv_hub :: hub
  sv_snapshots :: "(string \<times> snapshot_info list) list"

datatype code = Unauthenticated | Internal_error | Not_found | Invalid_argument | Permission_denied

type_synonym rpc_error = "code \<times> string"

text \<open>
  What the server is given: its database's environment, the parameters of configuration
  pushes (with its secrets), and the JSON of logs and events.
\<close>

record services =
  rv_env :: server_env
  rv_push :: push_params
  rv_logs :: log_codec
  rv_events :: "event \<Rightarrow> string result"
  rv_rfc3339 :: "int \<Rightarrow> string"

abbreviation rv_secrets :: "services \<Rightarrow> secrets" where
  "rv_secrets rv \<equiv> pp_secrets (rv_push rv)"

definition on_store :: "('a result \<times> store) \<Rightarrow> server \<Rightarrow> 'a result \<times> server" where
  "on_store r sv = (fst r, sv\<lparr>sv_db := snd r\<rparr>)"

definition emit_event :: "services \<Rightarrow> event \<Rightarrow> server \<Rightarrow> server" where
  "emit_event rv ev sv = sv\<lparr>sv_hub := hub_broadcast (rv_events rv) ev (sv_hub sv)\<rparr>"

definition agent_by_key :: "services \<Rightarrow> ctx \<Rightarrow> string \<Rightarrow> server \<Rightarrow> agent_row option result \<times> server" where
  "agent_by_key rv c key sv = on_store (get_agent_by_api_key (rv_secrets rv) (rv_env rv) c key (sv_db sv)) sv"

definition agent_by_id :: "services \<Rightarrow> ctx \<Rightarrow> string \<Rightarrow> server \<Rightarrow> agent_row option result \<times> server" where
  "agent_by_id rv c i sv = on_store (get_agent (rv_secrets rv) (rv_env rv) c i (sv_db sv)) sv"

section \<open>Authentication\<close>

text \<open>
  A unary call: the method and the key field of the messages that have one. The metadata is
  the list of values of \<open>api_key\<close>, or none at all.
\<close>

datatype unary_call = Call_register | Call_report string | Call_snapshots string | Call_other

type_synonym metadata = "string list option"

definition message_key :: "unary_call \<Rightarrow> string" where
  "message_key call = (case call of Call_report k \<Rightarrow> k | Call_snapshots k \<Rightarrow> k | _ \<Rightarrow> '''')"

definition metadata_key :: "metadata \<Rightarrow> string" where
  "metadata_key md = (case md of Some (k # _) \<Rightarrow> k | _ \<Rightarrow> '''')"

definition check_key :: "services \<Rightarrow> ctx \<Rightarrow> string \<Rightarrow> server \<Rightarrow> (rpc_error + string) \<times> server" where
  "check_key rv c apiKey sv =
    (case agent_by_key rv c apiKey sv of
       (Inl _, sv1) \<Rightarrow> (Inl (Internal_error, ''failed to validate api_key''), sv1)
     | (Inr None, sv1) \<Rightarrow> (Inl (Unauthenticated, ''invalid api_key''), sv1)
     | (Inr (Some a), sv1) \<Rightarrow>
       (if ag_status a \<noteq> ''approved'' then (Inl (Unauthenticated, ''invalid api_key''), sv1)
        else (Inr (ag_id a), sv1)))"

text \<open>The id the handler finds in its context; empty for the call that needs no key.\<close>

definition unary_auth :: "services \<Rightarrow> ctx \<Rightarrow> unary_call \<Rightarrow> metadata \<Rightarrow> server \<Rightarrow> (rpc_error + string) \<times> server" where
  "unary_auth rv c call md sv =
    (if call = Call_register then (Inr '''', sv)
     else
       (let apiKey = (if message_key call = '''' then metadata_key md else message_key call)
        in if apiKey = '''' then (Inl (Unauthenticated, ''missing api_key''), sv)
           else check_key rv c apiKey sv))"

definition stream_auth :: "services \<Rightarrow> ctx \<Rightarrow> bool \<Rightarrow> metadata \<Rightarrow> server \<Rightarrow> (rpc_error + string) \<times> server" where
  "stream_auth rv c is_connect md sv =
    (if is_connect then (Inr '''', sv)
     else case md of
       None \<Rightarrow> (Inl (Unauthenticated, ''missing metadata''), sv)
     | Some [] \<Rightarrow> (Inl (Unauthenticated, ''missing api_key''), sv)
     | Some (k # _) \<Rightarrow> check_key rv c k sv)"

section \<open>Enrollment\<close>

record register_request =
  rg_hostname :: string
  rg_os :: string
  rg_agent_version :: string
  rg_restic_version :: string
  rg_rclone_version :: string

definition new_agent :: "string \<Rightarrow> register_request \<Rightarrow> agent_row" where
  "new_agent i req = \<lparr>ag_id = i, ag_name = rg_hostname req, ag_hostname = rg_hostname req, ag_os = non_empty (rg_os req),
     ag_status = ''pending'', ag_api_key = None, ag_agent_version = non_empty (rg_agent_version req),
     ag_restic_version = non_empty (rg_restic_version req), ag_rclone_version = non_empty (rg_rclone_version req),
     ag_rclone_config = None, ag_last_heartbeat = None, ag_last_job_at = None, ag_config_version = 0,
     ag_config_applied_at = None, ag_command_timeouts = None, ag_outbox_overrides = None, ag_created_at = 0, ag_updated_at = 0\<rparr>"

text \<open>
  The id is made by the handler; \<open>CreateAgent\<close> makes one only when it is empty, which a
  uuid is not. The payload of the event is the agent's id here.
\<close>

definition register_agent ::
  "services \<Rightarrow> ctx \<Rightarrow> register_request \<Rightarrow> server \<Rightarrow> (rpc_error + string \<times> agent_status) \<times> server" where
  "register_agent rv c req sv =
    (let i = se_uuid (rv_env rv) (st_tick (sv_db sv))
     in case on_store (create_agent (rv_secrets rv) (rv_env rv) c (new_agent i req) (sv_db sv)) sv of
          (Inl er, sv1) \<Rightarrow> (Inl (Internal_error, ''create agent: '' @ error_text er), sv1)
        | (Inr _, sv1) \<Rightarrow>
          (Inr (i, Status_pending), emit_event rv \<lparr>ev_type = ''agent.registered'', ev_payload = [(''id'', i)]\<rparr> sv1))"

section \<open>The stream of an agent\<close>

text \<open>
  The first message identifies the agent. What comes back is the status the stream starts
  with, or the error that ends it.
\<close>

definition admit :: "services \<Rightarrow> ctx \<Rightarrow> agent_message result \<Rightarrow> server \<Rightarrow> (rpc_error + agent_row) \<times> server" where
  "admit rv c first sv =
    (case first of
       Inl er \<Rightarrow> (Inl (Internal_error, ''failed to receive first message: '' @ error_text er), sv)
     | Inr msg \<Rightarrow>
       (if am_agent_id msg = '''' then (Inl (Invalid_argument, ''agent_id is required''), sv)
        else case agent_by_id rv c (am_agent_id msg) sv of
          (Inl er, sv1) \<Rightarrow> (Inl (Internal_error, ''failed to get agent: '' @ error_text er), sv1)
        | (Inr None, sv1) \<Rightarrow> (Inl (Not_found, ''agent not found''), sv1)
        | (Inr (Some a), sv1) \<Rightarrow>
          (if ag_status a = ''approved'' \<and> ag_api_key a \<noteq> Some (am_api_key msg)
           then (Inl (Unauthenticated, ''invalid api_key''), sv1)
           else if ag_status a = ''rejected'' then (Inl (Permission_denied, ''agent is rejected''), sv1)
           else (Inr a, sv1))))"

text \<open>
  A message of an agent. The status of the agent is an argument, as it is in the code, where
  the function does not use it either. The result of a command is routed at once here;
  interleaved with other callers it is three steps of the registry.
\<close>

definition handle_command_result :: "string \<Rightarrow> command_result \<Rightarrow> manager \<Rightarrow> manager" where
  "handle_command_result agentID r m =
    (case route_find agentID r m of
       Routing a r \<Rightarrow> (case route_channel a r m of Routed ch r \<Rightarrow> route_send ch r m | _ \<Rightarrow> m)
     | _ \<Rightarrow> m)"

definition job_progress_event :: "string \<Rightarrow> current_job_info \<Rightarrow> event" where
  "job_progress_event agentID cj = \<lparr>ev_type = ''job.progress'', ev_payload = [(''agent_id'', agentID),
     (''plan_name'', cj_plan_name cj), (''progress_percent'', show_int (cj_progress cj)), (''started_at'', cj_started_at cj)]\<rparr>"

definition on_reports :: "(store \<times> hub \<Rightarrow> store \<times> hub) \<Rightarrow> server \<Rightarrow> server" where
  "on_reports f sv = (case f (sv_db sv, sv_hub sv) of (s, h) \<Rightarrow> sv\<lparr>sv_db := s, sv_hub := h\<rparr>)"

definition handle_heartbeat :: "services \<Rightarrow> ctx \<Rightarrow> string \<Rightarrow> heartbeat \<Rightarrow> server \<Rightarrow> server" where
  "handle_heartbeat rv c agentID hb sv =
    (let hbStatus = (if hb_status hb = '''' then ''idle'' else hb_status hb);
         currentJob = map_option (convert_running (rv_rfc3339 rv)) (hb_current_job hb)
     in case update_heartbeat agentID hbStatus currentJob (sv_mgr sv) of
          (transition, m1) \<Rightarrow>
            (let sv1 = sv\<lparr>sv_mgr := m1\<rparr>;
                 sv2 = (case transition of
                          Job_started \<Rightarrow> on_reports (handle_job_started (rv_env rv) (rv_events rv) c agentID currentJob) sv1
                        | Job_progress \<Rightarrow>
                            (case currentJob of None \<Rightarrow> sv1 | Some cj \<Rightarrow> emit_event rv (job_progress_event agentID cj) sv1)
                        | _ \<Rightarrow> sv1);
                 sv3 = snd (on_store (update_heartbeat_row (rv_env rv) c agentID (hb_agent_version hb)
                          (hb_restic_version hb) (hb_rclone_version hb) (sv_db sv2)) sv2)
             in emit_event rv \<lparr>ev_type = ''agent.heartbeat'', ev_payload = [(''agent_id'', agentID),
                  (''timestamp'', rv_rfc3339 rv (se_now (rv_env rv) (st_tick (sv_db sv3))))]\<rparr> sv3))"

definition handle_agent_message :: "services \<Rightarrow> ctx \<Rightarrow> string \<Rightarrow> string \<Rightarrow> agent_message \<Rightarrow> server \<Rightarrow> server" where
  "handle_agent_message rv c agentID agentStatus msg sv =
    (case am_payload msg of
       Heartbeat hb \<Rightarrow> handle_heartbeat rv c agentID hb sv
     | Config_ack version success er \<Rightarrow>
       (if success
        then snd (on_store (update_config_applied (rv_env rv) c agentID
               (se_now (rv_env rv) (st_tick (sv_db sv))) (sv_db sv)) sv)
        else sv)
     | Command_result r \<Rightarrow> sv\<lparr>sv_mgr := handle_command_result agentID r (sv_mgr sv)\<rparr>
     | Live_logs jobID entries \<Rightarrow>
         on_reports (handle_live_logs (rv_logs rv) (rv_env rv) (rv_events rv) c agentID jobID entries) sv)"

text \<open>Opening the stream: admission, registration with a new channel, and the first message.\<close>

definition connect :: "services \<Rightarrow> ctx \<Rightarrow> agent_message result \<Rightarrow> server \<Rightarrow> (rpc_error + agent_row) \<times> server" where
  "connect rv c first sv =
    (case admit rv c first sv of
       (Inl er, sv1) \<Rightarrow> (Inl er, sv1)
     | (Inr a, sv1) \<Rightarrow>
       (case first of
          Inl _ \<Rightarrow> (Inr a, sv1)
        | Inr msg \<Rightarrow>
          (let agentID = am_agent_id msg
           in case open_stream (sv_mgr sv1) of
                (ch, m1) \<Rightarrow>
                  (let sv2 = sv1\<lparr>sv_mgr := register agentID ch m1\<rparr>;
                       sv3 = emit_event rv \<lparr>ev_type = ''agent.connected'',
                               ev_payload = [(''agent_id'', agentID), (''hostname'', ag_hostname a)]\<rparr> sv2
                   in (Inr a, handle_agent_message rv c agentID (ag_status a) msg sv3)))))"

text \<open>
  The receive loop keeps a status that it reads again when the last look is more than a
  minute (in nanoseconds of the clock \<open>now\<close>) ago, and hands every message on with it.
\<close>

definition receive ::
  "services \<Rightarrow> ctx \<Rightarrow> string \<Rightarrow> int \<Rightarrow> agent_message \<Rightarrow> (string \<times> int) \<times> server \<Rightarrow> (string \<times> int) \<times> server" where
  "receive rv c agentID now msg st =
    (case st of ((cachedStatus, lastCheck), sv) \<Rightarrow>
      (if now - lastCheck > 60 * 1000000000 then
         (case agent_by_id rv c agentID sv of
            (found, sv1) \<Rightarrow>
              (let cached' = (case found of Inr (Some a) \<Rightarrow> ag_status a | _ \<Rightarrow> cachedStatus)
               in ((cached', now), handle_agent_message rv c agentID cached' msg sv1)))
       else ((cachedStatus, lastCheck), handle_agent_message rv c agentID cachedStatus msg sv)))"

definition disconnect_stream :: "services \<Rightarrow> string \<Rightarrow> server \<Rightarrow> server" where
  "disconnect_stream rv agentID sv =
    (let sv1 = emit_event rv \<lparr>ev_type = ''agent.disconnected'', ev_payload = [(''agent_id'', agentID)]\<rparr> sv
     in sv1\<lparr>sv_mgr := unregister agentID (sv_mgr sv1)\<rparr>)"

section \<open>Reports behind the interceptor\<close>

definition report_job_rpc ::
  "services \<Rightarrow> ctx \<Rightarrow> metadata \<Rightarrow> report_request \<Rightarrow> server \<Rightarrow> (rpc_error + job_report_ack) \<times> server" where
  "report_job_rpc rv c md req sv =
    (case unary_auth rv c (Call_report (rq_api_key req)) md sv of
       (Inl er, sv1) \<Rightarrow> (Inl er, sv1)
     | (Inr ctxAgent, sv1) \<Rightarrow>
       (case report_job (rv_logs rv) (rv_env rv) (rv_events rv) c ctxAgent req (sv_db sv1, sv_hub sv1) of
          (ack, (s, h)) \<Rightarrow> (Inr ack, sv1\<lparr>sv_db := s, sv_hub := h\<rparr>)))"

record snapshot_report =
  sr_agent_id :: string
  sr_api_key :: string
  sr_repository_id :: string
  sr_snapshots :: "snapshot_info list"

definition report_snapshots_rpc ::
  "services \<Rightarrow> ctx \<Rightarrow> metadata \<Rightarrow> snapshot_report \<Rightarrow> server \<Rightarrow> (rpc_error + bool) \<times> server" where
  "report_snapshots_rpc rv c md req sv =
    (case unary_auth rv c (Call_snapshots (sr_api_key req)) md sv of
       (Inl er, sv1) \<Rightarrow> (Inl er, sv1)
     | (Inr ctxAgent, sv1) \<Rightarrow>
       (let agentID = (if ctxAgent = '''' then sr_agent_id req else ctxAgent);
            key = agentID @ '':'' @ sr_repository_id req
        in (Inr True, sv1\<lparr>sv_snapshots := AList.update key (sr_snapshots req) (sv_snapshots sv1)\<rparr>)))"

end
