(* ===== verification/AgentApi.thy ===== *)
theory AgentApi
  imports Enrollment
begin

text \<open>
  The HTTP handlers for agents (server/internal/api/agents.go): listing, approval and
  rejection, deletion, rclone configuration and the overrides of timeouts and outbox tunables.
  A push that a handler starts in a goroutine of its own runs at once here.
\<close>

section \<open>Replies\<close>

text \<open>
  A handler answers with a status code and a body, or with a code and an error text, or it
  panics.
\<close>

datatype 'b reply = Reply nat 'b | Error_reply nat string | Panics

datatype 'b body = Decoded 'b | Bad_body | Empty_body

record agent_response =
  ar_id :: string
  ar_name :: string
  ar_hostname :: string
  ar_os :: "string option"
  ar_status :: string
  ar_api_key :: "string option"
  ar_agent_version :: "string option"
  ar_restic_version :: "string option"
  ar_rclone_version :: "string option"
  ar_has_rclone_config :: bool
  ar_last_heartbeat :: "int option"
  ar_last_job_at :: "int option"
  ar_config_version :: int
  ar_config_applied_at :: "int option"
  ar_command_timeouts :: "command_timeouts option"
  ar_outbox_overrides :: "outbox_proto option"
  ar_created_at :: int
  ar_updated_at :: int

definition to_agent_response :: "json_codec \<Rightarrow> agent_row \<Rightarrow> agent_response" where
  "to_agent_response jc a = \<lparr>ar_id = ag_id a, ar_name = ag_name a, ar_hostname = ag_hostname a, ar_os = ag_os a,
     ar_status = ag_status a, ar_api_key = ag_api_key a, ar_agent_version = ag_agent_version a,
     ar_restic_version = ag_restic_version a, ar_rclone_version = ag_rclone_version a,
     ar_has_rclone_config = (ag_rclone_config a \<noteq> None \<and> ag_rclone_config a \<noteq> Some ''''),
     ar_last_heartbeat = ag_last_heartbeat a, ar_last_job_at = ag_last_job_at a,
     ar_config_version = ag_config_version a, ar_config_applied_at = ag_config_applied_at a,
     ar_command_timeouts = stored_override (jc_timeouts jc) (ag_command_timeouts a),
     ar_outbox_overrides = stored_override (jc_outbox jc) (ag_outbox_overrides a),
     ar_created_at = ag_created_at a, ar_updated_at = ag_updated_at a\<rparr>"

abbreviation rv_codec :: "services \<Rightarrow> json_codec" where
  "rv_codec rv \<equiv> pp_codec (rv_push rv)"

text \<open>
  The end of most handlers: the agent is read again. Some of them only log the error of that
  read and hand the missing agent to \<open>toAgentResponse\<close>, which dereferences it.
\<close>

definition reload_agent :: "services \<Rightarrow> ctx \<Rightarrow> string \<Rightarrow> server \<Rightarrow> agent_response reply \<times> server" where
  "reload_agent rv c i sv =
    (case agent_by_id rv c i sv of
       (Inr (Some a), sv1) \<Rightarrow> (Reply 200 (to_agent_response (rv_codec rv) a), sv1)
     | (_, sv1) \<Rightarrow> (Panics, sv1))"

definition reload_agent_checked :: "services \<Rightarrow> ctx \<Rightarrow> string \<Rightarrow> server \<Rightarrow> agent_response reply \<times> server" where
  "reload_agent_checked rv c i sv =
    (case agent_by_id rv c i sv of
       (Inl er, sv1) \<Rightarrow> (Error_reply 500 (error_text er), sv1)
     | (Inr None, sv1) \<Rightarrow> (Panics, sv1)
     | (Inr (Some a), sv1) \<Rightarrow> (Reply 200 (to_agent_response (rv_codec rv) a), sv1))"

definition push_to :: "services \<Rightarrow> string \<Rightarrow> server \<Rightarrow> server" where
  "push_to rv i sv =
    (case snd (push_config_to_agent (rv_push rv) (rv_env rv) background i (sv_db sv, sv_mgr sv)) of
       (s, m) \<Rightarrow> sv\<lparr>sv_db := s, sv_mgr := m\<rparr>)"

definition send_to :: "string \<Rightarrow> server_message \<Rightarrow> server \<Rightarrow> server" where
  "send_to i msg sv = sv\<lparr>sv_mgr := snd (mgr_send i msg (sv_mgr sv))\<rparr>"

section \<open>Reading\<close>

definition list_agents_handler :: "services \<Rightarrow> ctx \<Rightarrow> server \<Rightarrow> agent_response list reply \<times> server" where
  "list_agents_handler rv c sv =
    (case on_store (list_agents (rv_secrets rv) (rv_env rv) c (sv_db sv)) sv of
       (Inl er, sv1) \<Rightarrow> (Error_reply 500 (error_text er), sv1)
     | (Inr as, sv1) \<Rightarrow> (Reply 200 (map (to_agent_response (rv_codec rv)) as), sv1))"

definition get_agent_handler :: "services \<Rightarrow> ctx \<Rightarrow> string \<Rightarrow> server \<Rightarrow> agent_response reply \<times> server" where
  "get_agent_handler rv c i sv =
    (case agent_by_id rv c i sv of
       (Inl er, sv1) \<Rightarrow> (Error_reply 500 (error_text er), sv1)
     | (Inr None, sv1) \<Rightarrow> (Error_reply 404 ''agent not found'', sv1)
     | (Inr (Some a), sv1) \<Rightarrow> (Reply 200 (to_agent_response (rv_codec rv) a), sv1))"

definition get_rclone_handler :: "services \<Rightarrow> ctx \<Rightarrow> string \<Rightarrow> server \<Rightarrow> string reply \<times> server" where
  "get_rclone_handler rv c i sv =
    (case agent_by_id rv c i sv of
       (Inl er, sv1) \<Rightarrow> (Error_reply 500 (error_text er), sv1)
     | (Inr None, sv1) \<Rightarrow> (Error_reply 404 ''agent not found'', sv1)
     | (Inr (Some a), sv1) \<Rightarrow> (Reply 200 (or_else '''' (ag_rclone_config a)), sv1))"

section \<open>Decisions\<close>

text \<open>An error whose text says that nothing was found becomes 404, every other one 500.\<close>

definition decision_error :: "go_error \<Rightarrow> 'b reply" where
  "decision_error er =
    (if contains (error_text er) ''not found'' then Error_reply 404 ''agent not found or not in pending status''
     else Error_reply 500 (error_text er))"

text \<open>\<open>apiKey\<close> is the hexadecimal text of 32 random bytes, or the error of the random source.\<close>

definition approve_agent_handler ::
  "services \<Rightarrow> ctx \<Rightarrow> string result \<Rightarrow> string \<Rightarrow> server \<Rightarrow> agent_response reply \<times> server" where
  "approve_agent_handler rv c random i sv =
    (case random of
       Inl _ \<Rightarrow> (Error_reply 500 ''failed to generate API key'', sv)
     | Inr apiKey \<Rightarrow>
       (case on_store (approve_agent (rv_env rv) c i apiKey (sv_db sv)) sv of
          (Inl er, sv1) \<Rightarrow> (decision_error er, sv1)
        | (Inr _, sv1) \<Rightarrow>
          reload_agent rv c i
            (if is_online i (sv_mgr sv1) then push_to rv i (send_to i (Approval Status_approved apiKey) sv1) else sv1)))"

definition reject_agent_handler :: "services \<Rightarrow> ctx \<Rightarrow> string \<Rightarrow> server \<Rightarrow> agent_response reply \<times> server" where
  "reject_agent_handler rv c i sv =
    (case on_store (reject_agent (rv_env rv) c i (sv_db sv)) sv of
       (Inl er, sv1) \<Rightarrow> (decision_error er, sv1)
     | (Inr _, sv1) \<Rightarrow>
       reload_agent rv c i
         (if is_online i (sv_mgr sv1) then send_to i (Approval Status_rejected '''') sv1 else sv1))"

definition delete_agent_handler :: "services \<Rightarrow> ctx \<Rightarrow> string \<Rightarrow> server \<Rightarrow> string reply \<times> server" where
  "delete_agent_handler rv c i sv =
    (case on_store (delete_agent (rv_env rv) c i (sv_db sv)) sv of
       (Inl er, sv1) \<Rightarrow> (Error_reply 404 (error_text er), sv1)
     | (Inr _, sv1) \<Rightarrow> (Reply 200 ''deleted'', sv1))"

section \<open>Configuration of an agent\<close>

definition update_rclone_handler ::
  "services \<Rightarrow> ctx \<Rightarrow> string \<Rightarrow> string body \<Rightarrow> server \<Rightarrow> agent_response reply \<times> server" where
  "update_rclone_handler rv c i input sv =
    (case input of
       Decoded config \<Rightarrow>
         (let r = (if config = '''' then (Inr (), sv)
                   else on_store (update_rclone_config (rv_secrets rv) (rv_env rv) c i config (sv_db sv)) sv)
          in case r of
               (Inl er, sv1) \<Rightarrow> (Error_reply 404 (error_text er), sv1)
             | (Inr _, sv1) \<Rightarrow> reload_agent rv c i (push_to rv i sv1))
     | _ \<Rightarrow> (Error_reply 400 ''invalid request body'', sv))"

text \<open>
  The two override endpoints: \<open>null\<close> is \<open>Decoded None\<close>. \<open>marshal\<close> is what
  \<open>json.Marshal\<close> writes for the decoded object, and an error of it is impossible for
  structs of integers.
\<close>

definition timeout_values :: "command_timeouts \<Rightarrow> int list" where
  "timeout_values ct = [ct_backup_secs ct, ct_restore_secs ct, ct_list_snapshots_secs ct, ct_browse_snapshot_secs ct,
     ct_browse_filesystem_secs ct, ct_default_secs ct]"

definition outbox_values :: "outbox_proto \<Rightarrow> int list" where
  "outbox_values ob = [op_spill_max_rows ob, op_spill_retention_secs ob, op_flush_interval_secs ob,
     op_delivery_timeout_secs ob, op_max_attempts ob]"

definition update_timeouts_handler ::
  "services \<Rightarrow> (command_timeouts \<Rightarrow> string) \<Rightarrow> ctx \<Rightarrow> string \<Rightarrow> command_timeouts option body \<Rightarrow> server
    \<Rightarrow> agent_response reply \<times> server" where
  "update_timeouts_handler rv marshal c i input sv =
    (case input of
       Decoded x \<Rightarrow>
         (if (case x of None \<Rightarrow> False | Some ct \<Rightarrow> list_ex (\<lambda>n. n < 0) (timeout_values ct))
          then (Error_reply 400 ''command timeout values must be non-negative'', sv)
          else case on_store (update_command_timeouts (rv_env rv) c i (map_option marshal x) (sv_db sv)) sv of
            (Inl er, sv1) \<Rightarrow> (Error_reply 404 (error_text er), sv1)
          | (Inr _, sv1) \<Rightarrow> reload_agent_checked rv c i (push_to rv i sv1))
     | _ \<Rightarrow> (Error_reply 400 ''invalid request body'', sv))"

definition update_outbox_handler ::
  "services \<Rightarrow> (outbox_proto \<Rightarrow> string) \<Rightarrow> ctx \<Rightarrow> string \<Rightarrow> outbox_proto option body \<Rightarrow> server
    \<Rightarrow> agent_response reply \<times> server" where
  "update_outbox_handler rv marshal c i input sv =
    (case input of
       Bad_body \<Rightarrow> (Error_reply 400 ''invalid request body'', sv)
     | _ \<Rightarrow>
       (let x = (case input of Decoded y \<Rightarrow> y | _ \<Rightarrow> None)
        in if (case x of None \<Rightarrow> False | Some ob \<Rightarrow> list_ex (\<lambda>n. n < 0) (outbox_values ob))
           then (Error_reply 400 ''outbox override values must be non-negative'', sv)
           else case on_store (update_outbox_overrides (rv_env rv) c i (map_option marshal x) (sv_db sv)) sv of
             (Inl er, sv1) \<Rightarrow> (Error_reply 404 (error_text er), sv1)
           | (Inr _, sv1) \<Rightarrow> reload_agent_checked rv c i (push_to rv i sv1)))"

end
