(* ===== verification/AgentLife.thy ===== *)
theory AgentLife
  imports AgentApi
begin

text \<open>
  The life of an agent on the server, from its registration to its decision and its streams:
  who is let in, that a decision is never taken back, and what happens to an agent that was
  not connected when it was approved.
\<close>

section \<open>Decisions in the agent table\<close>

definition decision :: "string \<Rightarrow> store \<Rightarrow> (string \<times> string option) option" where
  "decision i s = map_option (\<lambda>a. (ag_status a, ag_api_key a)) (find_agent i s)"

lemma decision_tick [simp]: "decision i (s\<lparr>st_tick := t\<rparr>) = decision i s"
  by (simp add: decision_def find_agent_def)

lemma decision_agents: "st_agents s' = st_agents s \<Longrightarrow> decision i s' = decision i s"
  by (simp add: decision_def find_agent_def)

text \<open>Operations that leave the agents alone.\<close>

lemma statement_agents:
  assumes "\<And>s. st_agents (f s) = st_agents s"
  shows "st_agents (snd (statement v c what ok f s)) = st_agents s"
    "st_agents (snd (exec_rows v c what ok missing hit f s)) = st_agents s"
    "st_agents (snd (transaction e c stmts f s)) = st_agents s"
  by (simp_all add: statement_def exec_rows_def transaction_def assms split: prod.split option.split sum.split)

lemma query_agents [simp]: "st_agents (snd (query v c what x s)) = st_agents s"
  by (simp add: query_def)

lemma pair_case_agents:
  assumes "st_agents (snd p) = A" and "\<And>er s. st_agents s = A \<Longrightarrow> st_agents (snd (f er s)) = A"
    and "\<And>x s. st_agents s = A \<Longrightarrow> st_agents (snd (g x s)) = A"
  shows "st_agents (snd (case p of (Inl er, s) \<Rightarrow> f er s | (Inr x, s) \<Rightarrow> g x s)) = A"
  using assms by (auto split: prod.split sum.split)

lemma repository_agents:
  "st_agents (snd (create_repository k v c r s)) = st_agents s"
  "st_agents (snd (update_repository k v c r s)) = st_agents s"
  "st_agents (snd (delete_repository v c i s)) = st_agents s"
  by (auto simp: create_repository_def update_repository_def delete_repository_def Let_def statement_def exec_rows_def
      split: prod.split option.split sum.split)

lemma plan_agents:
  "st_agents (snd (create_plan v c p s)) = st_agents s"
  "st_agents (snd (update_plan v c p s)) = st_agents s"
  "st_agents (snd (delete_plan v c i s)) = st_agents s"
  by (auto simp: create_plan_def update_plan_def delete_plan_def unplan_def Let_def transaction_def exec_rows_def statement_def
      split: prod.split option.split sum.split)

lemma reorder_agents: "st_agents (snd (reorder_from v c planID now j hs s)) = st_agents s"
proof (induction hs arbitrary: j s)
  case (Cons h hs)
  then show ?case by (auto simp: Let_def set_hook_def statement_def split: prod.split option.split sum.split)
qed simp

lemma hook_agents:
  "st_agents (snd (create_hook v c h s)) = st_agents s"
  "st_agents (snd (update_hook v c h s)) = st_agents s"
  "st_agents (snd (delete_hook v c i s)) = st_agents s"
  "st_agents (snd (create_script v c x s)) = st_agents s"
  "st_agents (snd (update_script v c x s)) = st_agents s"
  "st_agents (snd (delete_script v c i s)) = st_agents s"
  "st_agents (snd (set_setting v c y z s)) = st_agents s"
  by (auto simp: create_hook_def update_hook_def delete_hook_def create_script_def update_script_def delete_script_def
      set_setting_def Let_def exec_rows_def statement_def set_hook_def split: prod.split option.split sum.split)

lemma reorder_hooks_agents: "st_agents (snd (reorder_hooks v c p hs s)) = st_agents s"
proof -
  have st: "st_agents (snd (statement v c what True (\<lambda>s. s) s)) = st_agents s" for what s by (rule statement_agents(1)) simp
  show ?thesis unfolding reorder_hooks_def
    by (intro pair_case_agents st) (simp_all add: reorder_agents pair_case_agents st del: split_paired_All)
qed

lemma update_row_agents: "st_agents (update_row i f s) = st_agents s"
  by (simp add: update_row_def)

lemma job_agents:
  "st_agents (snd (create_job v c j s)) = st_agents s"
  "st_agents (snd (complete_job v c j s)) = st_agents s"
  "st_agents (snd (update_job_status v c i st t l s)) = st_agents s"
  "st_agents (snd (create_planned_job v c a p n tr s)) = st_agents s"
  "st_agents (snd (append_job_logs cd v c i es s)) = st_agents s"
proof -
  show "st_agents (snd (create_job v c j s)) = st_agents s"
    unfolding create_job_def Let_def by (rule statement_agents(3)) simp
  show "st_agents (snd (complete_job v c j s)) = st_agents s"
    unfolding complete_job_def Let_def by (rule statement_agents(3)) (rule update_row_agents)
  show "st_agents (snd (update_job_status v c i st t l s)) = st_agents s"
    unfolding update_job_status_def by (rule statement_agents(2)) (rule update_row_agents)
  show "st_agents (snd (create_planned_job v c a p n tr s)) = st_agents s"
    unfolding create_planned_job_def Let_def by (rule pair_case_agents[OF statement_agents(1)]) simp_all
  show "st_agents (snd (append_job_logs cd v c i es s)) = st_agents s"
    unfolding append_job_logs_def Let_def
    by (auto simp: statement_agents(1)[OF update_row_agents] split: option.split)
qed

lemmas other_tables = repository_agents plan_agents hook_agents reorder_hooks_agents job_agents


text \<open>Operations on agents: they add rows, change one row, or delete one.\<close>

lemma find_append: "find P xs = Some x \<Longrightarrow> find P (xs @ ys) = Some x"
  by (induction xs) auto

lemma find_map_same: "(\<And>x. P (f x) = P x) \<Longrightarrow> find P (map f xs) = map_option f (find P xs)"
  by (induction xs) auto

lemma decision_append: "decision i s = Some d \<Longrightarrow> decision i (s\<lparr>st_agents := st_agents s @ as\<rparr>) = Some d"
  by (auto simp: decision_def find_agent_def find_append)

lemma decision_set:
  assumes "\<And>a. ag_id (f a) = ag_id a" and "\<And>a. ag_status a \<noteq> ''pending'' \<Longrightarrow> ag_status (f a) = ag_status a \<and> ag_api_key (f a) = ag_api_key a"
    and "decision i s = Some d" and "fst d \<noteq> ''pending''"
  shows "decision i (set_agent j f s) = Some d"
proof -
  have e: "find_agent i (set_agent j f s) = map_option (\<lambda>a. if ag_id a = j then f a else a) (find_agent i s)"
    unfolding find_agent_def set_agent_def by (simp del: map_option_eq_Some) (rule find_map_same, simp add: assms(1))
  from assms(3) obtain a where a: "find_agent i s = Some a" "d = (ag_status a, ag_api_key a)" by (auto simp: decision_def)
  then show ?thesis using assms(2)[of a] assms(4) by (simp add: decision_def e)
qed

lemma find_filter: "(\<And>x. P x \<Longrightarrow> Q x) \<Longrightarrow> find P (filter Q xs) = find P xs"
  by (induction xs) auto

lemma statement_decision:
  assumes "\<And>s. decision i s = Some d \<Longrightarrow> decision i (f s) = Some d" and "decision i s = Some d"
  shows "decision i (snd (statement v c what ok f s)) = Some d"
    "decision i (snd (exec_rows v c what ok missing hit f s)) = Some d"
  by (simp_all add: statement_def exec_rows_def assms split: prod.split option.split sum.split)

lemma agent_decision:
  assumes "decision i s = Some d" and "fst d \<noteq> ''pending''"
  shows "decision i (snd (create_agent k v c a s)) = Some d"
    "decision i (snd (approve_agent v c j key s)) = Some d"
    "decision i (snd (reject_agent v c j s)) = Some d"
    "decision i (snd (update_heartbeat_row v c j x y z s)) = Some d"
    "decision i (snd (update_rclone_config k v c j w s)) = Some d"
    "decision i (snd (update_command_timeouts v c j u s)) = Some d"
    "decision i (snd (update_outbox_overrides v c j u s)) = Some d"
    "decision i (snd (update_config_version v c j s)) = Some d"
    "decision i (snd (update_config_applied v c j t s)) = Some d"
proof -
  note set = decision_set[OF _ _ _ assms(2)]
  show "decision i (snd (create_agent k v c a s)) = Some d"
    using assms(1) by (auto simp: create_agent_def Let_def intro!: statement_decision decision_append split: sum.split)
  show "decision i (snd (approve_agent v c j key s)) = Some d" "decision i (snd (reject_agent v c j s)) = Some d"
    unfolding approve_agent_def reject_agent_def decide_agent_def
    by (rule statement_decision(2)[OF set]; simp add: assms(1))+
  show "decision i (snd (update_heartbeat_row v c j x y z s)) = Some d" "decision i (snd (update_config_applied v c j t s)) = Some d"
    unfolding update_heartbeat_row_def update_config_applied_def Let_def
    by (rule statement_decision(1)[OF set]; simp add: assms(1))+
  have col: "decision i (snd (update_agent_column v c what j f s)) = Some d"
    if "\<And>a. ag_id (f a) = ag_id a" "\<And>a. ag_status (f a) = ag_status a" "\<And>a. ag_api_key (f a) = ag_api_key a" for what f
    unfolding update_agent_column_def by (rule statement_decision(2)[OF set]) (simp_all add: that assms(1))
  show "decision i (snd (update_rclone_config k v c j w s)) = Some d"
    by (auto simp: update_rclone_config_def assms(1) intro!: col split: sum.split)
  show "decision i (snd (update_command_timeouts v c j u s)) = Some d" "decision i (snd (update_outbox_overrides v c j u s)) = Some d"
    unfolding update_command_timeouts_def update_outbox_overrides_def by (rule col; simp)+
  show "decision i (snd (update_config_version v c j s)) = Some d"
    by (auto simp: update_config_version_def Let_def assms(1) intro!: set split: prod.split option.split)
qed

lemma delete_other_decision:
  assumes "decision i s = Some d" and "i \<noteq> j"
  shows "decision i (snd (delete_agent v c j s)) = Some d"
proof -
  have "decision i (drop_agent_rows v j s') = Some d" if "decision i s' = Some d" for s'
    using that assms(2) by (auto simp: decision_def find_agent_def drop_agent_rows_def unplan_def Let_def find_filter)
  from statement_decision(2)[of i d, OF _ assms(1)] this show ?thesis unfolding delete_agent_def Let_def by simp
qed

lemmas other_decision = other_tables[THEN decision_agents, THEN trans]

lemma op_decision:
  assumes "decision i s = Some d" and "fst d \<noteq> ''pending''" and "op \<noteq> Op_delete_agent i"
  shows "decision i (db_apply k cd v c op s) = Some d"
proof (cases op)
  case (Op_delete_agent j)
  then show ?thesis using assms delete_other_decision by simp
qed (simp_all only: db_apply.simps, (rule agent_decision other_decision; rule assms)+)


lemma run_decision:
  assumes "decision i s = Some d" and "fst d \<noteq> ''pending''" and "\<forall>p \<in> set ops. snd p \<noteq> Op_delete_agent i"
  shows "decision i (db_run k cd v ops s) = Some d"
  using assms(1,3)
proof (induction ops arbitrary: s)
  case (Cons p ops)
  obtain c op where p: "p = (c, op)" by fastforce
  have "decision i (db_apply k cd v c op s) = Some d" using op_decision[OF Cons.prems(1) assms(2)] Cons.prems(2) p by simp
  then show ?case using Cons.IH Cons.prems(2) by (simp add: p)
qed simp

section \<open>Who is let in\<close>

text \<open>Reads on the server change nothing but the tick.\<close>

definition same_rows :: "server \<Rightarrow> server \<Rightarrow> bool" where
  "same_rows sv sv' \<longleftrightarrow> (\<exists>t. sv' = sv\<lparr>sv_db := (sv_db sv)\<lparr>st_tick := t\<rparr>\<rparr>)"

lemma same_rows_refl [simp]: "same_rows sv sv"
  unfolding same_rows_def by (rule exI[of _ "st_tick (sv_db sv)"]) simp

lemma same_rows_decision: "same_rows sv sv' \<Longrightarrow> decision i (sv_db sv') = decision i (sv_db sv)"
  by (auto simp: same_rows_def)

lemma same_rows_tick [simp]: "same_rows sv (sv\<lparr>sv_db := (sv_db sv)\<lparr>st_tick := t\<rparr>\<rparr>)"
  unfolding same_rows_def by (rule exI[of _ t]) (rule refl)

lemma read_agent_same:
  assumes "on_store (read_agent k v c what row (sv_db sv)) sv = (r, sv1)"
  shows "same_rows sv sv1 \<and> (\<forall>a. r = Inr (Some a) \<longrightarrow> (\<exists>x. row = Some x \<and> ag_id a = ag_id x \<and> ag_status a = ag_status x
    \<and> ag_api_key a = ag_api_key x))"
proof -
  obtain q s1 where q: "query v c what row (sv_db sv) = (q, s1)" by fastforce
  have s1: "s1 = (sv_db sv)\<lparr>st_tick := Suc (st_tick (sv_db sv))\<rparr>" "\<And>y. q = Inr y \<Longrightarrow> y = row"
    using query_cases[OF q] by auto
  have "sv1 = sv\<lparr>sv_db := s1\<rparr>" using assms q
    by (simp add: on_store_def read_agent_def split: sum.splits option.splits)
  moreover have "\<exists>x. row = Some x \<and> ag_id a = ag_id x \<and> ag_status a = ag_status x \<and> ag_api_key a = ag_api_key x"
    if "r = Inr (Some a)" for a
  proof (cases q)
    case (Inr o1)
    with that assms q s1(2) obtain x what' where "row = Some x" "open_agent k what' x = Inr a"
      by (auto simp: on_store_def read_agent_def split: sum.splits option.splits)
    then show ?thesis by (auto simp: open_agent_def split: sum.splits)
  qed (use that assms q in \<open>simp add: on_store_def read_agent_def\<close>)
  ultimately show ?thesis using s1(1) by simp
qed

lemma agent_by_idD:
  assumes "agent_by_id rv c i sv = (r, sv1)"
  shows "same_rows sv sv1 \<and> (\<forall>a. r = Inr (Some a) \<longrightarrow> decision i (sv_db sv) = Some (ag_status a, ag_api_key a) \<and> ag_id a = i)"
proof -
  have "ag_id x = i" if "find_agent i s = Some x" for s x using that by (auto simp: find_agent_def find_Some_iff)
  then show ?thesis using read_agent_same[OF assms[unfolded agent_by_id_def get_agent_def]] by (auto simp: decision_def)
qed

lemma agent_by_keyD:
  assumes "agent_by_key rv c key sv = (r, sv1)"
  shows "same_rows sv sv1 \<and> (\<forall>a. r = Inr (Some a) \<longrightarrow>
    (\<exists>row \<in> set (st_agents (sv_db sv)). ag_id row = ag_id a \<and> ag_status row = ag_status a \<and> ag_api_key row = Some key))"
  using read_agent_same[OF assms[unfolded agent_by_key_def get_agent_by_api_key_def]] find_Some_iff[of _ "st_agents (sv_db sv)"]
  by fastforce

definition call_key :: "unary_call \<Rightarrow> metadata \<Rightarrow> string" where
  "call_key call md = (if message_key call = '''' then metadata_key md else message_key call)"

lemma unary_authD:
  assumes "unary_auth rv c call md sv = (r, sv1)" and "call \<noteq> Call_register"
  shows "same_rows sv sv1 \<and> (\<forall>i. r = Inr i \<longrightarrow> call_key call md \<noteq> '''' \<and>
    (\<exists>row \<in> set (st_agents (sv_db sv)). ag_id row = i \<and> ag_status row = ''approved'' \<and> ag_api_key row = Some (call_key call md)))"
proof -
  obtain q s1 where q: "agent_by_key rv c (call_key call md) sv = (q, s1)" by fastforce
  from agent_by_keyD[OF q] assms q show ?thesis
    by (auto simp: unary_auth_def check_key_def call_key_def Let_def split: if_splits sum.splits option.splits)
qed


lemma admitD:
  assumes "admit rv c (Inr msg) sv = (r, sv1)"
  shows "same_rows sv sv1 \<and> (\<forall>a. r = Inr a \<longrightarrow> am_agent_id msg \<noteq> '''' \<and> ag_status a \<noteq> ''rejected''
    \<and> decision (am_agent_id msg) (sv_db sv) = Some (ag_status a, ag_api_key a)
    \<and> (ag_status a = ''approved'' \<longrightarrow> ag_api_key a = Some (am_api_key msg)))"
proof (cases "am_agent_id msg = ''''")
  case False
  obtain q sv2 where q: "agent_by_id rv c (am_agent_id msg) sv = (q, sv2)" by fastforce
  from agent_by_idD[OF q] assms q False show ?thesis
    by (auto simp: admit_def split: sum.splits option.splits if_splits)
qed (use assms in \<open>auto simp: admit_def\<close>)

section \<open>Properties\<close>

text \<open>
  C6. Reports are attributed: a report of a job changes the history of jobs only when the key
  sent with it (in the message, or else in the metadata) is that of an approved agent, and
  then only by one new row of this agent or by completing a planned or running job of this
  agent, whatever agent id the message claims.
\<close>

theorem reports_are_attributed:
  assumes "report_job_rpc rv c md req sv = (r, sv')" and "'''' \<notin> set (agent_ids (sv_db sv))"
  shows "st_jobs (sv_db sv') = st_jobs (sv_db sv)
    \<or> (\<exists>row \<in> set (st_agents (sv_db sv)). ag_status row = ''approved''
        \<and> ag_api_key row = Some (call_key (Call_report (rq_api_key req)) md)
        \<and> ((\<exists>j. st_jobs (sv_db sv') = st_jobs (sv_db sv) @ [j] \<and> jb_agent_id j = ag_id row)
           \<or> (\<exists>j planned. planned \<in> set (st_jobs (sv_db sv)) \<and> jb_agent_id planned = ag_id row
               \<and> (jb_status planned = ''planned'' \<or> jb_status planned = ''running'')
               \<and> st_jobs (sv_db sv') = map (\<lambda>x. if jb_id x = jb_id planned then complete_row j x else x) (st_jobs (sv_db sv)))))"
proof -
  obtain q sv1 where q: "unary_auth rv c (Call_report (rq_api_key req)) md sv = (q, sv1)" by fastforce
  note D = unary_authD[OF q]
  then have jobs: "st_jobs (sv_db sv1) = st_jobs (sv_db sv)" by (auto simp: same_rows_def)
  show ?thesis
  proof (cases q)
    case (Inl er)
    then show ?thesis using assms(1) q jobs by (simp add: report_job_rpc_def)
  next
    case (Inr i)
    then obtain row where row: "row \<in> set (st_agents (sv_db sv))" "ag_id row = i" "ag_status row = ''approved''"
      "ag_api_key row = Some (call_key (Call_report (rq_api_key req)) md)" using D by auto
    then have i: "i \<noteq> ''''" using assms(2) by (metis image_eqI list.set_map)
    define j where "j = job_of_report (rv_logs rv) i (se_uuid (rv_env rv) (st_tick (sv_db sv1))) req"
    have ag: "jb_agent_id j = i" using i by (simp add: j_def job_of_report_def)
    obtain res s2 where st: "store_job_report (rv_env rv) c j (sv_db sv1) = (res, s2)" by fastforce
    then have "sv_db sv' = s2" using assms(1) q Inr
      by (auto simp: report_job_rpc_def report_job_def Let_def j_def split: sum.splits prod.splits)
    with store_report_cases[OF st] jobs ag consider
        "st_jobs (sv_db sv') = st_jobs (sv_db sv)"
      | r where "st_jobs (sv_db sv') = st_jobs (sv_db sv) @ [r]" "jb_agent_id r = i"
      | planned where "planned \<in> set (st_jobs (sv_db sv))" "jb_agent_id planned = i"
          "jb_status planned = ''planned'' \<or> jb_status planned = ''running''"
          "st_jobs (sv_db sv') = map (\<lambda>x. if jb_id x = jb_id planned then complete_row j x else x) (st_jobs (sv_db sv))"
      by (auto simp: active_def)
    then show ?thesis
    proof cases
      case 1
      then show ?thesis by simp
    next
      case 2
      then show ?thesis using row(1,3,4) 2(2)[folded row(2)] by blast
    next
      case 3
      then show ?thesis using row(1,3,4) 3(2)[folded row(2)] by blast
    qed
  qed
qed

text \<open>
  C7. Who may open a stream: \<open>Connect\<close> admits an agent only when it is in the table, not
  rejected, and, once it is approved, when the first message carries its key. When it is
  refused, nothing changes: no registration, no event, no row.
\<close>

theorem streams_need_the_key:
  assumes "connect rv c (Inr msg) sv = (r, sv')"
  shows "(case r of
      Inl _ \<Rightarrow> same_rows sv sv'
    | Inr a \<Rightarrow> am_agent_id msg \<noteq> '''' \<and> decision (am_agent_id msg) (sv_db sv) = Some (ag_status a, ag_api_key a)
        \<and> ag_status a \<noteq> ''rejected'' \<and> (ag_status a = ''approved'' \<longrightarrow> ag_api_key a = Some (am_api_key msg)))"
proof -
  obtain q sv1 where q: "admit rv c (Inr msg) sv = (q, sv1)" by fastforce
  from admitD[OF q] assms q show ?thesis
    by (cases q) (auto simp: connect_def Let_def split: prod.splits)
qed

text \<open>
  C14. A decision is final: once an agent is approved or rejected, no sequence of operations
  of the database short of deleting the agent changes its status or its key, whatever fails
  and whatever decisions are asked for again.
\<close>

theorem decisions_are_final:
  assumes "decision i s = Some (st, key)" and "st \<noteq> ''pending''" and "\<forall>p \<in> set ops. snd p \<noteq> Op_delete_agent i"
  shows "decision i (db_run k cd v ops s) = Some (st, key)"
  using run_decision[OF assms(1) _ assms(3)] assms(2) by simp

text \<open>
  C40. Approving an agent that is not connected locks it out: its key is sent to nobody, and
  from then on every stream it opens with what it has is refused, whatever the server does
  to its database short of deleting the agent.
\<close>

theorem offline_approval_locks_out:
  assumes "fault_free (se_sql (rv_env rv))" and "decision i (sv_db sv) = Some (''pending'', None)"
    and "\<not> is_online i (sv_mgr sv)" and "am_agent_id msg = i" and "am_api_key msg \<noteq> apiKey"
    and "approve_agent_handler rv background (Inr apiKey) i sv = (r, sv1)"
    and "\<forall>p \<in> set ops. snd p \<noteq> Op_delete_agent i" and "sv_db sv2 = db_run k cd v ops (sv_db sv1)"
  shows "sv_mgr sv1 = sv_mgr sv \<and> isl (fst (connect rv c (Inr msg) sv2))"
proof -
  obtain a where a: "find_agent i (sv_db sv) = Some a" "ag_status a = ''pending''"
    using assms(2) by (auto simp: decision_def)
  then have mem: "a \<in> set (st_agents (sv_db sv))" "ag_id a = i" by (auto simp: find_agent_def find_Some_iff)
  define f where "f = (\<lambda>a :: agent_row. if ag_status a = ''pending'' then a\<lparr>ag_status := ''approved'', ag_api_key := Some apiKey,
      ag_updated_at := se_now (rv_env rv) (st_tick (sv_db sv))\<rparr> else a)"
  define s1 where "s1 = (set_agent i f (sv_db sv))\<lparr>st_tick := Suc (st_tick (sv_db sv))\<rparr>"
  have hit: "list_ex (\<lambda>a. ag_id a = i \<and> ag_status a = ''pending'') (st_agents (sv_db sv))"
    using mem a(2) by (auto simp: list_ex_iff)
  have ap: "approve_agent (rv_env rv) background i apiKey (sv_db sv) = (Inr (), s1)"
    using hit by (simp add: approve_agent_def decide_agent_def exec_rows_def statement_ok[OF assms(1)] s1_def f_def del: background_simp)
  have "find_agent i (set_agent i f (sv_db sv)) = Some (f a)"
    unfolding find_agent_def set_agent_def
    using find_map_same[of "\<lambda>x. ag_id x = i" "\<lambda>x. if ag_id x = i then f x else x" "st_agents (sv_db sv)"] a(1) mem(2)
    by (simp add: f_def find_agent_def)
  then have d1: "decision i s1 = Some (''approved'', Some apiKey)"
    unfolding s1_def decision_tick unfolding decision_def using a(2) by (simp add: f_def)
  obtain q sv3 where q: "agent_by_id rv background i (sv\<lparr>sv_db := s1\<rparr>) = (q, sv3)" by fastforce
  have h: "approve_agent_handler rv background (Inr apiKey) i sv = reload_agent rv background i (sv\<lparr>sv_db := s1\<rparr>)"
    using assms(3) by (simp add: approve_agent_handler_def on_store_def ap del: background_simp)
  then have sv1: "sv1 = sv3" using assms(6) q
    by (auto simp: reload_agent_def split: sum.splits option.splits)
  have same: "same_rows (sv\<lparr>sv_db := s1\<rparr>) sv1" using agent_by_idD[OF q] sv1 by simp
  then have mgr: "sv_mgr sv1 = sv_mgr sv" by (auto simp: same_rows_def)
  have "decision i (sv_db sv1) = Some (''approved'', Some apiKey)" using d1 same_rows_decision[OF same] by simp
  then have d2: "decision i (sv_db sv2) = Some (''approved'', Some apiKey)"
    using run_decision[of i "sv_db sv1" "(''approved'', Some apiKey)" ops] assms(7,8) by simp
  obtain r2 sv4 where ad: "admit rv c (Inr msg) sv2 = (r2, sv4)" by fastforce
  have "isl r2" using admitD[OF ad] d2 assms(4,5) by (cases r2) auto
  then have "isl (fst (connect rv c (Inr msg) sv2))" using ad by (cases r2) (auto simp: connect_def)
  with mgr show ?thesis by simp
qed


definition demo_services :: services where
  "demo_services = \<lparr>rv_env = demo_env, rv_push = demo_params, rv_logs = demo_codec, rv_events = \<lambda>_. Inr '''',
     rv_rfc3339 = \<lambda>_. ''''\<rparr>"

definition demo_server :: server where
  "demo_server = \<lparr>sv_db = empty_store\<lparr>st_agents := [demo_agent]\<rparr>, sv_mgr = mgr_new, sv_hub = new_hub, sv_snapshots = []\<rparr>"

definition approved_server :: server where
  "approved_server = demo_server\<lparr>sv_db := empty_store\<lparr>st_agents :=
     [demo_agent\<lparr>ag_status := ''approved'', ag_api_key := Some ''k''\<rparr>]\<rparr>\<rparr>"

definition hello :: "string \<Rightarrow> agent_message" where
  "hello key = \<lparr>am_agent_id = ''a'', am_api_key = key, am_payload = Config_ack 1 True ''''\<rparr>"

theorem reports_are_attributed_witness:
  "st_jobs (sv_db (snd (report_job_rpc demo_services background (Some [''x'']) ((example_report ''r'')\<lparr>rq_api_key := ''''\<rparr>)
     approved_server))) = []"
proof -
  obtain r sv' where r: "report_job_rpc demo_services background (Some [''x'']) ((example_report ''r'')\<lparr>rq_api_key := ''''\<rparr>)
     approved_server = (r, sv')" by fastforce
  from reports_are_attributed[OF r] have "st_jobs (sv_db sv') = []"
    by (simp add: approved_server_def demo_server_def demo_agent_def call_key_def message_key_def metadata_key_def empty_store_def)
  then show ?thesis by (simp add: r)
qed

theorem streams_need_the_key_witness:
  "isl (fst (connect demo_services background (Inr (hello ''x'')) approved_server))"
proof -
  obtain r sv' where r: "connect demo_services background (Inr (hello ''x'')) approved_server = (r, sv')" by fastforce
  have d: "decision ''a'' (sv_db approved_server) = Some (''approved'', Some ''k'')"
    by (simp add: approved_server_def demo_server_def demo_agent_def decision_def find_agent_def empty_store_def)
  have "isl r"
  proof (cases r)
    case (Inr a)
    with streams_need_the_key[OF r] d have "''approved'' = ag_status a" "ag_api_key a = Some ''k''"
      "ag_status a = ''approved'' \<longrightarrow> ag_api_key a = Some ''x''" by (simp_all add: hello_def)
    then show ?thesis by auto
  qed simp
  then show ?thesis unfolding r by simp
qed

theorem decisions_are_final_witness:
  "decision ''a'' (db_run demo_secrets demo_codec demo_env [(background, Op_reject ''a''), (background, Op_approve ''a'' ''k2'')]
     (sv_db approved_server)) = Some (''approved'', Some ''k'')"
  by (rule decisions_are_final) (auto simp: approved_server_def demo_server_def demo_agent_def decision_def find_agent_def empty_store_def)

theorem offline_approval_locks_out_witness:
  "\<exists>r sv1. approve_agent_handler demo_services background (Inr ''k'') ''a'' demo_server = (r, sv1)
    \<and> isl (fst (connect demo_services background (Inr (hello '''')) sv1))"
proof -
  obtain r sv1 where r: "approve_agent_handler demo_services background (Inr ''k'') ''a'' demo_server = (r, sv1)" by fastforce
  have "isl (fst (connect demo_services background (Inr (hello '''')) sv1))"
    by (rule conjunct2[OF offline_approval_locks_out[where ops = "[]" and k = demo_secrets and cd = demo_codec and v = demo_env, OF _ _ _ _ _ r]])
      (auto simp: demo_services_def demo_env_def hello_def demo_server_def demo_agent_def decision_def find_agent_def empty_store_def
        is_online_def mgr_new_def)
  with r show ?thesis by blast
qed

end
