(* ===== verification/CatalogApi.thy ===== *)
theory CatalogApi
  imports AgentLife ShellQuote
begin

text \<open>
  The HTTP handlers for repositories, plans, hooks, scripts, settings and jobs
  (server/internal/api/repositories.go, plans.go, hooks.go, scripts.go, settings.go, jobs.go and
  the checks of router.go). A body that does not decode is \<open>Bad_body\<close> or \<open>Empty_body\<close>; pushes
  started in goroutines run at once, in the order the code starts them.
\<close>

section \<open>Checks\<close>

definition is_valid_cron_schedule :: "string \<Rightarrow> bool" where
  "is_valid_cron_schedule s = (length (split_fields s) = 5 \<or> length (split_fields s) = 6)"

definition valid_hook_events :: "string list" where
  "valid_hook_events = [''pre_backup'', ''post_backup'', ''on_success'', ''on_failure'', ''pre_restore'', ''post_restore'',
     ''pre_forget'', ''post_forget'']"

definition quoted :: "string \<Rightarrow> string" where
  "quoted s = squote # s @ [squote]"

definition valid_repo_scopes :: "string list" where
  "valid_repo_scopes = [''global'', ''local'']"

section \<open>Repositories\<close>

record repository_response =
  rs_id :: string
  rs_name :: string
  rs_scope :: string
  rs_agent_id :: "string option"
  rs_type :: string
  rs_path :: string
  rs_created_at :: int
  rs_updated_at :: int

definition to_repository_response :: "repository_row \<Rightarrow> repository_response" where
  "to_repository_response r = \<lparr>rs_id = ry_id r, rs_name = ry_name r, rs_scope = ry_scope r, rs_agent_id = ry_agent_id r,
     rs_type = ry_type r, rs_path = ry_path r, rs_created_at = ry_created_at r, rs_updated_at = ry_updated_at r\<rparr>"

definition list_repositories_handler ::
  "services \<Rightarrow> ctx \<Rightarrow> string \<Rightarrow> string \<Rightarrow> server \<Rightarrow> repository_response list reply \<times> server" where
  "list_repositories_handler rv c scope agentID sv =
    (case on_store (list_repositories (rv_secrets rv) (rv_env rv) c scope agentID (sv_db sv)) sv of
       (Inl er, sv1) \<Rightarrow> (Error_reply 500 (error_text er), sv1)
     | (Inr rs, sv1) \<Rightarrow> (Reply 200 (map to_repository_response rs), sv1))"

definition create_repository_handler ::
  "services \<Rightarrow> ctx \<Rightarrow> repository_row body \<Rightarrow> server \<Rightarrow> repository_response reply \<times> server" where
  "create_repository_handler rv c input sv =
    (case input of
       Decoded repo \<Rightarrow>
         (if ry_name repo = '''' \<or> ry_scope repo = '''' \<or> ry_type repo = '''' \<or> ry_path repo = '''' \<or> ry_password repo = ''''
          then (Error_reply 400 ''name, scope, type, path, and password are required'', sv)
          else if ry_scope repo \<notin> set valid_repo_scopes
          then (Error_reply 400 (''scope must be '' @ quoted ''global'' @ '' or '' @ quoted ''local''), sv)
          else if ry_scope repo = ''local'' \<and> ry_agent_id repo = None
          then (Error_reply 400 ''agent_id is required for local-scoped repositories'', sv)
          else case on_store (create_repository (rv_secrets rv) (rv_env rv) c repo (sv_db sv)) sv of
            (Inl er, sv1) \<Rightarrow> (Error_reply 500 (error_text er), sv1)
          | (Inr r, sv1) \<Rightarrow>
            (Reply 201 (to_repository_response r),
             (if ry_scope r = ''local'' then (case ry_agent_id r of None \<Rightarrow> sv1 | Some i \<Rightarrow> push_to rv i sv1) else sv1)))
     | _ \<Rightarrow> (Error_reply 400 ''invalid request body'', sv))"

definition get_repository_handler ::
  "services \<Rightarrow> ctx \<Rightarrow> string \<Rightarrow> server \<Rightarrow> repository_response reply \<times> server" where
  "get_repository_handler rv c i sv =
    (case on_store (get_repository (rv_secrets rv) (rv_env rv) c i (sv_db sv)) sv of
       (Inl er, sv1) \<Rightarrow> (Error_reply 500 (error_text er), sv1)
     | (Inr None, sv1) \<Rightarrow> (Error_reply 404 ''repository not found'', sv1)
     | (Inr (Some r), sv1) \<Rightarrow> (Reply 200 (to_repository_response r), sv1))"

definition push_to_each :: "services \<Rightarrow> string list \<Rightarrow> server \<Rightarrow> server" where
  "push_to_each rv ids sv = fold (push_to rv) ids sv"

definition push_to_users_of_repo :: "services \<Rightarrow> string \<Rightarrow> server \<Rightarrow> server" where
  "push_to_users_of_repo rv repoID sv =
    (case on_store (agent_ids_using_repository (rv_env rv) background repoID (sv_db sv)) sv of
       (Inl _, sv1) \<Rightarrow> sv1
     | (Inr ids, sv1) \<Rightarrow> push_to_each rv ids sv1)"

text \<open>A blank password in an update keeps the stored one, which is read first.\<close>

definition kept_password ::
  "services \<Rightarrow> ctx \<Rightarrow> repository_row \<Rightarrow> server \<Rightarrow> (nat \<times> string) option \<times> string \<times> server" where
  "kept_password rv c input sv =
    (if ry_password input \<noteq> '''' then (None, ry_password input, sv)
     else case on_store (get_repository (rv_secrets rv) (rv_env rv) c (ry_id input) (sv_db sv)) sv of
       (Inl er, sv1) \<Rightarrow> (Some (500, error_text er), '''', sv1)
     | (Inr None, sv1) \<Rightarrow> (Some (404, ''repository not found''), '''', sv1)
     | (Inr (Some r), sv1) \<Rightarrow> (None, ry_password r, sv1))"

text \<open>The body has no timestamps, so those of the reply are zero but for the update.\<close>

definition update_repository_handler ::
  "services \<Rightarrow> ctx \<Rightarrow> string \<Rightarrow> repository_row body \<Rightarrow> server \<Rightarrow> repository_response reply \<times> server" where
  "update_repository_handler rv c i input sv =
    (case input of
       Decoded r0 \<Rightarrow>
         (case kept_password rv c (r0\<lparr>ry_id := i\<rparr>) sv of
            (Some (code, msg), _, sv1) \<Rightarrow> (Error_reply code msg, sv1)
          | (None, pw, sv1) \<Rightarrow>
            (let repo = r0\<lparr>ry_id := i, ry_password := pw, ry_created_at := 0,
                          ry_updated_at := se_now (rv_env rv) (st_tick (sv_db sv1))\<rparr>
             in case on_store (update_repository (rv_secrets rv) (rv_env rv) c repo (sv_db sv1)) sv1 of
                  (Inl er, sv2) \<Rightarrow> (Error_reply 404 (error_text er), sv2)
                | (Inr _, sv2) \<Rightarrow> (Reply 200 (to_repository_response repo), push_to_users_of_repo rv i sv2)))
     | _ \<Rightarrow> (Error_reply 400 ''invalid request body'', sv))"

definition delete_repository_handler :: "services \<Rightarrow> ctx \<Rightarrow> string \<Rightarrow> server \<Rightarrow> string reply \<times> server" where
  "delete_repository_handler rv c i sv =
    (case on_store (agent_ids_using_repository (rv_env rv) c i (sv_db sv)) sv of
       (found, sv1) \<Rightarrow>
         (let ids = (case found of Inl _ \<Rightarrow> [] | Inr ids \<Rightarrow> ids)
          in case on_store (delete_repository (rv_env rv) c i (sv_db sv1)) sv1 of
               (Inl er, sv2) \<Rightarrow> (Error_reply 404 (error_text er), sv2)
             | (Inr _, sv2) \<Rightarrow> (Reply 200 ''deleted'', push_to_each rv ids sv2)))"

section \<open>Plans\<close>

definition list_plans_handler :: "services \<Rightarrow> ctx \<Rightarrow> string \<Rightarrow> server \<Rightarrow> plan_row list reply \<times> server" where
  "list_plans_handler rv c agentID sv =
    (case on_store (list_plans (rv_env rv) c agentID (sv_db sv)) sv of
       (Inl er, sv1) \<Rightarrow> (Error_reply 500 (error_text er), sv1)
     | (Inr ps, sv1) \<Rightarrow> (Reply 200 ps, sv1))"

definition create_plan_handler :: "services \<Rightarrow> ctx \<Rightarrow> plan_row body \<Rightarrow> server \<Rightarrow> plan_row reply \<times> server" where
  "create_plan_handler rv c input sv =
    (case input of
       Decoded p \<Rightarrow>
         (if pr_name p = '''' \<or> pr_agent_id p = '''' \<or> pr_paths p = [] \<or> pr_schedule p = ''''
          then (Error_reply 400 ''name, agent_id, paths, and schedule are required'', sv)
          else if \<not> is_valid_cron_schedule (pr_schedule p)
          then (Error_reply 400 ''schedule must be a valid cron expression (5 or 6 fields)'', sv)
          else if pr_repository_ids p = [] then (Error_reply 400 ''at least one repository_id is required'', sv)
          else case on_store (create_plan (rv_env rv) c p (sv_db sv)) sv of
            (Inl er, sv1) \<Rightarrow> (Error_reply 500 (error_text er), sv1)
          | (Inr p', sv1) \<Rightarrow> (Reply 201 p', push_to rv (pr_agent_id p') sv1))
     | _ \<Rightarrow> (Error_reply 400 ''invalid request body'', sv))"

definition get_plan_handler :: "services \<Rightarrow> ctx \<Rightarrow> string \<Rightarrow> server \<Rightarrow> plan_row reply \<times> server" where
  "get_plan_handler rv c i sv =
    (case on_store (get_plan (rv_env rv) c i (sv_db sv)) sv of
       (Inl er, sv1) \<Rightarrow> (Error_reply 500 (error_text er), sv1)
     | (Inr None, sv1) \<Rightarrow> (Error_reply 404 ''plan not found'', sv1)
     | (Inr (Some p), sv1) \<Rightarrow> (Reply 200 p, sv1))"

definition update_plan_handler :: "services \<Rightarrow> ctx \<Rightarrow> string \<Rightarrow> plan_row body \<Rightarrow> server \<Rightarrow> plan_row reply \<times> server" where
  "update_plan_handler rv c i input sv =
    (case input of
       Decoded p0 \<Rightarrow>
         (let p = p0\<lparr>pr_id := i, pr_updated_at := se_now (rv_env rv) (st_tick (sv_db sv))\<rparr>
          in case on_store (update_plan (rv_env rv) c p (sv_db sv)) sv of
               (Inl er, sv1) \<Rightarrow> (Error_reply 404 (error_text er), sv1)
             | (Inr _, sv1) \<Rightarrow> (Reply 200 p, push_to rv (pr_agent_id p) sv1))
     | _ \<Rightarrow> (Error_reply 400 ''invalid request body'', sv))"

definition delete_plan_handler :: "services \<Rightarrow> ctx \<Rightarrow> string \<Rightarrow> server \<Rightarrow> string reply \<times> server" where
  "delete_plan_handler rv c i sv =
    (case on_store (get_plan (rv_env rv) c i (sv_db sv)) sv of
       (Inl er, sv1) \<Rightarrow> (Error_reply 500 (error_text er), sv1)
     | (Inr None, sv1) \<Rightarrow> (Error_reply 404 ''plan not found'', sv1)
     | (Inr (Some p), sv1) \<Rightarrow>
       (case on_store (delete_plan (rv_env rv) c i (sv_db sv1)) sv1 of
          (Inl er, sv2) \<Rightarrow> (Error_reply 500 (error_text er), sv2)
        | (Inr _, sv2) \<Rightarrow> (Reply 200 ''deleted'', push_to rv (pr_agent_id p) sv2)))"

section \<open>Hooks\<close>

text \<open>The plan is read with the context of the request, the push has a context of its own.\<close>

definition push_config_for_plan :: "services \<Rightarrow> ctx \<Rightarrow> string \<Rightarrow> server \<Rightarrow> server" where
  "push_config_for_plan rv c planID sv =
    (case on_store (get_plan (rv_env rv) c planID (sv_db sv)) sv of
       (Inr (Some p), sv1) \<Rightarrow> push_to rv (pr_agent_id p) sv1
     | (_, sv1) \<Rightarrow> sv1)"

definition list_hooks_handler :: "services \<Rightarrow> ctx \<Rightarrow> string \<Rightarrow> server \<Rightarrow> plan_hook list reply \<times> server" where
  "list_hooks_handler rv c planID sv =
    (case on_store (list_hooks (rv_env rv) c planID (sv_db sv)) sv of
       (Inl er, sv1) \<Rightarrow> (Error_reply 500 (error_text er), sv1)
     | (Inr hs, sv1) \<Rightarrow> (Reply 200 hs, sv1))"

definition bad_event :: string where
  "bad_event = ''on_event must be one of: pre_backup, post_backup, on_success, on_failure, '' @
     ''pre_restore, post_restore, pre_forget, post_forget''"

definition create_hook_handler ::
  "services \<Rightarrow> ctx \<Rightarrow> string \<Rightarrow> plan_hook body \<Rightarrow> server \<Rightarrow> plan_hook reply \<times> server" where
  "create_hook_handler rv c planID input sv =
    (case input of
       Decoded h0 \<Rightarrow>
         (let h = h0\<lparr>ph_plan_id := planID\<rparr>
          in if ph_on_event h = '''' then (Error_reply 400 ''on_event is required'', sv)
             else if ph_on_event h \<notin> set valid_hook_events then (Error_reply 400 bad_event, sv)
             else case on_store (create_hook (rv_env rv) c h (sv_db sv)) sv of
               (Inl er, sv1) \<Rightarrow> (Error_reply 500 (error_text er), sv1)
             | (Inr h', sv1) \<Rightarrow> (Reply 201 h', push_config_for_plan rv c planID sv1))
     | _ \<Rightarrow> (Error_reply 400 ''invalid request body'', sv))"

definition update_hook_handler ::
  "services \<Rightarrow> ctx \<Rightarrow> string \<Rightarrow> string \<Rightarrow> plan_hook body \<Rightarrow> server \<Rightarrow> plan_hook reply \<times> server" where
  "update_hook_handler rv c planID hookID input sv =
    (case input of
       Decoded h0 \<Rightarrow>
         (let h = h0\<lparr>ph_id := hookID, ph_plan_id := planID\<rparr>
          in if ph_on_event h \<noteq> '''' \<and> ph_on_event h \<notin> set valid_hook_events then (Error_reply 400 bad_event, sv)
             else let h' = h\<lparr>ph_updated_at := se_now (rv_env rv) (st_tick (sv_db sv))\<rparr>
             in case on_store (update_hook (rv_env rv) c h (sv_db sv)) sv of
               (Inl er, sv1) \<Rightarrow> (Error_reply 404 (error_text er), sv1)
             | (Inr _, sv1) \<Rightarrow> (Reply 200 h', push_config_for_plan rv c planID sv1))
     | _ \<Rightarrow> (Error_reply 400 ''invalid request body'', sv))"

definition delete_hook_handler :: "services \<Rightarrow> ctx \<Rightarrow> string \<Rightarrow> string \<Rightarrow> server \<Rightarrow> string reply \<times> server" where
  "delete_hook_handler rv c planID hookID sv =
    (case on_store (delete_hook (rv_env rv) c hookID (sv_db sv)) sv of
       (Inl er, sv1) \<Rightarrow> (Error_reply 404 (error_text er), sv1)
     | (Inr _, sv1) \<Rightarrow> (Reply 200 ''deleted'', push_config_for_plan rv c planID sv1))"

definition reorder_hooks_handler ::
  "services \<Rightarrow> ctx \<Rightarrow> string \<Rightarrow> string list body \<Rightarrow> server \<Rightarrow> plan_hook list reply \<times> server" where
  "reorder_hooks_handler rv c planID input sv =
    (case input of
       Decoded hookIDs \<Rightarrow>
         (if hookIDs = [] then (Error_reply 400 ''hook_ids is required'', sv)
          else case on_store (reorder_hooks (rv_env rv) c planID hookIDs (sv_db sv)) sv of
            (Inl er, sv1) \<Rightarrow> (Error_reply 400 (error_text er), sv1)
          | (Inr _, sv1) \<Rightarrow>
            (let sv2 = push_config_for_plan rv c planID sv1
             in case on_store (list_hooks (rv_env rv) c planID (sv_db sv2)) sv2 of
                  (Inl _, sv3) \<Rightarrow> (Reply 200 [], sv3)
                | (Inr hs, sv3) \<Rightarrow> (Reply 200 hs, sv3)))
     | _ \<Rightarrow> (Error_reply 400 ''invalid request body'', sv))"

section \<open>Scripts\<close>

definition list_scripts_handler :: "services \<Rightarrow> ctx \<Rightarrow> server \<Rightarrow> script_row list reply \<times> server" where
  "list_scripts_handler rv c sv =
    (case on_store (list_scripts (rv_env rv) c (sv_db sv)) sv of
       (Inl er, sv1) \<Rightarrow> (Error_reply 500 (error_text er), sv1)
     | (Inr xs, sv1) \<Rightarrow> (Reply 200 xs, sv1))"

definition create_script_handler :: "services \<Rightarrow> ctx \<Rightarrow> script_row body \<Rightarrow> server \<Rightarrow> script_row reply \<times> server" where
  "create_script_handler rv c input sv =
    (case input of
       Decoded x \<Rightarrow>
         (if sx_name x = '''' \<or> sx_command x = '''' then (Error_reply 400 ''name and command are required'', sv)
          else case on_store (create_script (rv_env rv) c x (sv_db sv)) sv of
            (Inl er, sv1) \<Rightarrow> (Error_reply 500 (error_text er), sv1)
          | (Inr x', sv1) \<Rightarrow> (Reply 201 x', sv1))
     | _ \<Rightarrow> (Error_reply 400 ''invalid request body'', sv))"

definition get_script_handler :: "services \<Rightarrow> ctx \<Rightarrow> string \<Rightarrow> server \<Rightarrow> script_row reply \<times> server" where
  "get_script_handler rv c i sv =
    (case on_store (get_script (rv_env rv) c i (sv_db sv)) sv of
       (Inl er, sv1) \<Rightarrow> (Error_reply 500 (error_text er), sv1)
     | (Inr None, sv1) \<Rightarrow> (Error_reply 404 ''script not found'', sv1)
     | (Inr (Some x), sv1) \<Rightarrow> (Reply 200 x, sv1))"

definition push_to_users_of_script :: "services \<Rightarrow> string \<Rightarrow> server \<Rightarrow> server" where
  "push_to_users_of_script rv scriptID sv =
    (case on_store (agent_ids_using_script (rv_env rv) background scriptID (sv_db sv)) sv of
       (Inl _, sv1) \<Rightarrow> sv1
     | (Inr ids, sv1) \<Rightarrow> push_to_each rv ids sv1)"

definition update_script_handler ::
  "services \<Rightarrow> ctx \<Rightarrow> string \<Rightarrow> script_row body \<Rightarrow> server \<Rightarrow> script_row reply \<times> server" where
  "update_script_handler rv c i input sv =
    (case input of
       Decoded x0 \<Rightarrow>
         (let x = x0\<lparr>sx_id := i, sx_updated_at := se_now (rv_env rv) (st_tick (sv_db sv))\<rparr>
          in case on_store (update_script (rv_env rv) c x (sv_db sv)) sv of
               (Inl er, sv1) \<Rightarrow> (Error_reply 404 (error_text er), sv1)
             | (Inr _, sv1) \<Rightarrow> (Reply 200 x, push_to_users_of_script rv i sv1))
     | _ \<Rightarrow> (Error_reply 400 ''invalid request body'', sv))"

definition delete_script_handler :: "services \<Rightarrow> ctx \<Rightarrow> string \<Rightarrow> server \<Rightarrow> string reply \<times> server" where
  "delete_script_handler rv c i sv =
    (case on_store (delete_script (rv_env rv) c i (sv_db sv)) sv of
       (Inl er, sv1) \<Rightarrow>
         (Error_reply (if contains (error_text er) ''referenced by'' then 409 else 404) (error_text er), sv1)
     | (Inr _, sv1) \<Rightarrow> (Reply 200 ''deleted'', sv1))"

section \<open>Settings\<close>

text \<open>
  The reply of the update is the list of errors or the settings as they now are. The map is
  iterated twice, by \<open>Validate\<close> in the order of the body and by \<open>Apply\<close> in the order
  \<open>reorder\<close> gives it. A body of \<open>null\<close> decodes to the empty map.
\<close>

datatype settings_reply = Errors "field_error list" | Resolved "(string \<times> string) list"

definition push_to_all :: "services \<Rightarrow> server \<Rightarrow> server" where
  "push_to_all rv sv =
    (case push_config_to_all_agents (rv_push rv) (rv_env rv) background (sv_db sv, sv_mgr sv) of
       (s, m) \<Rightarrow> sv\<lparr>sv_db := s, sv_mgr := m\<rparr>)"

definition get_settings_handler :: "services \<Rightarrow> ctx \<Rightarrow> server \<Rightarrow> settings_reply reply \<times> server" where
  "get_settings_handler rv c sv =
    (case on_store (load_resolved (rv_codec rv) (rv_env rv) c (sv_db sv)) sv of
       (Inl er, sv1) \<Rightarrow> (Error_reply 500 (error_text er), sv1)
     | (Inr out, sv1) \<Rightarrow> (Reply 200 (Resolved out), sv1))"

definition update_settings_handler ::
  "services \<Rightarrow> ((string \<times> string) list \<Rightarrow> (string \<times> string) list) \<Rightarrow> ctx \<Rightarrow> (string \<times> string) list body \<Rightarrow> server
    \<Rightarrow> settings_reply reply \<times> server" where
  "update_settings_handler rv reorder c input sv =
    (case input of
       Decoded kvs \<Rightarrow>
         (let errs = validate_input (rv_codec rv) kvs
          in if errs \<noteq> [] then (Reply 400 (Errors errs), sv)
             else case on_store (apply_settings (rv_env rv) c (reorder kvs) (sv_db sv)) sv of
               (Inl er, sv1) \<Rightarrow> (Error_reply 500 (error_text er), sv1)
             | (Inr _, sv1) \<Rightarrow> get_settings_handler rv c (push_to_all rv sv1))
     | _ \<Rightarrow> (Error_reply 400 ''invalid request body'', sv))"

section \<open>Jobs\<close>

definition page_limit :: "string \<Rightarrow> int" where
  "page_limit v = min 200 (case atoi v of Some n \<Rightarrow> if n > 0 then n else 50 | None \<Rightarrow> 50)"

definition page_offset :: "string \<Rightarrow> int" where
  "page_offset v = (case atoi v of Some n \<Rightarrow> if n \<ge> 0 then n else 0 | None \<Rightarrow> 0)"

definition list_jobs_handler ::
  "services \<Rightarrow> ctx \<Rightarrow> string \<Rightarrow> string \<Rightarrow> string \<Rightarrow> string \<Rightarrow> string \<Rightarrow> server \<Rightarrow> job list reply \<times> server" where
  "list_jobs_handler rv c agentID planID status limit off sv =
    (case on_store (list_jobs (rv_env rv) c agentID planID status (nat (page_limit limit)) (nat (page_offset off)) (sv_db sv)) sv of
       (Inl er, sv1) \<Rightarrow> (Error_reply 500 (error_text er), sv1)
     | (Inr js, sv1) \<Rightarrow> (Reply 200 js, sv1))"

definition get_job_handler :: "services \<Rightarrow> ctx \<Rightarrow> string \<Rightarrow> server \<Rightarrow> (job \<times> db_log list) reply \<times> server" where
  "get_job_handler rv c i sv =
    (case on_store (get_job (rv_logs rv) (rv_rfc3339 rv) (rv_env rv) c i (sv_db sv)) sv of
       (Inl er, sv1) \<Rightarrow> (Error_reply 500 (error_text er), sv1)
     | (Inr None, sv1) \<Rightarrow> (Error_reply 404 ''job not found'', sv1)
     | (Inr (Some j), sv1) \<Rightarrow> (Reply 200 j, sv1))"

end
