(* ===== verification/Paths.thy ===== *)
theory Paths
  imports GoStrings
begin

text \<open>
  Slash-separated paths as \<open>path.Clean\<close> of Go's standard library rewrites them (and
  \<open>filepath.Clean\<close> on Unix), which both the server and the agent apply to a path a user browses.
\<close>

section \<open>Splitting and cleaning\<close>

fun split_slash :: "string \<Rightarrow> string list" where
  "split_slash [] = [[]]"
| "split_slash (ch # s) =
    (if ch = CHR ''/'' then [] # split_slash s
     else (case split_slash s of [] \<Rightarrow> [[ch]] | w # ws \<Rightarrow> (ch # w) # ws))"

fun join_slash :: "string list \<Rightarrow> string" where
  "join_slash [] = []"
| "join_slash [w] = w"
| "join_slash (w # ws) = w @ CHR ''/'' # join_slash ws"

text \<open>
  The elements are taken in order: empty ones and \<open>.\<close> vanish, \<open>..\<close> takes back the last one,
  stays in front of a relative path and vanishes at the root.
\<close>

fun clean_elems :: "bool \<Rightarrow> string list \<Rightarrow> string list \<Rightarrow> string list" where
  "clean_elems rooted out [] = rev out"
| "clean_elems rooted out (e # es) =
    (if e = '''' \<or> e = ''.'' then clean_elems rooted out es
     else if e = ''..'' then
       (if out = [] then clean_elems rooted (if rooted then [] else [''..'']) es
        else if hd out = ''..'' then clean_elems rooted (''..'' # out) es
        else clean_elems rooted (tl out) es)
     else clean_elems rooted (e # out) es)"

definition is_rooted :: "string \<Rightarrow> bool" where
  "is_rooted s = has_prefix s ''/''"

definition path_clean :: "string \<Rightarrow> string" where
  "path_clean s =
    (let es = clean_elems (is_rooted s) [] (split_slash s)
     in if is_rooted s then CHR ''/'' # join_slash es
        else if es = [] then ''.'' else join_slash es)"

section \<open>Cleaned paths\<close>

definition plain_elem :: "string \<Rightarrow> bool" where
  "plain_elem e \<longleftrightarrow> e \<noteq> '''' \<and> e \<noteq> ''.'' \<and> e \<noteq> ''..'' \<and> CHR ''/'' \<notin> set e"

text \<open>The elements of a cleaned path: plain ones, after leading \<open>..\<close> when it is relative.\<close>

definition canon :: "bool \<Rightarrow> string list \<Rightarrow> bool" where
  "canon rooted es \<longleftrightarrow> (\<exists>n ps. es = replicate n ''..'' @ ps \<and> list_all plain_elem ps \<and> (rooted \<longrightarrow> n = 0))"

lemma split_not_empty [simp]: "split_slash s \<noteq> []"
  by (cases s) (auto split: list.splits)

lemma split_no_slash: "e \<in> set (split_slash s) \<Longrightarrow> CHR ''/'' \<notin> set e"
proof (induction s arbitrary: e)
  case (Cons ch s)
  obtain w ws where "split_slash s = w # ws" using split_not_empty list.exhaust by blast
  then show ?case using Cons.IH Cons.prems by (fastforce split: if_splits)
qed simp

lemma split_elem_append:
  "CHR ''/'' \<notin> set w \<Longrightarrow> split_slash (w @ CHR ''/'' # s) = w # split_slash s"
  by (induction w) auto

lemma split_elem: "CHR ''/'' \<notin> set w \<Longrightarrow> split_slash w = [w]"
  by (induction w) auto

lemma split_join: "es \<noteq> [] \<Longrightarrow> list_all (\<lambda>e. CHR ''/'' \<notin> set e) es \<Longrightarrow> split_slash (join_slash es) = es"
proof (induction es rule: join_slash.induct)
  case (2 w)
  then show ?case by (simp add: split_elem del: split_slash.simps)
next
  case (3 w v vs)
  have "CHR ''/'' \<notin> set w" "list_all (\<lambda>e. CHR ''/'' \<notin> set e) (v # vs)" using "3.prems" by simp_all
  then show ?case using "3.IH" by (simp add: split_elem_append del: split_slash.simps)
qed simp

lemma canon_no_slash: "canon r es \<Longrightarrow> list_all (\<lambda>e. CHR ''/'' \<notin> set e) es"
proof -
  assume "canon r es"
  then obtain n ps where "es = replicate n ''..'' @ ps" "list_all plain_elem ps" by (auto simp: canon_def)
  moreover have "list_all (\<lambda>e. CHR ''/'' \<notin> set e) ps"
    using calculation(2) by (rule list.pred_mono_strong) (simp add: plain_elem_def)
  moreover have "list_all (\<lambda>e. CHR ''/'' \<notin> set e) (replicate n ''..'')" by (induction n) simp_all
  ultimately show ?thesis by simp
qed

lemma canon_elem: "canon r es \<Longrightarrow> e \<in> set es \<Longrightarrow> e \<noteq> [] \<and> CHR ''/'' \<notin> set e"
proof -
  assume "canon r es" "e \<in> set es"
  then obtain n ps where "es = replicate n ''..'' @ ps" "list_all plain_elem ps" unfolding canon_def by blast
  then have "e = ''..'' \<or> plain_elem e" using \<open>e \<in> set es\<close> by (auto simp: list_all_iff)
  then show ?thesis by (auto simp: plain_elem_def)
qed

lemma canon_rev_cases:
  assumes "canon r (rev out)"
  shows "out = [] \<or> \<not> r \<and> out = replicate (length out) ''..'' \<or> (\<exists>e rest. out = e # rest \<and> plain_elem e \<and> canon r (rev rest))"
proof -
  from assms obtain n ps where out: "rev out = replicate n ''..'' @ ps" "list_all plain_elem ps" "r \<longrightarrow> n = 0"
    by (auto simp: canon_def)
  show ?thesis
  proof (cases ps rule: rev_cases)
    case Nil
    then have "out = replicate n ''..''" using out(1) by (metis append_Nil2 rev_replicate rev_rev_ident)
    then show ?thesis using out(3) by (cases "n = 0") auto
  next
    case (snoc qs e)
    then have "out = e # rev (replicate n ''..'' @ qs)" using out(1)
      by (metis append.assoc rev_append rev_rev_ident rev_singleton_conv append_Cons append_Nil)
    moreover have "canon r (rev (rev (replicate n ''..'' @ qs)))" using snoc out unfolding canon_def rev_rev_ident
      by (intro exI[of _ n] exI[of _ qs]) simp
    ultimately show ?thesis using snoc out(2) by auto
  qed
qed

lemma canon_snoc: "canon r es \<Longrightarrow> plain_elem e \<Longrightarrow> canon r (es @ [e])"
proof -
  assume "canon r es" and e: "plain_elem e"
  then obtain n ps where "es = replicate n ''..'' @ ps" "list_all plain_elem ps" "r \<longrightarrow> n = 0"
    by (auto simp: canon_def)
  then show ?thesis unfolding canon_def using e by (intro exI[of _ n] exI[of _ "ps @ [e]"]) simp
qed

lemma canon_dots: "\<not> r \<Longrightarrow> canon r (replicate n ''..'')"
  unfolding canon_def by (intro exI[of _ n] exI[of _ "[]"]) simp

lemma replicate_rev_snoc: "rev (replicate n x) @ [x] = replicate (Suc n) x"
  by (simp add: replicate_append_same)

lemma clean_canon:
  "canon r (rev out) \<Longrightarrow> list_all (\<lambda>e. CHR ''/'' \<notin> set e) es \<Longrightarrow> canon r (clean_elems r out es)"
proof (induction r out es rule: clean_elems.induct)
  case (2 r out e es)
  consider "e = '''' \<or> e = ''.''" | "e = ''..''" "out = []" | "e = ''..''" "out \<noteq> []" "hd out = ''..''"
    | "e = ''..''" "out \<noteq> []" "hd out \<noteq> ''..''" | "plain_elem e"
    using 2(7) by (auto simp: plain_elem_def)
  then show ?case
  proof cases
    case 3
    from canon_rev_cases[OF 2(6)] have "\<not> r \<and> out = replicate (length out) ''..''"
      using 3 by (auto simp: plain_elem_def)
    then have "canon r (rev (''..'' # out))" by (metis canon_dots replicate_Suc rev_replicate)
    then show ?thesis using 2 3 by simp
  next
    case 4
    from canon_rev_cases[OF 2(6)] have "canon r (rev (tl out))"
      using 4 by (auto simp: hd_replicate neq_Nil_conv)
    then show ?thesis using 2 4 by simp
  next
    case 2
    then show ?thesis using "2.prems" "2.IH" canon_dots[of r 1] by (cases r) auto
  next
    case 5
    then show ?thesis using 2 canon_snoc[OF 2(6) 5] by (auto simp: plain_elem_def)
  qed (use 2 in auto)
qed simp

lemma clean_plain: "list_all plain_elem ps \<Longrightarrow> clean_elems r out ps = rev out @ ps"
  by (induction ps arbitrary: out) (simp_all add: plain_elem_def)

lemma clean_leading: "clean_elems False (replicate k ''..'') (replicate n ''..'' @ ps) = clean_elems False (replicate (n + k) ''..'') ps"
proof (induction n arbitrary: k)
  case (Suc n)
  have "clean_elems False (replicate k ''..'') (replicate (Suc n) ''..'' @ ps)
      = clean_elems False (replicate (Suc k) ''..'') (replicate n ''..'' @ ps)"
    by (cases k) simp_all
  then show ?case by (simp only: Suc.IH add_Suc add_Suc_right)
qed simp

lemma clean_id: "canon r es \<Longrightarrow> clean_elems r [] es = es"
proof -
  assume "canon r es"
  then obtain n ps where es: "es = replicate n ''..'' @ ps" "list_all plain_elem ps" "r \<longrightarrow> n = 0"
    by (auto simp: canon_def)
  show ?thesis
  proof (cases r)
    case False
    then show ?thesis using clean_leading[of 0 n ps] es(1,2) by (simp add: clean_plain)
  qed (use es in \<open>simp add: clean_plain\<close>)
qed

lemma canon_path: "canon r (clean_elems r [] (split_slash s))"
  by (rule clean_canon) (simp_all add: canon_def list_all_iff split_no_slash)

lemma canon_rooted: "canon True es \<longleftrightarrow> list_all plain_elem es"
  by (auto simp: canon_def)

lemma is_rooted_simps [simp]: "is_rooted (CHR ''/'' # s)" "\<not> is_rooted []"
  by (simp_all add: is_rooted_def)

lemma path_clean_rooted: "is_rooted (path_clean s) \<longleftrightarrow> is_rooted s"
proof (cases "is_rooted s")
  case False
  let ?es = "clean_elems False [] (split_slash s)"
  have "canon False ?es" by (rule canon_path)
  then have "?es \<noteq> [] \<Longrightarrow> hd ?es \<noteq> [] \<and> CHR ''/'' \<notin> set (hd ?es)"
    using canon_elem list.set_sel(1) by blast
  moreover have "hd es \<noteq> [] \<Longrightarrow> CHR ''/'' \<notin> set (hd es) \<Longrightarrow> \<not> is_rooted (join_slash es)" if "es \<noteq> []" for es
    using that by (cases es rule: join_slash.cases) (auto simp: is_rooted_def has_prefix_def neq_Nil_conv)
  ultimately have "?es \<noteq> [] \<Longrightarrow> \<not> is_rooted (join_slash ?es)" by blast
  then show ?thesis using False by (simp add: path_clean_def Let_def) (simp add: is_rooted_def)
qed (simp add: path_clean_def)

text \<open>A cleaned absolute path is a slash and plain elements between slashes.\<close>

definition abs_path :: "string list \<Rightarrow> string" where
  "abs_path es = CHR ''/'' # join_slash es"

lemma path_clean_abs: "is_rooted s \<Longrightarrow> \<exists>es. list_all plain_elem es \<and> path_clean s = abs_path es"
  using canon_path[of True s] by (auto simp: path_clean_def abs_path_def canon_rooted)

lemma path_clean_id: "list_all plain_elem es \<Longrightarrow> path_clean (abs_path es) = abs_path es"
proof (cases "es = []")
  case False
  assume "list_all plain_elem es"
  then have "canon True es" by (simp add: canon_rooted)
  then show ?thesis using False split_join[OF False canon_no_slash]
    by (simp add: path_clean_def abs_path_def clean_id)
qed (simp add: path_clean_def abs_path_def)

lemma abs_path_inj: "list_all plain_elem es \<Longrightarrow> list_all plain_elem fs \<Longrightarrow> abs_path es = abs_path fs \<longleftrightarrow> es = fs"
proof
  assume es: "list_all plain_elem es" "list_all plain_elem fs" and "abs_path es = abs_path fs"
  then have j: "join_slash es = join_slash fs" by (simp add: abs_path_def)
  have "split_slash (join_slash gs) = (if gs = [] then [[]] else gs)" if "list_all plain_elem gs" for gs
    using that split_join[of gs] canon_no_slash[of True gs] by (simp add: canon_rooted)
  then have "(if es = [] then [[]] else es) = (if fs = [] then [[]] else fs)" using es j by metis
  moreover have "\<not> list_all plain_elem [[]]" by (simp add: plain_elem_def)
  ultimately show "es = fs" using es by (metis (no_types))
qed simp

end
