(* ===== verification/CommandApi.thy ===== *)
theory CommandApi
  imports CatalogApi Paths
begin

text \<open>
  The HTTP handlers that send a command to an agent and wait for its result
  (server/internal/api/snapshots.go, filesystem.go and the trigger of plans.go), through the
  interface \<open>AgentCommander\<close> of router.go, and the CORS middleware.
\<close>

section \<open>Calling an agent\<close>

text \<open>
  A handler answers at once, or its goroutine is inside \<open>SendCommand\<close>: then it is a thread of
  the registry, named by its index, and \<open>finish\<close> makes the answer when that thread returned.
\<close>

datatype 'b handling = Answered "'b reply" | In_call nat

definition start_call :: "string \<Rightarrow> string \<Rightarrow> server_command \<Rightarrow> server \<Rightarrow> 'b handling \<times> server" where
  "start_call agentID uuid cmd sv =
    (case send_command agentID uuid cmd (sv_mgr sv) of
       (t, m) \<Rightarrow> (In_call (length (mg_threads m)), sv\<lparr>sv_mgr := spawn t m\<rparr>))"

definition call_agent :: "string \<Rightarrow> string \<Rightarrow> command_action \<Rightarrow> server \<Rightarrow> 'b handling \<times> server" where
  "call_agent uuid agentID action sv =
    (if \<not> is_online agentID (sv_mgr sv) then (Answered (Error_reply 502 ''agent not connected''), sv)
     else start_call agentID '''' \<lparr>sc_command_id = uuid, sc_action = action\<rparr> sv)"

definition finish :: "(command_result result \<Rightarrow> 'b reply) \<Rightarrow> nat \<Rightarrow> server \<Rightarrow> 'b reply option" where
  "finish f i sv = (case mg_threads (sv_mgr sv) ! i of Returned _ res \<Rightarrow> Some (f res) | _ \<Rightarrow> None)"

text \<open>The data of a result is passed on as it came; no data is the empty list.\<close>

definition data_reply :: "command_result result \<Rightarrow> payload reply" where
  "data_reply res =
    (case res of
       Inl er \<Rightarrow> Error_reply 500 (error_text er)
     | Inr r \<Rightarrow> (if \<not> cr_success r then Error_reply 500 (cr_error r)
                else Reply 200 (if cr_data r = No_data then Entries_json [] else cr_data r)))"

definition outcome_reply :: "command_result result \<Rightarrow> (bool \<times> string) reply" where
  "outcome_reply res =
    (case res of
       Inl er \<Rightarrow> Error_reply 500 (error_text er)
     | Inr r \<Rightarrow> Reply 200 (cr_success r, cr_error r))"

section \<open>Snapshots and restores\<close>

definition list_snapshots_handler :: "string \<Rightarrow> string \<Rightarrow> string \<Rightarrow> server \<Rightarrow> payload handling \<times> server" where
  "list_snapshots_handler uuid agentID repoID sv =
    (if repoID = '''' then (Answered (Error_reply 400 ''repo query parameter is required''), sv)
     else call_agent uuid agentID (List_snapshots repoID) sv)"

record browse_input =
  bi_repository_id :: string
  bi_snapshot_id :: string
  bi_path :: string

definition browse_snapshot_handler :: "string \<Rightarrow> string \<Rightarrow> browse_input body \<Rightarrow> server \<Rightarrow> payload handling \<times> server" where
  "browse_snapshot_handler uuid agentID input sv =
    (case input of
       Decoded b \<Rightarrow> call_agent uuid agentID (Browse_snapshot (bi_repository_id b) (bi_snapshot_id b) (bi_path b)) sv
     | _ \<Rightarrow> (Answered (Error_reply 400 ''invalid request body''), sv))"

record restore_input =
  ri_repository_id :: string
  ri_snapshot_id :: string
  ri_paths :: "string list"
  ri_target :: string

definition trigger_restore_handler ::
  "string \<Rightarrow> string \<Rightarrow> restore_input body \<Rightarrow> server \<Rightarrow> (bool \<times> string) handling \<times> server" where
  "trigger_restore_handler uuid agentID input sv =
    (case input of
       Decoded b \<Rightarrow>
         call_agent uuid agentID (Trigger_restore (ri_repository_id b) (ri_snapshot_id b) (ri_paths b) (ri_target b)) sv
     | _ \<Rightarrow> (Answered (Error_reply 400 ''invalid request body''), sv))"

section \<open>The file browser\<close>

definition browse_filesystem_handler :: "string \<Rightarrow> string \<Rightarrow> string \<Rightarrow> server \<Rightarrow> payload handling \<times> server" where
  "browse_filesystem_handler uuid agentID path sv =
    (let fsPath = path_clean (if path = '''' then ''/'' else path)
     in if \<not> has_prefix fsPath ''/'' then (Answered (Error_reply 400 ''path must be absolute''), sv)
        else if length fsPath > 4096 then (Answered (Error_reply 400 ''path too long''), sv)
        else call_agent uuid agentID (Browse_filesystem fsPath) sv)"

section \<open>Triggering a plan\<close>

text \<open>
  The planned job is in the history before the command is sent. The payload of the event is
  the id of the job here; \<open>uuid\<close> is the id \<open>SendCommand\<close> gives the command.
\<close>

definition trigger_plan_handler ::
  "services \<Rightarrow> ctx \<Rightarrow> string \<Rightarrow> string \<Rightarrow> server \<Rightarrow> string \<times> (bool \<times> string \<times> string) handling \<times> server" where
  "trigger_plan_handler rv c uuid planID sv =
    (case on_store (get_plan (rv_env rv) c planID (sv_db sv)) sv of
       (Inl er, sv1) \<Rightarrow> ('''', Answered (Error_reply 500 (error_text er)), sv1)
     | (Inr None, sv1) \<Rightarrow> ('''', Answered (Error_reply 404 ''plan not found''), sv1)
     | (Inr (Some p), sv1) \<Rightarrow>
       (if \<not> is_online (pr_agent_id p) (sv_mgr sv1) then ('''', Answered (Error_reply 502 ''agent not connected''), sv1)
        else case on_store (create_planned_job (rv_env rv) c (pr_agent_id p) planID (pr_name p) ''manual'' (sv_db sv1)) sv1 of
          (Inl er, sv2) \<Rightarrow> ('''', Answered (Error_reply 500 (error_text er)), sv2)
        | (Inr j, sv2) \<Rightarrow>
          (jb_id j, start_call (pr_agent_id p) uuid \<lparr>sc_command_id = '''', sc_action = Trigger_backup planID\<rparr>
             (emit_event rv \<lparr>ev_type = ''job.created'', ev_payload = [(''id'', jb_id j)]\<rparr> sv2))))"

definition trigger_reply :: "string \<Rightarrow> command_result result \<Rightarrow> (bool \<times> string \<times> string) reply" where
  "trigger_reply jobID res =
    (case res of
       Inl er \<Rightarrow> Error_reply 500 (error_text er)
     | Inr r \<Rightarrow> Reply 200 (cr_success r, cr_error r, jobID))"

section \<open>Cross-origin requests\<close>

text \<open>The headers the middleware adds, and the status it answers with, or none when it passes the request on.\<close>

definition cors_headers :: "string list \<Rightarrow> string \<Rightarrow> (string \<times> string) list" where
  "cors_headers allowed origin =
    (if origin \<noteq> '''' \<and> origin \<in> set allowed then
       [(''Access-Control-Allow-Origin'', origin), (''Access-Control-Allow-Methods'', ''GET, POST, PUT, DELETE, OPTIONS''),
        (''Access-Control-Allow-Headers'', ''Content-Type, Authorization''), (''Vary'', ''Origin'')]
     else [])"

definition cors_answer :: "string list \<Rightarrow> string \<Rightarrow> string \<Rightarrow> nat option" where
  "cors_answer allowed method_name origin =
    (if method_name = ''OPTIONS'' then (if origin \<noteq> '''' \<and> origin \<notin> set allowed then Some 403 else Some 204)
     else None)"

end
