(* ===== verification/CatalogLife.thy ===== *)
theory CatalogLife
  imports CommandApi
begin

text \<open>
  What the endpoints achieve together with the registry and the configuration push: which agent
  hears of a change, whose result an endpoint returns, and what a failed trigger leaves behind.
\<close>

section \<open>Threads keep their command\<close>

lemma await_thread: "await_result a cid ch timeout m = Some (t, m1) \<Longrightarrow>
    thread_id t = Some cid \<and> mg_threads m1 = mg_threads m"
  by (auto simp: await_result_def Let_def set_pending_def thread_id_def split: if_splits prod.splits recv_outcome.splits)

lemma send_command_thread:
  assumes "send_command agentID uuid cmd m = (t, m1)"
  shows "thread_id t = Some (if sc_command_id cmd = '''' then uuid else sc_command_id cmd)"
    and "mg_threads m1 = mg_threads m"
  using assms by (auto simp: send_command_def Let_def set_pending_def send_on_def thread_id_def split: option.splits prod.splits send_outcome.splits if_splits)

lemma unregister_threads: "mg_threads (unregister k m) = mg_threads m"
  by (simp add: unregister_def split: option.split)

lemma drop_agents_threads: "mg_threads (fold (\<lambda>(_, a). drop_agent a) ps m) = mg_threads m"
  by (induction ps arbitrary: m) (auto split: prod.split)

lemma mgr_close_threads: "mg_threads (mgr_close m) = mg_threads m"
  by (simp add: mgr_close_def drop_agents_threads)

lemma update_heartbeat_threads: "mg_threads (snd (update_heartbeat k st job m)) = mg_threads m"
  by (simp add: update_heartbeat_def Let_def split: option.split)

lemmas thread_frames = unregister_threads mgr_close_threads update_heartbeat_threads mgr_send_frame(3)

lemma mgr_step_thread:
  assumes "mgr_step m m'" and "i < length (mg_threads m)" and "thread_id (mg_threads m ! i) = Some cid"
  shows "i < length (mg_threads m') \<and> thread_id (mg_threads m' ! i) = Some cid"
  using assms(1)
proof cases
  case (connect ch m1 k)
  then show ?thesis using assms by (auto simp: open_stream_def register_def)
next
  case (call k u cmd t m1)
  then show ?thesis using assms send_command_thread(2)[OF call(2)] by (simp add: spawn_def nth_append)
next
  case (wake j a c ch timeout t m1)
  then show ?thesis using assms await_thread[OF wake(4)] by (auto simp: become_def nth_list_update thread_id_def)
next
  case (route j a r)
  then show ?thesis using assms by (auto simp: become_def nth_list_update thread_id_def)
next
  case (deliver j ch r)
  then show ?thesis using assms
    by (auto simp: become_def nth_list_update thread_id_def route_send_def split: prod.split)
qed (use assms in \<open>simp_all add: thread_frames stream_recv_def spawn_def nth_append\<close>)

lemma mgr_steps_thread:
  assumes "mgr_step\<^sup>*\<^sup>* m m'" and "i < length (mg_threads m)" and "thread_id (mg_threads m ! i) = Some cid"
  shows "i < length (mg_threads m') \<and> thread_id (mg_threads m' ! i) = Some cid"
  using assms by (induction rule: rtranclp_induct) (auto dest: mgr_step_thread)

lemma mgr_reach_steps: "mgr_step\<^sup>*\<^sup>* m m' \<Longrightarrow> mgr_reach m \<Longrightarrow> mgr_reach m'"
  by (induction rule: rtranclp_induct) (auto intro: mgr_reach.step)

lemma start_call_thread:
  assumes "start_call agentID uuid cmd sv = (In_call i, sv1)" and "mgr_reach (sv_mgr sv)"
  shows "mgr_reach (sv_mgr sv1)" and "i < length (mg_threads (sv_mgr sv1))"
    and "thread_id (mg_threads (sv_mgr sv1) ! i) = Some (if sc_command_id cmd = '''' then uuid else sc_command_id cmd)"
proof -
  obtain t m where c: "send_command agentID uuid cmd (sv_mgr sv) = (t, m)" by fastforce
  then have e: "i = length (mg_threads m)" "sv1 = sv\<lparr>sv_mgr := spawn t m\<rparr>" using assms(1) by (auto simp: start_call_def)
  show "mgr_reach (sv_mgr sv1)" using mgr_reach.step[OF assms(2) mgr_step.call[OF c]] e by simp
  show "i < length (mg_threads (sv_mgr sv1))" by (simp add: e spawn_def)
  show "thread_id (mg_threads (sv_mgr sv1) ! i) = Some (if sc_command_id cmd = '''' then uuid else sc_command_id cmd)"
    using send_command_thread(1)[OF c] by (simp add: e spawn_def nth_append)
qed

lemma returned_own:
  assumes "mgr_reach m" and "mgr_step\<^sup>*\<^sup>* m m'" and "i < length (mg_threads m)" and "thread_id (mg_threads m ! i) = Some cid"
    and "mg_threads m' ! i = Returned c (Inr r)"
  shows "c = cid \<and> cr_command_id r = cid"
proof -
  have i: "i < length (mg_threads m')" "thread_id (mg_threads m' ! i) = Some cid" using mgr_steps_thread[OF assms(2-4)] by auto
  obtain own where "routing own m'" using routing_reach[OF mgr_reach_steps[OF assms(2,1)]] by blast
  then have "cr_command_id r = c" using i(1) assms(5) by (force simp: routing_def dest: nth_mem)
  then show ?thesis using i(2) assms(5) by (simp add: thread_id_def)
qed

lemma finish_data:
  "finish data_reply i sv = Some (Reply 200 d) \<Longrightarrow>
    \<exists>c r. mg_threads (sv_mgr sv) ! i = Returned c (Inr r) \<and> cr_success r \<and> d = (if cr_data r = No_data then Entries_json [] else cr_data r)"
  by (auto simp: finish_def data_reply_def split: mgr_thread.splits sum.splits if_splits)

lemma call_agentD:
  "call_agent uuid agentID action sv = (In_call i :: 'b handling, sv1) \<Longrightarrow>
    is_online agentID (sv_mgr sv)
    \<and> start_call agentID '''' \<lparr>sc_command_id = uuid, sc_action = action\<rparr> sv = (In_call i :: 'b handling, sv1)"
  by (auto simp: call_agent_def split: if_splits)

section \<open>Endpoints that wait for an agent\<close>

text \<open>
  C13. A user sees the answer to the own request: whatever commands, results, disconnections
  and reconnections are interleaved while an endpoint waits for its agent, the data it returns
  with status 200 is that of a successful result for the very command it sent.
\<close>

theorem endpoint_returns_own_result:
  assumes "mgr_reach (sv_mgr sv)" and "uuid \<noteq> ''''"
    and "list_snapshots_handler uuid agentID repo sv = (In_call i, sv1)
      \<or> browse_snapshot_handler uuid agentID input sv = (In_call i, sv1)
      \<or> browse_filesystem_handler uuid agentID path sv = (In_call i, sv1)"
    and "mgr_step\<^sup>*\<^sup>* (sv_mgr sv1) (sv_mgr sv2)" and "finish data_reply i sv2 = Some (Reply 200 d)"
  shows "\<exists>r. mg_threads (sv_mgr sv2) ! i = Returned uuid (Inr r) \<and> cr_command_id r = uuid \<and> cr_success r
    \<and> d = (if cr_data r = No_data then Entries_json [] else cr_data r)"
proof -
  obtain action where "(call_agent uuid agentID action sv :: payload handling \<times> server) = (In_call i, sv1)"
    using assms(3) by (auto simp: list_snapshots_handler_def browse_snapshot_handler_def browse_filesystem_handler_def Let_def
        split: if_splits body.splits)
  from call_agentD[OF this] have s: "(start_call agentID '''' \<lparr>sc_command_id = uuid, sc_action = action\<rparr> sv :: payload handling \<times> server)
      = (In_call i, sv1)" by simp
  note t = start_call_thread[OF s assms(1)]
  from finish_data[OF assms(5)] obtain c r where r: "mg_threads (sv_mgr sv2) ! i = Returned c (Inr r)" "cr_success r"
    "d = (if cr_data r = No_data then Entries_json [] else cr_data r)" by blast
  have "c = uuid \<and> cr_command_id r = uuid"
    using returned_own[OF t(1) assms(4) t(2) _ r(1), of uuid] t(3) assms(2) by simp
  then show ?thesis using r by blast
qed

text \<open>A run: the file browser asks the agent, which answers.\<close>

definition idle_server :: server where
  "idle_server = \<lparr>sv_db = demo_store, sv_mgr = demo_manager, sv_hub = new_hub, sv_snapshots = []\<rparr>"

definition waiting_server :: server where
  "waiting_server = snd (list_snapshots_handler ''c1'' ''a'' ''r1'' idle_server :: payload handling \<times> server)"

definition answered_manager :: manager where
  "answered_manager =
    (let m1 = sv_mgr waiting_server; m2 = spawn (route_find ''a'' pong m1) m1; m3 = become 1 (route_channel 0 pong m2) m2;
         m4 = become 1 Handled (route_send 0 pong m3)
     in case await_result 0 ''c1'' 0 False m4 of None \<Rightarrow> m4 | Some (t, m5) \<Rightarrow> become 0 t m5)"

lemma demo_reach: "mgr_reach demo_manager"
  unfolding demo_manager_def by (auto intro: mgr_reach.start mgr_reach.step mgr_step.connect split: prod.split)

lemmas answered_defs = waiting_server_def idle_server_def demo_manager_def mgr_new_def open_stream_def register_def
  list_snapshots_handler_def call_agent_def start_call_def send_command_def is_online_def Let_def put_def send_on_def
  set_pending_def make_chan_def try_send_def spawn_def become_def route_find_def route_channel_def route_send_def pong_def
  await_result_def recv_def del_def

lemma answered_steps: "mgr_step\<^sup>*\<^sup>* (sv_mgr waiting_server) answered_manager"
proof -
  let ?m1 = "sv_mgr waiting_server"
  let ?m2 = "spawn (route_find ''a'' pong ?m1) ?m1"
  let ?m3 = "become 1 (route_channel 0 pong ?m2) ?m2"
  let ?m4 = "become 1 Handled (route_send 0 pong ?m3)"
  have m2: "mg_threads ?m2 = [Waiting 0 ''c1'' 0, Routing 0 pong]" by (simp add: answered_defs)
  have m3: "mg_threads ?m3 = [Waiting 0 ''c1'' 0, Routed 0 pong]" by (simp add: answered_defs)
  have m4: "mg_threads ?m4 = [Waiting 0 ''c1'' 0, Handled]" by (simp add: answered_defs)
  obtain t m5 where w: "await_result 0 ''c1'' 0 False ?m4 = Some (t, m5)"
    by (simp add: answered_defs)
  have "mgr_step ?m1 ?m2" by (rule mgr_step.result)
  moreover have "mgr_step ?m2 ?m3" by (rule mgr_step.route) (simp_all only: m2, simp_all)
  moreover have "mgr_step ?m3 ?m4" by (rule mgr_step.deliver) (simp_all only: m3, simp_all)
  moreover have "mgr_step ?m4 (become 0 t m5)" by (rule mgr_step.wake[OF _ _ w]) (simp_all only: m4, simp_all)
  moreover have "answered_manager = become 0 t m5" by (simp only: answered_manager_def Let_def w option.case prod.case)
  ultimately show ?thesis by (metis (no_types, lifting) rtranclp.rtrancl_into_rtrancl rtranclp.rtrancl_refl)
qed

theorem endpoint_returns_own_result_witness:
  "\<exists>r. mg_threads answered_manager ! 0 = Returned ''c1'' (Inr r) \<and> cr_command_id r = ''c1'' \<and> cr_success r
    \<and> Entries_json [] = (if cr_data r = No_data then Entries_json [] else cr_data r)"
proof -
  have c: "(list_snapshots_handler ''c1'' ''a'' ''r1'' idle_server :: payload handling \<times> server) = (In_call 0, waiting_server)"
    by (simp add: answered_defs)
  have f: "finish data_reply 0 (waiting_server\<lparr>sv_mgr := answered_manager\<rparr>) = Some (Reply 200 (Entries_json []))"
    by (simp add: answered_manager_def finish_def data_reply_def answered_defs)
  have "mgr_reach (sv_mgr idle_server)" by (simp add: idle_server_def demo_reach)
  from endpoint_returns_own_result[OF this _ _ _ f, of "''c1''" "''a''" "''r1''" waiting_server] c answered_steps
  show ?thesis by simp
qed

text \<open>
  The file browser never asks an agent for anything but a clean absolute path of at most
  4096 bytes: the path of the command has no empty, \<open>.\<close> or \<open>..\<close> element, cleaning it again
  changes nothing, and every other request is answered without a command, leaving the registry
  as it is.
\<close>

theorem browser_asks_for_clean_paths:
  fixes h :: "payload handling"
  assumes "browse_filesystem_handler uuid agentID path sv = (h, sv1)"
  shows "(\<exists>code msg. h = Answered (Error_reply code msg)) \<and> sv1 = sv
    \<or> (\<exists>es. list_all plain_elem es \<and> length (abs_path es) \<le> 4096 \<and> path_clean (abs_path es) = abs_path es
        \<and> is_online agentID (sv_mgr sv)
        \<and> start_call agentID '''' \<lparr>sc_command_id = uuid, sc_action = Browse_filesystem (abs_path es)\<rparr> sv = (h, sv1))"
proof -
  let ?p = "path_clean (if path = '''' then ''/'' else path)"
  show ?thesis
  proof (cases "is_rooted ?p \<and> length ?p \<le> 4096 \<and> is_online agentID (sv_mgr sv)")
    case True
    then obtain es where es: "list_all plain_elem es" "?p = abs_path es"
      using path_clean_abs[of "if path = '''' then ''/'' else path"] path_clean_rooted by blast
    have "start_call agentID '''' \<lparr>sc_command_id = uuid, sc_action = Browse_filesystem ?p\<rparr> sv = (h, sv1)"
      using assms True unfolding browse_filesystem_handler_def Let_def call_agent_def is_rooted_def by simp
    then have "start_call agentID '''' \<lparr>sc_command_id = uuid, sc_action = Browse_filesystem (abs_path es)\<rparr> sv = (h, sv1)"
      by (simp only: es(2))
    moreover have "length (abs_path es) \<le> 4096" using True by (simp only: es(2))
    ultimately show ?thesis using path_clean_id[OF es(1)] True es(1) by blast
  next
    case False
    then show ?thesis using assms unfolding browse_filesystem_handler_def Let_def call_agent_def is_rooted_def
      by (auto split: if_splits)
  qed
qed

theorem browser_asks_for_clean_paths_witness:
  "\<exists>es. list_all plain_elem es \<and> path_clean (abs_path es) = abs_path es
     \<and> (start_call ''a'' '''' \<lparr>sc_command_id = ''c1'', sc_action = Browse_filesystem (abs_path es)\<rparr> idle_server :: payload handling \<times> server)
       = browse_filesystem_handler ''c1'' ''a'' ''/etc/../var//log'' idle_server"
proof -
  obtain h sv1 where b: "(browse_filesystem_handler ''c1'' ''a'' ''/etc/../var//log'' idle_server :: payload handling \<times> server) = (h, sv1)"
    by fastforce
  have "h \<noteq> Answered (Error_reply code msg)" for code msg
    using b by (auto simp: browse_filesystem_handler_def path_clean_def is_rooted_def Let_def has_prefix_def call_agent_def
        idle_server_def demo_online start_call_def split: prod.splits)
  with browser_asks_for_clean_paths[OF b] b show ?thesis by auto
qed

section \<open>Triggers that fail\<close>

lemma get_planD:
  assumes "on_store (get_plan v c i (sv_db sv)) sv = (Inr (Some p), sv1)"
  shows "find_plan i (sv_db sv) = Some p" and "\<exists>t. sv1 = sv\<lparr>sv_db := (sv_db sv)\<lparr>st_tick := t\<rparr>\<rparr>"
proof -
  obtain r s1 where q: "get_plan v c i (sv_db sv) = (r, s1)" by fastforce
  then have r: "r = Inr (Some p)" "sv1 = sv\<lparr>sv_db := s1\<rparr>" using assms by (auto simp: on_store_def)
  then show "find_plan i (sv_db sv) = Some p" and "\<exists>t. sv1 = sv\<lparr>sv_db := (sv_db sv)\<lparr>st_tick := t\<rparr>\<rparr>"
    using q by (auto simp: get_plan_def split: prod.splits sum.splits option.splits dest!: query_cases)
qed

lemma create_planned_jobD:
  assumes "create_planned_job v c a i n tr s = (Inr j, s1)"
  shows "\<exists>t. s1 = s\<lparr>st_jobs := st_jobs s @ [j], st_tick := t\<rparr>"
    and "active a i j" and "jb_status j = ''planned''" and "jb_id j \<notin> set (job_ids s)"
  using assms by (auto simp: create_planned_job_def Let_def active_def split: prod.splits sum.splits dest!: statement_cases)

text \<open>
  A trigger that fails is not taken back: when the endpoint answers with 500 because its
  command could not be sent, timed out or lost its stream, the history still has the planned
  row it created, and an active row of that plan is what the next report of the plan, of
  whatever run, is merged into.
\<close>

theorem failed_trigger_leaves_planned_job:
  assumes "trigger_plan_handler rv c uuid planID sv = (jobID, In_call i, sv1)"
    and "finish (trigger_reply jobID) i sv2 = Some (Error_reply 500 msg)" and "sv_db sv2 = sv_db sv1"
  shows "\<exists>p j t. find_plan planID (sv_db sv) = Some p \<and> is_online (pr_agent_id p) (sv_mgr sv)
    \<and> sv_db sv2 = (sv_db sv)\<lparr>st_jobs := st_jobs (sv_db sv) @ [j], st_tick := t\<rparr>
    \<and> jb_id j = jobID \<and> jb_status j = ''planned'' \<and> active (pr_agent_id p) planID j
    \<and> newest (filter (active (pr_agent_id p) planID) (st_jobs (sv_db sv2))) \<noteq> None"
proof -
  obtain p s1 where p: "on_store (get_plan (rv_env rv) c planID (sv_db sv)) sv = (Inr (Some p), s1)"
    and h: "is_online (pr_agent_id p) (sv_mgr s1)"
    using assms(1) unfolding trigger_plan_handler_def
    by (auto split: prod.splits sum.splits option.splits if_splits)
  obtain j s2 where j: "on_store (create_planned_job (rv_env rv) c (pr_agent_id p) planID (pr_name p) ''manual'' (sv_db s1)) s1 = (Inr j, s2)"
    and e: "jobID = jb_id j" and st: "start_call (pr_agent_id p) uuid \<lparr>sc_command_id = '''', sc_action = Trigger_backup planID\<rparr>
             (emit_event rv \<lparr>ev_type = ''job.created'', ev_payload = [(''id'', jb_id j)]\<rparr> s2)
         = (In_call i :: (bool \<times> string \<times> string) handling, sv1)"
    using assms(1) p h unfolding trigger_plan_handler_def by (auto split: prod.splits sum.splits)
  from j have jj: "create_planned_job (rv_env rv) c (pr_agent_id p) planID (pr_name p) ''manual'' (sv_db s1) = (Inr j, sv_db s2)"
    by (auto simp: on_store_def prod_eq_iff)
  note row = create_planned_jobD[OF jj]
  have "sv_db sv1 = sv_db s2" using st by (auto simp: start_call_def emit_event_def split: prod.splits)
  then obtain t where db: "sv_db sv2 = (sv_db sv)\<lparr>st_jobs := st_jobs (sv_db sv) @ [j], st_tick := t\<rparr>"
    using assms(3) row(1) get_planD(2)[OF p] by auto
  have "filter (active (pr_agent_id p) planID) (st_jobs (sv_db sv2)) \<noteq> []" using row(2) by (simp add: db)
  then have "newest (filter (active (pr_agent_id p) planID) (st_jobs (sv_db sv2))) \<noteq> None"
    by (auto simp: newest_def split: list.split) (metis length_0_conv length_sort)
  moreover have "is_online (pr_agent_id p) (sv_mgr sv)" using h get_planD(2)[OF p] by auto
  ultimately show ?thesis using get_planD(1)[OF p] db row e by blast
qed

text \<open>A trigger whose command gets no answer within the 30 seconds.\<close>

definition triggered :: "string \<times> (bool \<times> string \<times> string) handling \<times> server" where
  "triggered = trigger_plan_handler demo_services background ''c9'' ''p'' idle_server"

definition timed_out :: server where
  "timed_out = (case triggered of (_, _, sv) \<Rightarrow>
     (case await_result 0 ''c9'' 0 True (sv_mgr sv) of None \<Rightarrow> sv | Some (t, m) \<Rightarrow> sv\<lparr>sv_mgr := become 0 t m\<rparr>))"

lemma demo_plan_found: "find_plan ''p'' demo_store = Some demo_plan"
  by (simp add: find_plan_def demo_store_def demo_plan_def empty_store_def)

lemma demo_fault_free: "fault_free (se_sql demo_env)"
  by (simp add: demo_env_def)

lemma demo_job_created:
  "\<exists>j. create_planned_job demo_env background ''a'' ''p'' n tr (demo_store\<lparr>st_tick := k\<rparr>)
    = (Inr j, demo_store\<lparr>st_jobs := [j], st_tick := Suc k\<rparr>)"
  by (simp add: create_planned_job_def Let_def job_ids_def job_fks_def demo_store_def empty_store_def
      demo_agent_def demo_plan_def statement_ok[OF demo_fault_free])

lemma triggered_state:
  "\<exists>jobID sv1. triggered = (jobID, In_call 0, sv1) \<and> mg_threads (sv_mgr sv1) = [Waiting 0 ''c9'' 0]"
proof -
  have g: "get_plan demo_env background ''p'' demo_store = (Inr (Some demo_plan), demo_store\<lparr>st_tick := Suc (Suc (st_tick demo_store))\<rparr>)"
    by (simp add: get_plan_def query_ok[OF demo_fault_free] demo_plan_found)
  obtain j where j: "create_planned_job demo_env background ''a'' ''p'' ''etc'' ''manual'' (demo_store\<lparr>st_tick := Suc (Suc (st_tick demo_store))\<rparr>)
    = (Inr j, demo_store\<lparr>st_jobs := [j], st_tick := Suc (Suc (Suc (st_tick demo_store)))\<rparr>)"
    using demo_job_created by blast
  have a: "pr_agent_id demo_plan = ''a''" "pr_name demo_plan = ''etc''" by (simp_all add: demo_plan_def)
  let ?cmd = "\<lparr>sc_command_id = '''', sc_action = Trigger_backup ''p''\<rparr>"
  obtain t m where m: "send_command ''a'' ''c9'' ?cmd demo_manager = (t, m)" by fastforce
  then have tm: "t = Waiting 0 ''c9'' 0" "mg_threads m = []" by (auto simp: answered_defs)
  show ?thesis
    by (simp add: triggered_def trigger_plan_handler_def idle_server_def demo_services_def on_store_def g a demo_online j
        emit_event_def start_call_def m) (simp add: tm spawn_def)
qed

theorem failed_trigger_leaves_planned_job_witness:
  "\<exists>j t. sv_db timed_out = demo_store\<lparr>st_jobs := st_jobs demo_store @ [j], st_tick := t\<rparr> \<and> jb_status j = ''planned''"
proof -
  obtain jobID sv1 where tr: "triggered = (jobID, In_call 0, sv1)" and th: "mg_threads (sv_mgr sv1) = [Waiting 0 ''c9'' 0]"
    using triggered_state by blast
  obtain m where w: "await_result 0 ''c9'' 0 True (sv_mgr sv1) = Some (Returned ''c9'' (Inl (Msg (''command '' @ ''c9'' @ '' timed out''))), m)"
    by (simp add: await_result_def Let_def)
  have mt: "mg_threads m = [Waiting 0 ''c9'' 0]" using await_thread[OF w] th by simp
  have t: "timed_out = sv1\<lparr>sv_mgr := become 0 (Returned ''c9'' (Inl (Msg (''command '' @ ''c9'' @ '' timed out'')))) m\<rparr>"
    unfolding timed_out_def tr prod.case w option.case ..
  have f: "finish (trigger_reply jobID) 0 timed_out = Some (Error_reply 500 (''command '' @ ''c9'' @ '' timed out''))"
    by (simp add: t finish_def become_def mt trigger_reply_def)
  have "sv_db timed_out = sv_db sv1" by (simp add: t)
  from failed_trigger_leaves_planned_job[OF tr[unfolded triggered_def] f this] show ?thesis
    by (auto simp: idle_server_def)
qed

section \<open>Changes and pushes\<close>

lemma push_to_mgr:
  "sv_mgr (push_to rv i sv) = sv_mgr sv \<or> (\<exists>config. sv_mgr (push_to rv i sv) = snd (mgr_send i (Config config) (sv_mgr sv)))"
proof -
  obtain res s m where p: "push_config_to_agent (rv_push rv) (rv_env rv) background i (sv_db sv, sv_mgr sv) = (res, (s, m))"
    by (metis prod.exhaust)
  from pushed[OF p] show ?thesis by (auto simp: push_to_def p)
qed

lemma push_tells: "registry.tells sv_mgr i (push_to rv i)"
  unfolding registry.tells_def using push_to_mgr by blast

lemma push_to_sends:
  assumes "fault_free (se_sql (rv_env rv))" and "codec_ok (rv_push rv)" and "pushable (rv_push rv) i (sv_db sv)" and "i \<noteq> ''''"
    and "is_online i (sv_mgr sv)"
  shows "\<exists>config. sv_mgr (push_to rv i sv) = snd (mgr_send i (Config config) (sv_mgr sv))
    \<and> ac_backup_plans config = map (plan_spec (hook_timeout_of (sv_db sv)) (sv_db sv)) (agent_plans i (sv_db sv))"
proof -
  from build_config_gives[OF assms(1-4)] obtain config s' where
      b: "build_config (rv_push rv) (rv_env rv) background i (sv_db sv) = (Inr (Some config), s')" by (auto simp: gives_def)
  from build_configD[OF b assms(4,2)] obtain a rs qs s0 s2 where
      t0: "ticked (sv_db sv) s0" and qs: "build_plans (rv_env rv) background (hook_timeout_of (sv_db sv)) (agent_plans i (sv_db sv)) s0 = (qs, s2)"
      and cf: "config = config_of (rv_push rv) (sv_db sv) a (pp_repo_order (rv_push rv) rs) qs"
    by blast
  have "qs = map (plan_spec (hook_timeout_of (sv_db sv)) (sv_db sv)) (agent_plans i (sv_db sv))"
    using build_plans_ok[OF assms(1), of "hook_timeout_of (sv_db sv)" "agent_plans i (sv_db sv)" s0] qs t0 by (auto simp: ticked_def)
  then have "ac_backup_plans config = map (plan_spec (hook_timeout_of (sv_db sv)) (sv_db sv)) (agent_plans i (sv_db sv))"
    by (simp add: cf config_of_def)
  moreover have "sv_mgr (push_to rv i sv) = snd (mgr_send i (Config config) (sv_mgr sv))"
    using assms(5) by (auto simp: push_to_def push_config_to_agent_def b split: prod.split sum.split)
  ultimately show ?thesis by blast
qed

lemma create_planD:
  assumes "create_plan v c p0 s = (Inr p, s1)"
  shows "\<exists>t. s1 = s\<lparr>st_plans := st_plans s @ [p], st_tick := t\<rparr>"
    and "p = p0\<lparr>pr_id := pr_id p, pr_created_at := pr_created_at p, pr_updated_at := pr_updated_at p\<rparr>"
    and "pr_id p \<notin> set (plan_ids s)"
proof -
  from assms obtain t where "s1 = s\<lparr>st_plans := st_plans s @ [p], st_tick := t\<rparr>"
    and "p = p0\<lparr>pr_id := pr_id p, pr_created_at := pr_created_at p, pr_updated_at := pr_updated_at p\<rparr>"
    and "pr_id p \<notin> set (plan_ids s)"
    unfolding create_plan_def Let_def by (auto split: prod.splits sum.splits dest!: transaction_cases)
  then show "\<exists>t. s1 = s\<lparr>st_plans := st_plans s @ [p], st_tick := t\<rparr>"
    and "p = p0\<lparr>pr_id := pr_id p, pr_created_at := pr_created_at p, pr_updated_at := pr_updated_at p\<rparr>"
    and "pr_id p \<notin> set (plan_ids s)" by blast+
qed

text \<open>A store of which every repository and the agent's own secrets can be opened.\<close>

definition readable :: "services \<Rightarrow> string \<Rightarrow> store \<Rightarrow> bool" where
  "readable rv i s \<longleftrightarrow>
    (case find_agent i s of
       None \<Rightarrow> False
     | Some row \<Rightarrow> ag_status row = ''approved'' \<and> \<not> isl (open_agent (rv_secrets rv) ''decrypt agent rclone config'' row))
    \<and> list_all (\<lambda>r. \<not> isl (open_repo (rv_secrets rv) r)) (st_repos s)"

lemma readable_pushable: "readable rv i s \<Longrightarrow> st_agents s' = st_agents s \<Longrightarrow> st_repos s' = st_repos s \<Longrightarrow> pushable (rv_push rv) i s'"
  unfolding readable_def pushable_def find_agent_def by (auto simp: list_all_iff)


definition new_plan :: plan_row where
  "new_plan = demo_plan\<lparr>pr_name := ''home'', pr_schedule := ''0 3 * * *'', pr_paths := [''/home'']\<rparr>"

lemma demo_env_sels: "se_uuid demo_env t = ''u'' @ show_nat t" "se_foreign_keys demo_env"
  by (simp_all add: demo_env_def)

lemma new_plan_created:
  "\<exists>p sv'. create_plan_handler demo_services background (Decoded new_plan) idle_server = (Reply 201 p, sv')"
proof -
  have s: "is_valid_cron_schedule ''0 3 * * *''" by code_simp
  have v: "pr_name new_plan \<noteq> ''''" "pr_agent_id new_plan = ''a''" "pr_paths new_plan \<noteq> []" "pr_schedule new_plan = ''0 3 * * *''"
    "pr_repository_ids new_plan = [''r'']" "pr_name new_plan = ''home''"
    by (simp_all add: new_plan_def demo_plan_def)
  obtain p s1 where "create_plan demo_env background new_plan demo_store = (Inr p, s1)"
    by (simp add: create_plan_def v Let_def transaction_ok[OF demo_fault_free] fk_agent_def demo_store_def empty_store_def
        demo_agent_def demo_plan_def demo_repo_def demo_env_sels)
  then show ?thesis using s v by (simp add: create_plan_handler_def on_store_def idle_server_def demo_services_def)
qed

lemma demo_readable: "readable demo_services ''a'' demo_store"
  by (simp add: readable_def demo_services_def demo_params_def demo_store_def demo_agent_def find_agent_def empty_store_def
      open_agent_def db_decrypt_ptr_def open_repo_def unseal_def db_decrypt_def demo_secrets_def demo_repo_def)


text \<open>
  Moving a plan to another agent does not tell the agent it was taken from: the update is
  answered with 200 and the plan now belongs to the new agent, but nothing is put on the
  streams of the others, so the old agent keeps its copy and goes on running it.
\<close>

theorem moved_plan_stays_with_old_agent:
  assumes "update_plan_handler rv c i (Decoded p0) sv = (Reply 200 p, sv')" and "pr_agent_id p0 \<noteq> old"
    and "mgr_inv (sv_mgr sv)"
  shows "pr_id p = i \<and> pr_agent_id p = pr_agent_id p0 \<and> send_queue old (sv_mgr sv') = send_queue old (sv_mgr sv)"
proof -
  obtain s1 where sv': "sv' = push_to rv (pr_agent_id p) (sv\<lparr>sv_db := s1\<rparr>)" and p: "pr_id p = i" "pr_agent_id p = pr_agent_id p0"
    using assms(1) unfolding update_plan_handler_def Let_def on_store_def by (auto split: prod.splits sum.splits)
  have "mgr_inv (sv_mgr (sv\<lparr>sv_db := s1\<rparr>))" using assms(3) by simp
  from registry.tells_one(3)[OF push_tells this] show ?thesis using p assms(2) by (simp add: sv')
qed

definition two_agents :: server where
  "two_agents = idle_server\<lparr>
     sv_db := demo_store\<lparr>st_agents := st_agents demo_store @ [demo_agent\<lparr>ag_id := ''b'', ag_status := ''approved''\<rparr>]\<rparr>,
     sv_mgr := (case open_stream demo_manager of (ch, m) \<Rightarrow> register ''b'' ch m)\<rparr>"

lemma two_agents_reach: "mgr_reach (sv_mgr two_agents)"
  using mgr_reach.step[OF demo_reach mgr_step.connect[of demo_manager _ _ "''b''"]]
  by (auto simp: two_agents_def split: prod.split)

lemma two_agents_moved:
  "\<exists>p sv'. update_plan_handler demo_services background ''p'' (Decoded (demo_plan\<lparr>pr_agent_id := ''b''\<rparr>)) two_agents = (Reply 200 p, sv')"
proof -
  let ?s = "demo_store\<lparr>st_agents := st_agents demo_store @ [demo_agent\<lparr>ag_id := ''b'', ag_status := ''approved''\<rparr>]\<rparr>"
  obtain s1 where u: "update_plan demo_env background (demo_plan\<lparr>pr_agent_id := ''b'', pr_updated_at := n\<rparr>) ?s = (Inr (), s1)" for n
    by (simp add: update_plan_def Let_def transaction_ok[OF demo_fault_free] fk_agent_def demo_store_def empty_store_def
        demo_agent_def demo_plan_def demo_repo_def demo_env_sels)
  have "update_plan demo_env background (demo_plan\<lparr>pr_agent_id := ''b'', pr_id := ''p'', pr_updated_at := n\<rparr>) ?s = (Inr (), s1)" for n
    using u[of n] by (simp add: demo_plan_def)
  then show ?thesis
    by (simp add: update_plan_handler_def two_agents_def on_store_def Let_def demo_services_def)
qed

theorem moved_plan_stays_with_old_agent_witness:
  "\<exists>p sv'. update_plan_handler demo_services background ''p'' (Decoded (demo_plan\<lparr>pr_agent_id := ''b''\<rparr>)) two_agents = (Reply 200 p, sv')
    \<and> pr_agent_id p = ''b'' \<and> send_queue ''a'' (sv_mgr sv') = send_queue ''a'' (sv_mgr two_agents)"
proof -
  obtain p sv' where u: "update_plan_handler demo_services background ''p'' (Decoded (demo_plan\<lparr>pr_agent_id := ''b''\<rparr>)) two_agents
      = (Reply 200 p, sv')" using two_agents_moved by blast
  from moved_plan_stays_with_old_agent[OF u _ mgr_inv_reach[OF two_agents_reach], of "''a''"] u show ?thesis by auto
qed

end
