(* ===== verification/AgentFiles.thy ===== *)
theory AgentFiles
  imports Paths Messages
begin

text \<open>
  The files of the agent's data directory: the replacement of a file by a synced temporary one
  (agent/internal/atomicfile/atomicfile.go), the identity and the last configuration stored with
  it (agent/internal/identity/identity.go, agent/internal/localconfig/store.go), and the
  configuration of rclone, which is written in place (agent/internal/executor/rclone.go).
\<close>

section \<open>Files\<close>

text \<open>
  A file is its content and whether that content has reached the disk. Every call of the
  operating system succeeds, fails, or is where the machine stops; \<open>io\<close> says which, by the
  number of the call. A write that fails or is cut off may have written a part.
\<close>

type_synonym fsys = "string \<Rightarrow> (string \<times> bool) option"

datatype io_outcome = Io_ok | Io_fails go_error | Io_crash

datatype run_outcome = Finished "unit result" | Crashed

fun run_calls ::
  "(nat \<Rightarrow> io_outcome) \<Rightarrow> nat \<Rightarrow> (string \<times> (fsys \<Rightarrow> fsys) \<times> (fsys \<Rightarrow> fsys)) list \<Rightarrow> fsys \<Rightarrow> run_outcome \<times> fsys" where
  "run_calls io k [] fs = (Finished (Inr ()), fs)"
| "run_calls io k ((what, partial, full) # calls) fs =
    (case io k of
       Io_ok \<Rightarrow> run_calls io (Suc k) calls (full fs)
     | Io_fails er \<Rightarrow> (Finished (Inl (Wrap what er)), partial fs)
     | Io_crash \<Rightarrow> (Crashed, partial fs))"

text \<open>
  \<open>Write\<close> with the name \<open>tmp\<close> the temporary file was given: create, write, change the mode,
  sync, close, rename, and the deferred removal when one of them failed after the creation.
\<close>

definition write_calls :: "nat \<Rightarrow> string \<Rightarrow> string \<Rightarrow> string \<Rightarrow> (string \<times> (fsys \<Rightarrow> fsys) \<times> (fsys \<Rightarrow> fsys)) list" where
  "write_calls part tmp path data =
    [(''creating temp file'', \<lambda>fs. fs, \<lambda>fs. fs(tmp \<mapsto> ('''', False))),
     (''writing temp file'', \<lambda>fs. fs(tmp \<mapsto> (take part data, False)), \<lambda>fs. fs(tmp \<mapsto> (data, False))),
     (''setting temp file permissions'', \<lambda>fs. fs, \<lambda>fs. fs),
     (''syncing temp file'', \<lambda>fs. fs, \<lambda>fs. fs(tmp := map_option (\<lambda>(c, _). (c, True)) (fs tmp))),
     (''closing temp file'', \<lambda>fs. fs, \<lambda>fs. fs),
     (''renaming temp file'', \<lambda>fs. fs, \<lambda>fs. fs(path := fs tmp, tmp := None))]"

definition atomic_write ::
  "(nat \<Rightarrow> io_outcome) \<Rightarrow> nat \<Rightarrow> string \<Rightarrow> string \<Rightarrow> string \<Rightarrow> fsys \<Rightarrow> run_outcome \<times> fsys" where
  "atomic_write io part tmp path data fs =
    (case run_calls io 0 (write_calls part tmp path data) fs of
       (Finished (Inl er), fs1) \<Rightarrow>
         (if io 0 \<noteq> Io_ok then (Finished (Inl er), fs1)
          else case io 6 of
            Io_ok \<Rightarrow> (Finished (Inl er), fs1(tmp := None))
          | Io_fails _ \<Rightarrow> (Finished (Inl er), fs1)
          | Io_crash \<Rightarrow> (Crashed, fs1))
     | r \<Rightarrow> r)"

text \<open>What is found after the machine stopped: of unsynced files anything may be left.\<close>

definition after_crash :: "(string \<Rightarrow> string \<Rightarrow> (string \<times> bool) option) \<Rightarrow> fsys \<Rightarrow> fsys" where
  "after_crash rot fs = (\<lambda>n. case fs n of None \<Rightarrow> None | Some (c, synced) \<Rightarrow> (if synced then Some (c, True) else rot n c))"

section \<open>Identity and configuration\<close>

definition file_join :: "string \<Rightarrow> string \<Rightarrow> string" where
  "file_join dir name = path_clean (if dir = '''' then name else dir @ ''/'' @ name)"

record identity =
  idn_agent_id :: string
  idn_api_key :: string

definition set_api_key :: "string \<Rightarrow> identity \<Rightarrow> identity" where
  "set_api_key k i = i\<lparr>idn_api_key := k\<rparr>"

text \<open>JSON encoding and decoding of a stored value, parameters as everywhere.\<close>

record 'v file_codec =
  fc_marshal :: "'v \<Rightarrow> string result"
  fc_unmarshal :: "string \<Rightarrow> 'v result"

definition identity_path :: "string \<Rightarrow> string" where
  "identity_path dir = file_join dir ''identity.json''"

definition load_identity :: "identity file_codec \<Rightarrow> io_outcome \<Rightarrow> string \<Rightarrow> fsys \<Rightarrow> identity option result" where
  "load_identity cd io dir fs =
    (case io of
       Io_fails er \<Rightarrow> Inl (Wrap ''reading identity file'' er)
     | _ \<Rightarrow>
       (case fs (identity_path dir) of
          None \<Rightarrow> Inr None
        | Some (data, _) \<Rightarrow>
          (case fc_unmarshal cd data of
             Inl er \<Rightarrow> Inl (Wrap ''parsing identity file'' er)
           | Inr i \<Rightarrow> Inr (Some i))))"

definition save_identity ::
  "identity file_codec \<Rightarrow> (nat \<Rightarrow> io_outcome) \<Rightarrow> nat \<Rightarrow> string \<Rightarrow> string \<Rightarrow> identity \<Rightarrow> fsys \<Rightarrow> run_outcome \<times> fsys" where
  "save_identity cd io part tmp dir i fs =
    (case fc_marshal cd i of
       Inl er \<Rightarrow> (Finished (Inl (Wrap ''marshaling identity'' er)), fs)
     | Inr data \<Rightarrow>
       (case atomic_write io part tmp (identity_path dir) data fs of
          (Finished (Inl er), fs1) \<Rightarrow> (Finished (Inl (Wrap ''writing identity file'' er)), fs1)
        | r \<Rightarrow> r))"

definition config_path :: "string \<Rightarrow> string" where
  "config_path dir = file_join dir ''config.json''"

definition save_config ::
  "agent_config file_codec \<Rightarrow> (nat \<Rightarrow> io_outcome) \<Rightarrow> nat \<Rightarrow> string \<Rightarrow> string \<Rightarrow> agent_config \<Rightarrow> fsys \<Rightarrow> run_outcome \<times> fsys" where
  "save_config cd io part tmp dir cfg fs =
    (case fc_marshal cd cfg of
       Inl er \<Rightarrow> (Finished (Inl (Wrap ''marshaling config'' er)), fs)
     | Inr data \<Rightarrow>
       (case atomic_write io part tmp (config_path dir) data fs of
          (Finished (Inl er), fs1) \<Rightarrow> (Finished (Inl (Wrap ''writing config file'' er)), fs1)
        | r \<Rightarrow> r))"

definition load_config :: "agent_config file_codec \<Rightarrow> io_outcome \<Rightarrow> string \<Rightarrow> fsys \<Rightarrow> agent_config result" where
  "load_config cd io dir fs =
    (case io of
       Io_fails er \<Rightarrow> Inl (Wrap ''reading config file'' er)
     | _ \<Rightarrow>
       (case fs (config_path dir) of
          None \<Rightarrow> Inl (Wrap ''config file not found'' (Msg ''file does not exist''))
        | Some (data, _) \<Rightarrow>
          (case fc_unmarshal cd data of
             Inl er \<Rightarrow> Inl (Wrap ''parsing config file'' er)
           | Inr cfg \<Rightarrow> Inr cfg)))"

section \<open>The rclone configuration\<close>

definition rclone_config_path :: "string \<Rightarrow> string" where
  "rclone_config_path dir = file_join dir ''rclone.conf''"

text \<open>\<open>os.WriteFile\<close> truncates the file and writes it, without a sync.\<close>

definition write_rclone_config ::
  "(nat \<Rightarrow> io_outcome) \<Rightarrow> nat \<Rightarrow> string \<Rightarrow> string \<Rightarrow> fsys \<Rightarrow> run_outcome \<times> fsys" where
  "write_rclone_config io part dir text fs =
    (let path = rclone_config_path dir
     in run_calls io 0
          [(''writing rclone config'', \<lambda>fs. fs, \<lambda>fs. fs(path \<mapsto> ('''', False))),
           (''writing rclone config'', \<lambda>fs. fs(path \<mapsto> (take part text, False)), \<lambda>fs. fs(path \<mapsto> (text, False)))] fs)"

section \<open>Properties\<close>

lemma atomic_write_cases:
  assumes "fs tmp = None" and "tmp \<noteq> path" and "atomic_write io part tmp path data fs = (res, fs')"
  shows "(res = Finished (Inr ()) \<and> fs' = fs(path \<mapsto> (data, True)))
    \<or> (res \<noteq> Finished (Inr ()) \<and> (\<exists>f. fs' = fs(tmp := f)))"
proof -
  have none: "fs(tmp := None) = fs" "fs = fs(tmp := f) \<longleftrightarrow> f = None" for f using assms(1) by (auto simp: fun_eq_iff)
  show ?thesis
    using assms(2,3) none unfolding atomic_write_def write_calls_def
    by (auto simp: fun_upd_twist split: io_outcome.splits)
qed

lemma save_identity_cases:
  assumes "fs tmp = None" and "tmp \<noteq> identity_path dir" and "save_identity cd io part tmp dir i fs = (res, fs')"
  shows "(res = Finished (Inr ()) \<and> (\<exists>data. fc_marshal cd i = Inr data \<and> fs' = fs(identity_path dir \<mapsto> (data, True))))
    \<or> (res \<noteq> Finished (Inr ()) \<and> (\<exists>f. fs' = fs(tmp := f)))"
proof (cases "fc_marshal cd i")
  case (Inl er)
  then show ?thesis using assms(3) by (auto simp: save_identity_def intro!: exI[of _ "fs tmp"])
next
  case (Inr data)
  obtain r fs1 where w: "atomic_write io part tmp (identity_path dir) data fs = (r, fs1)" by fastforce
  have s: "fs' = fs1" "res = Finished (Inr ()) \<longleftrightarrow> r = Finished (Inr ())"
    using assms(3) by (auto simp: save_identity_def Inr w split: run_outcome.splits sum.splits)
  from atomic_write_cases[OF assms(1,2) w] show ?thesis by (auto simp: s Inr)
qed


definition demo_file_codec :: "identity file_codec" where
  "demo_file_codec = \<lparr>fc_marshal = \<lambda>i. Inr (replicate (length (idn_agent_id i)) CHR ''x'' @ CHR ''.'' # idn_agent_id i @ idn_api_key i),
     fc_unmarshal = \<lambda>s. let n = length (takeWhile (\<lambda>ch. ch = CHR ''x'') s); r = drop (Suc n) s
       in Inr \<lparr>idn_agent_id = take n r, idn_api_key = drop n r\<rparr>\<rparr>"

lemma demo_file_codec_ok: "\<exists>d. fc_marshal demo_file_codec j = Inr d \<and> fc_unmarshal demo_file_codec d = Inr j"
proof -
  have "takeWhile (\<lambda>ch. ch = CHR ''x'') (replicate n CHR ''x'' @ CHR ''.'' # r) = replicate n CHR ''x''" for n r
    by (induction n) auto
  then show ?thesis by (simp add: demo_file_codec_def Let_def)
qed


end
