(* ===== verification/AgentCommands.thy ===== *)
theory AgentCommands
  imports AgentFiles Scheduler
begin

text \<open>
  What the agent does with a configuration and with a command (agent/cmd/agent/main.go): the
  callbacks it hands to the stream client, its start from the configuration on disk, and the
  file browser with its blocked paths.
\<close>

section \<open>State\<close>

text \<open>
  The state the callbacks share: the current configuration, the data directory, the blocked
  paths, the outbox, and the scheduler.
\<close>

record agent =
  an_config :: "agent_config option"
  an_files :: fsys
  an_blocked :: "string list"
  an_outbox :: outbox
  an_sched :: sched

text \<open>
  What the agent runs on: its data directory, the encoding of the configuration file, the
  machine and decoders restic is run with, the cron parser, symbolic links and directories
  of the host.
\<close>

record host =
  ho_dir :: string
  ho_codec :: "agent_config file_codec"
  ho_machine :: machine
  ho_json :: restic_json
  ho_parses :: "string \<Rightarrow> bool"
  ho_links :: "string \<Rightarrow> string result"
  ho_read_dir :: "string \<Rightarrow> (string \<times> bool) list result"

text \<open>How the system calls of one callback end, and the name of the temporary file.\<close>

record calls =
  ca_config_io :: "nat \<Rightarrow> io_outcome"
  ca_rclone_io :: "nat \<Rightarrow> io_outcome"
  ca_partial :: nat
  ca_tmp :: string

definition default_blocked_paths :: "string list" where
  "default_blocked_paths = [''/proc'', ''/sys'', ''/dev'', ''/run/credentials'', ''/selinux'', ''/cgroup'']"

section \<open>Configurations\<close>

definition put_rclone_config :: "host \<Rightarrow> calls \<Rightarrow> agent_config \<Rightarrow> agent \<Rightarrow> agent" where
  "put_rclone_config h k cfg a =
    (if ac_rclone_config cfg = '''' then a
     else a\<lparr>an_files := snd (write_rclone_config (ca_rclone_io k) (ca_partial k) (ho_dir h) (ac_rclone_config cfg) (an_files a))\<rparr>)"

definition put_schedule :: "host \<Rightarrow> agent_config \<Rightarrow> agent \<Rightarrow> agent" where
  "put_schedule h cfg a = a\<lparr>an_sched := (an_sched a)\<lparr>sd_cron := update_schedule (ho_parses h) (ac_backup_plans cfg)
     (ac_repositories cfg) (ac_default_retention cfg) (sd_cron (an_sched a))\<rparr>\<rparr>"

definition put_outbox_config :: "agent_config \<Rightarrow> agent \<Rightarrow> agent" where
  "put_outbox_config cfg a = a\<lparr>an_outbox := update_config (outbox_config_from_proto (ac_outbox cfg)) (an_outbox a)\<rparr>"

text \<open>The callback \<open>onConfig\<close>; a failed write of a file is only logged.\<close>

definition on_config :: "host \<Rightarrow> calls \<Rightarrow> agent_config \<Rightarrow> agent \<Rightarrow> agent" where
  "on_config h k cfg a =
    (let a1 = a\<lparr>an_config := Some cfg,
               an_files := snd (save_config (ho_codec h) (ca_config_io k) (ca_partial k) (ca_tmp k) (ho_dir h) cfg (an_files a))\<rparr>;
         a2 = put_rclone_config h k cfg a1;
         a3 = (if ac_blocked_paths cfg \<noteq> [] then a2\<lparr>an_blocked := ac_blocked_paths cfg\<rparr> else a2);
         a4 = put_outbox_config cfg a3
     in put_schedule h cfg a4)"

text \<open>The start of the agent: fresh state, and the configuration of the disk when it can be read.\<close>

definition fresh_agent :: "spill_db \<Rightarrow> int \<Rightarrow> fsys \<Rightarrow> agent" where
  "fresh_agent db memory_max fs = \<lparr>an_config = None, an_files = fs, an_blocked = default_blocked_paths,
     an_outbox = outbox_new db (zero_config\<lparr>oc_memory_max := memory_max\<rparr>), an_sched = sched_init\<rparr>"

definition start_agent :: "host \<Rightarrow> calls \<Rightarrow> io_outcome \<Rightarrow> spill_db \<Rightarrow> int \<Rightarrow> fsys \<Rightarrow> agent" where
  "start_agent h k io db memory_max fs =
    (let a = fresh_agent db memory_max fs
     in case load_config (ho_codec h) io (ho_dir h) fs of
          Inl _ \<Rightarrow> a
        | Inr cfg \<Rightarrow> put_outbox_config cfg (put_schedule h cfg (put_rclone_config h k cfg (a\<lparr>an_config := Some cfg\<rparr>))))"

section \<open>Commands\<close>

definition is_blocked_path :: "string list \<Rightarrow> string \<Rightarrow> bool" where
  "is_blocked_path paths p = list_ex (\<lambda>b. p = b \<or> has_prefix p (b @ ''/'')) paths"

definition find_repo_by_id :: "repository list \<Rightarrow> string \<Rightarrow> repository option" where
  "find_repo_by_id repos i = find (\<lambda>r. repo_id r = i) repos"

definition failure :: "string \<Rightarrow> string \<Rightarrow> command_result" where
  "failure cid er = \<lparr>cr_command_id = cid, cr_success = False, cr_error = er, cr_data = No_data\<rparr>"

definition success :: "string \<Rightarrow> payload \<Rightarrow> command_result" where
  "success cid data = \<lparr>cr_command_id = cid, cr_success = True, cr_error = '''', cr_data = data\<rparr>"

definition with_repo ::
  "agent_config \<Rightarrow> string \<Rightarrow> string \<Rightarrow> (repository \<Rightarrow> world \<Rightarrow> command_result \<times> world) \<Rightarrow> world \<Rightarrow> command_result \<times> world" where
  "with_repo cfg cid repoID f w =
    (case find_repo_by_id (ac_repositories cfg) repoID of
       None \<Rightarrow> (failure cid (''repository '' @ repoID @ '' not found''), w)
     | Some r \<Rightarrow> f r w)"

definition answer :: "string \<Rightarrow> ('a \<Rightarrow> payload) \<Rightarrow> 'a result \<times> world \<Rightarrow> command_result \<times> world" where
  "answer cid f r =
    (case r of
       (Inl er, w) \<Rightarrow> (failure cid (error_text er), w)
     | (Inr x, w) \<Rightarrow> (success cid (f x), w))"

definition browse_filesystem :: "host \<Rightarrow> string list \<Rightarrow> string \<Rightarrow> string \<Rightarrow> command_result" where
  "browse_filesystem h blocked cid path =
    (let cleanPath = path_clean (if path = '''' then ''/'' else path)
     in if \<not> is_rooted cleanPath then failure cid ''path must be absolute''
        else case ho_links h cleanPath of
          Inl er \<Rightarrow> failure cid (''cannot resolve path: '' @ error_text er)
        | Inr resolved \<Rightarrow>
          (if is_blocked_path blocked resolved then failure cid (''access denied: '' @ resolved @ '' is in blocked paths'')
           else case ho_read_dir h resolved of
             Inl er \<Rightarrow> failure cid (''failed to read directory: '' @ error_text er)
           | Inr entries \<Rightarrow>
             success cid (Entries_json (map (\<lambda>(n, _). (n, file_join cleanPath n)) (filter snd entries)))))"

text \<open>The path of rclone's configuration that restic gets.\<close>

definition rclone_of :: "host \<Rightarrow> string" where
  "rclone_of h = rclone_config_path (ho_dir h)"

definition handle_command :: "host \<Rightarrow> server_command \<Rightarrow> agent \<Rightarrow> world \<Rightarrow> (command_result \<times> agent) \<times> world" where
  "handle_command h cmd a w =
    (let cid = sc_command_id cmd
     in case an_config a of
          None \<Rightarrow> ((failure cid ''no config loaded'', a), w)
        | Some cfg \<Rightarrow>
          (case sc_action cmd of
             Trigger_backup planID \<Rightarrow>
               ((success cid No_data,
                 a\<lparr>an_sched := (an_sched a)\<lparr>sd_threads := sd_threads (an_sched a) @
                     trigger_now planID (ac_backup_plans cfg) (ac_repositories cfg) (ac_default_retention cfg)\<rparr>\<rparr>), w)
           | List_snapshots repoID \<Rightarrow>
               (case with_repo cfg cid repoID (\<lambda>r w. answer cid Snapshots_json
                        (restic_snapshots (ho_machine h) (ho_json h) (rclone_of h) r w)) w of
                  (res, w1) \<Rightarrow> ((res, a), w1))
           | Browse_snapshot repoID snapshotID path \<Rightarrow>
               (case with_repo cfg cid repoID (\<lambda>r w. answer cid Files_json
                        (restic_list_files (ho_machine h) (ho_json h) (rclone_of h) r snapshotID path w)) w of
                  (res, w1) \<Rightarrow> ((res, a), w1))
           | Browse_filesystem path \<Rightarrow> ((browse_filesystem h (an_blocked a) cid path, a), w)
           | Trigger_restore repoID snapshotID paths target \<Rightarrow>
               (case with_repo cfg cid repoID (\<lambda>r w. answer cid (\<lambda>_. No_data)
                        (restic_restore (ho_machine h) (rclone_of h) r snapshotID paths target w)) w of
                  (res, w1) \<Rightarrow> ((res, a), w1))
           | Unknown_action \<Rightarrow> ((failure cid ''unknown command type'', a), w)))"

section \<open>Blocked paths\<close>

lemma join_append: "es \<noteq> [] \<Longrightarrow> fs \<noteq> [] \<Longrightarrow> join_slash (es @ fs) = join_slash es @ CHR ''/'' # join_slash fs"
proof (induction es rule: join_slash.induct)
  case (2 w)
  then show ?case by (cases fs) simp_all
qed simp_all

lemma abs_path_under:
  assumes bs: "list_all plain_elem bs" "bs \<noteq> []" and ps: "list_all plain_elem ps"
  shows "abs_path ps = abs_path bs \<or> has_prefix (abs_path ps) (abs_path bs @ ''/'') \<longleftrightarrow> (\<exists>rest. ps = bs @ rest)"
proof
  assume "\<exists>rest. ps = bs @ rest"
  then obtain rest where r: "ps = bs @ rest" by blast
  then show "abs_path ps = abs_path bs \<or> has_prefix (abs_path ps) (abs_path bs @ ''/'')"
    using bs(2) by (cases "rest = []") (auto simp: abs_path_def join_append has_prefix_iff)
next
  have noslash: "list_all (\<lambda>e. CHR ''/'' \<notin> set e) es" if "list_all plain_elem es" for es
    using canon_no_slash[of True es] that by (simp add: canon_rooted)
  assume "abs_path ps = abs_path bs \<or> has_prefix (abs_path ps) (abs_path bs @ ''/'')"
  then show "\<exists>rest. ps = bs @ rest"
  proof
    assume "abs_path ps = abs_path bs"
    then show ?thesis using abs_path_inj[OF ps bs(1)] by auto
  next
    assume "has_prefix (abs_path ps) (abs_path bs @ ''/'')"
    then obtain r where r: "join_slash ps = join_slash bs @ CHR ''/'' # r" by (auto simp: abs_path_def has_prefix_iff)
    then have "ps \<noteq> []" by auto
    then have "ps = split_slash (join_slash bs @ CHR ''/'' # r)" using split_join[OF _ noslash[OF ps]] r by simp
    also have "\<dots> = bs @ split_slash r"
      using bs(2) noslash[OF bs(1)]
    proof (induction bs rule: join_slash.induct)
      case (2 w)
      then show ?case by (simp add: split_elem_append del: split_slash.simps)
    next
      case (3 w v vs)
      then show ?case by (simp add: split_elem_append del: split_slash.simps)
    qed simp
    finally show ?thesis by blast
  qed
qed

definition below :: "string list list \<Rightarrow> string list \<Rightarrow> bool" where
  "below pats ps \<longleftrightarrow> (\<exists>bs \<in> set pats. \<exists>rest. ps = bs @ rest)"

lemma is_blocked_iff:
  assumes "\<forall>bs \<in> set pats. list_all plain_elem bs \<and> bs \<noteq> []" and "list_all plain_elem ps"
  shows "is_blocked_path (map abs_path pats) (abs_path ps) \<longleftrightarrow> below pats ps"
proof -
  have "(abs_path ps = abs_path bs \<or> has_prefix (abs_path ps) (abs_path bs @ ''/'')) \<longleftrightarrow> (\<exists>rest. ps = bs @ rest)"
    if "bs \<in> set pats" for bs
    using abs_path_under assms that by blast
  then show ?thesis unfolding is_blocked_path_def list_ex_iff below_def by simp
qed



text \<open>
  \<open>EvalSymlinks\<close> returns a clean path, and an absolute one for an absolute path.
\<close>

definition clean_links :: "host \<Rightarrow> bool" where
  "clean_links h \<longleftrightarrow> (\<forall>es r. list_all plain_elem es \<longrightarrow> ho_links h (abs_path es) = Inr r \<longrightarrow>
     (\<exists>rs. list_all plain_elem rs \<and> r = abs_path rs))"


definition demo_host :: host where
  "demo_host = \<lparr>ho_dir = ''/data'', ho_codec = \<lparr>fc_marshal = \<lambda>_. Inr '''', fc_unmarshal = \<lambda>_. Inl (Msg '''')\<rparr>,
     ho_machine = example_machine (prints '''' []), ho_json = example_json, ho_parses = (\<lambda>_. True), ho_links = Inr,
     ho_read_dir = (\<lambda>p. Inr [(''ssh'', True), (''passwd'', False)])\<rparr>"

definition demo_agent_config :: agent_config where
  "demo_agent_config = \<lparr>ac_config_version = 1, ac_repositories = [], ac_backup_plans = [example_plan], ac_default_retention = None,
     ac_rclone_config = '''', ac_heartbeat_interval_secs = 30, ac_blocked_paths = [''/proc'', ''/srv/private''],
     ac_command_timeouts = None, ac_outbox = None\<rparr>"

definition demo_agent_state :: agent where
  "demo_agent_state = (fresh_agent \<lparr>sp_rows = [], sp_tick = 0\<rparr> 0 (\<lambda>_. None))\<lparr>an_config := Some demo_agent_config,
     an_blocked := [''/proc'', ''/srv/private'']\<rparr>"

lemma demo_clean_links: "clean_links demo_host"
  by (simp add: clean_links_def demo_host_def) blast


section \<open>Restarts\<close>

lemma split_last: "CHR ''/'' \<notin> set n \<Longrightarrow> split_slash (d @ CHR ''/'' # n) = split_slash d @ [n]"
proof (induction d)
  case Nil
  then show ?case by (simp add: split_elem)
next
  case (Cons ch d)
  obtain w ws where "split_slash d = w # ws" using split_not_empty list.exhaust by blast
  then show ?case using Cons by (auto split: list.split)
qed

lemma clean_last: "plain_elem n \<Longrightarrow> clean_elems r out (es @ [n]) = clean_elems r out es @ [n]"
  by (induction r out es rule: clean_elems.induct) (simp_all add: plain_elem_def)

lemma join_last: "join_slash (es @ [n]) = (if es = [] then n else join_slash es @ CHR ''/'' # n)"
  using join_append[of es "[n]"] by simp

lemma file_join_inj:
  assumes "plain_elem n" and "plain_elem m"
  shows "file_join d n = file_join d m \<longleftrightarrow> n = m"
proof (cases "d = []")
  case True
  have "path_clean x = x" if "plain_elem x" for x
  proof -
    have "\<not> is_rooted x" using that by (cases x) (auto simp: plain_elem_def is_rooted_def)
    moreover have "split_slash x = [x]" using that by (simp add: plain_elem_def split_elem)
    ultimately show ?thesis using that by (simp add: path_clean_def plain_elem_def)
  qed
  then show ?thesis using True assms by (simp add: file_join_def)
next
  case False
  have "file_join d x = (let es = clean_elems (is_rooted d) [] (split_slash d) in
      (if is_rooted d then ''/'' else []) @ (if es = [] then x else join_slash es @ CHR ''/'' # x))" if "plain_elem x" for x
  proof -
    have "is_rooted (d @ CHR ''/'' # x) = is_rooted d" using False by (cases d) (simp_all add: is_rooted_def)
    then show ?thesis using that False
      by (simp add: file_join_def path_clean_def split_last clean_last join_last plain_elem_def Let_def)
  qed
  then show ?thesis using assms by (auto simp: Let_def)
qed

lemma data_files_differ: "config_path d \<noteq> rclone_config_path d" "config_path d \<noteq> identity_path d"
  unfolding config_path_def rclone_config_path_def identity_path_def
  by (simp_all add: file_join_inj plain_elem_def)

lemma write_rclone_frame: "n \<noteq> rclone_config_path d \<Longrightarrow> snd (write_rclone_config io part d text fs) n = fs n"
  by (auto simp: write_rclone_config_def Let_def split: io_outcome.split)

lemma save_config_ok:
  assumes "\<And>n. io n = Io_ok" and "fc_marshal cd cfg = Inr data" and "tmp \<noteq> config_path dir"
  shows "snd (save_config cd io part tmp dir cfg fs) (config_path dir) = Some (data, True)"
  using assms by (simp add: save_config_def atomic_write_def write_calls_def)

lemma load_saved:
  "fs (config_path dir) = Some (data, b) \<Longrightarrow> fc_unmarshal cd data = Inr cfg \<Longrightarrow> load_config cd Io_ok dir fs = Inr cfg"
  by (simp add: load_config_def)

definition entry_data :: "cron_entry \<Rightarrow> string \<times> backup_plan \<times> repository list \<times> retention_policy option" where
  "entry_data e = (ce_schedule e, ce_plan e, ce_repos e, ce_retention e)"

lemma schedule_data:
  assumes "cron_wf s" and "distinct (map bp_id plans)"
  shows "map entry_data (cs_entries (update_schedule parses plans repos dr s))
    = map (\<lambda>p. (bp_schedule p, p, repos, dr)) (filter (schedulable parses) plans)"
  using add_plans[OF assms(2), of "remove_all s" parses repos dr] remove_all_entries[OF assms(1)]
  by (simp add: update_schedule_def cron_wf_def entry_data_def[abs_def])

lemma put_rclone_sels [simp]:
  "an_config (put_rclone_config h k cfg a) = an_config a" "an_blocked (put_rclone_config h k cfg a) = an_blocked a"
  "an_outbox (put_rclone_config h k cfg a) = an_outbox a" "an_sched (put_rclone_config h k cfg a) = an_sched a"
  "an_files (put_rclone_config h k cfg a) (config_path (ho_dir h)) = an_files a (config_path (ho_dir h))"
  using data_files_differ(1) by (simp_all add: put_rclone_config_def write_rclone_frame)

text \<open>
  C11. A restarted agent resumes where it was: after a configuration was received and stored,
  an agent that starts from the same data directory without reaching the server has the same
  configuration, the same cron entries with the same plans, repositories and retention, and
  the same outbox tunables; only the blocked paths of the file browser are the built-in ones
  again, whatever the configuration said.
\<close>

theorem restart_resumes_configuration:
  fixes h k k2 a cfg d db memory_max
  assumes d: "fc_marshal (ho_codec h) cfg = Inr d" "fc_unmarshal (ho_codec h) d = Inr cfg"
    and "\<And>n. ca_config_io k n = Io_ok" and "ca_tmp k \<noteq> config_path (ho_dir h)"
    and "cron_wf (sd_cron (an_sched a))" and "distinct (map bp_id (ac_backup_plans cfg))"
    and "oc_memory_max (ob_cfg (an_outbox a)) = or_default memory_max 2000"
  defines "a' \<equiv> on_config h k cfg a"
  defines "b \<equiv> start_agent h k2 Io_ok db memory_max (an_files a')"
  shows "an_config b = Some cfg \<and> an_config a' = Some cfg
    \<and> map entry_data (cs_entries (sd_cron (an_sched b))) = map entry_data (cs_entries (sd_cron (an_sched a')))
    \<and> ob_cfg (an_outbox b) = ob_cfg (an_outbox a')
    \<and> an_blocked b = default_blocked_paths
    \<and> an_blocked a' = (if ac_blocked_paths cfg = [] then an_blocked a else ac_blocked_paths cfg)"
proof -
  have f: "an_files a' (config_path (ho_dir h)) = Some (d, True)"
    unfolding a'_def on_config_def Let_def put_schedule_def put_outbox_config_def
    using save_config_ok[OF assms(3) d(1) assms(4)] by simp
  then have l: "load_config (ho_codec h) Io_ok (ho_dir h) (an_files a') = Inr cfg" using d(2) by (rule load_saved)
  have b: "b = put_outbox_config cfg (put_schedule h cfg (put_rclone_config h k2 cfg
      ((fresh_agent db memory_max (an_files a'))\<lparr>an_config := Some cfg\<rparr>)))"
    unfolding b_def start_agent_def Let_def l by simp
  have w0: "cron_wf (sd_cron sched_init)" by (simp add: sched_init_def cron_wf_def)
  have "map entry_data (cs_entries (sd_cron (an_sched b))) = map entry_data (cs_entries (sd_cron (an_sched a')))"
    unfolding b a'_def on_config_def Let_def
    by (simp add: put_outbox_config_def put_schedule_def fresh_agent_def schedule_data[OF w0 assms(6)] schedule_data[OF assms(5,6)])
  moreover have "ob_cfg (an_outbox b) = ob_cfg (an_outbox a')"
    unfolding b a'_def on_config_def Let_def
    using assms(7) by (simp add: put_outbox_config_def put_schedule_def fresh_agent_def update_config_def outbox_new_def
        apply_defaults_def zero_config_def or_default_def)
  ultimately show ?thesis unfolding b a'_def on_config_def Let_def
    by (simp add: put_outbox_config_def put_schedule_def fresh_agent_def)
qed

definition storing_host :: host where
  "storing_host = demo_host\<lparr>ho_codec := \<lparr>fc_marshal = \<lambda>c. Inr (ac_rclone_config c),
     fc_unmarshal = \<lambda>s. Inr (demo_agent_config\<lparr>ac_rclone_config := s\<rparr>)\<rparr>\<rparr>"

definition calm_calls :: calls where
  "calm_calls = \<lparr>ca_config_io = \<lambda>_. Io_ok, ca_rclone_io = \<lambda>_. Io_ok, ca_partial = 0, ca_tmp = ''/data/config.json.tmp.1''\<rparr>"

theorem restart_resumes_configuration_witness:
  "map entry_data (cs_entries (sd_cron (an_sched (start_agent storing_host calm_calls Io_ok \<lparr>sp_rows = [], sp_tick = 0\<rparr> 0
      (an_files (on_config storing_host calm_calls demo_agent_config demo_agent_state))))))
    = map entry_data (cs_entries (sd_cron (an_sched (on_config storing_host calm_calls demo_agent_config demo_agent_state))))"
proof -
  have p: "config_path ''/data'' = ''/data/config.json''" by code_simp
  have pre: "fc_marshal (ho_codec storing_host) demo_agent_config = Inr ''''"
    "fc_unmarshal (ho_codec storing_host) '''' = Inr demo_agent_config"
    "ca_config_io calm_calls n = Io_ok" "ca_tmp calm_calls \<noteq> config_path (ho_dir storing_host)"
    "cron_wf (sd_cron (an_sched demo_agent_state))" "distinct (map bp_id (ac_backup_plans demo_agent_config))"
    "oc_memory_max (ob_cfg (an_outbox demo_agent_state)) = or_default 0 2000" for n
    by (simp_all add: storing_host_def demo_agent_config_def calm_calls_def demo_host_def p demo_agent_state_def fresh_agent_def
        sched_init_def cron_wf_def outbox_new_def apply_defaults_def zero_config_def)
  from restart_resumes_configuration[OF pre] show ?thesis by blast
qed

end
