(* ===== verification/AgentStream.thy ===== *)
theory AgentStream
  imports AgentCommands Channels "HOL-Library.Sublist"
begin

text \<open>
  The stream client of the agent (agent/internal/grpcclient/stream.go): what it does with an
  approval, a configuration and a command, and one attempt of \<open>Run\<close> as a step relation between
  its main, sending and receiving goroutines and the handlers the receiver starts.
\<close>

section \<open>The handler's state\<close>

text \<open>
  The client keeps the identity, the heartbeat interval (nanoseconds) and the timeouts the
  server has pushed; the callbacks work on the rest of the agent.
\<close>

record client =
  cl_identity :: identity
  cl_heartbeat :: int
  cl_timeouts :: "command_timeouts option"
  cl_agent :: agent

definition new_stream_handler :: "identity \<Rightarrow> agent \<Rightarrow> client" where
  "new_stream_handler i a = \<lparr>cl_identity = i, cl_heartbeat = 30 * second, cl_timeouts = None, cl_agent = a\<rparr>"

definition outbound_ch_size :: nat where "outbound_ch_size = 32"

text \<open>Getters of a missing message return zero.\<close>

definition override_of :: "(command_timeouts \<Rightarrow> int) \<Rightarrow> command_timeouts option \<Rightarrow> int" where
  "override_of f t = (case t of None \<Rightarrow> 0 | Some x \<Rightarrow> f x)"

definition pick_secs :: "int \<Rightarrow> int \<Rightarrow> int" where
  "pick_secs override fallback = (if override > 0 then override * second else fallback)"

definition command_timeout :: "command_timeouts option \<Rightarrow> command_action \<Rightarrow> int" where
  "command_timeout overrides action =
    (case action of
       Trigger_backup _ \<Rightarrow> pick_secs (override_of ct_backup_secs overrides) (24 * 3600 * second)
     | Trigger_restore _ _ _ _ \<Rightarrow> pick_secs (override_of ct_restore_secs overrides) (24 * 3600 * second)
     | List_snapshots _ \<Rightarrow> pick_secs (override_of ct_list_snapshots_secs overrides) (5 * 60 * second)
     | Browse_snapshot _ _ _ \<Rightarrow> pick_secs (override_of ct_browse_snapshot_secs overrides) (5 * 60 * second)
     | Browse_filesystem _ \<Rightarrow> pick_secs (override_of ct_browse_filesystem_secs overrides) (30 * second)
     | Unknown_action \<Rightarrow> pick_secs (override_of ct_default_secs overrides) (5 * 60 * second))"

definition apply_command_timeouts :: "command_timeouts option \<Rightarrow> client \<Rightarrow> client" where
  "apply_command_timeouts t c = c\<lparr>cl_timeouts := t\<rparr>"

section \<open>Messages\<close>

text \<open>Every message carries the agent's id and the key it has at that moment.\<close>

definition message :: "identity \<Rightarrow> agent_payload \<Rightarrow> agent_message" where
  "message i p = \<lparr>am_agent_id = idn_agent_id i, am_api_key = idn_api_key i, am_payload = p\<rparr>"

record versions =
  vs_agent :: string
  vs_restic :: string
  vs_rclone :: string

text \<open>The current job of the heartbeat is the status the scheduler reports, if there is one.\<close>

definition heartbeat_message :: "versions \<Rightarrow> (job_status \<Rightarrow> running_job) \<Rightarrow> client \<Rightarrow> agent_message" where
  "heartbeat_message v conv c =
    (let job = job_status_func (sd_jobs (an_sched (cl_agent c)))
     in message (cl_identity c) (Heartbeat \<lparr>hb_status = (case job of None \<Rightarrow> ''idle'' | Some _ \<Rightarrow> ''running''),
          hb_current_job = map_option conv job, hb_agent_version = vs_agent v, hb_restic_version = vs_restic v,
          hb_rclone_version = vs_rclone v\<rparr>))"

text \<open>\<open>attrs\<close> decodes the attributes of a log entry into a map of strings.\<close>

definition extract_job_id :: "(string \<Rightarrow> (string \<times> string) list option) \<Rightarrow> log_entry \<Rightarrow> string" where
  "extract_job_id attrs e =
    (if lg_attributes e = '''' then ''''
     else case attrs (lg_attributes e) of None \<Rightarrow> '''' | Some m \<Rightarrow> (case map_of m ''job_id'' of None \<Rightarrow> '''' | Some i \<Rightarrow> i))"

text \<open>Log entries waiting to be sent, and the job id they will be sent under.\<close>

record pending_logs =
  pl_entries :: "log_entry list"
  pl_job_id :: string

definition add_log :: "(string \<Rightarrow> (string \<times> string) list option) \<Rightarrow> log_entry \<Rightarrow> pending_logs \<Rightarrow> pending_logs" where
  "add_log attrs e p =
    (let i = extract_job_id attrs e
     in p\<lparr>pl_job_id := (if i \<noteq> '''' then i else pl_job_id p), pl_entries := pl_entries p @ [e]\<rparr>)"

definition flush_logs :: "identity \<Rightarrow> pending_logs \<Rightarrow> agent_message list \<times> pending_logs" where
  "flush_logs i p =
    (if pl_entries p = [] then ([], p)
     else ([message i (Live_logs (pl_job_id p) (pl_entries p))], p\<lparr>pl_entries := []\<rparr>))"

section \<open>Handling what the server sends\<close>

text \<open>
  An approval sets the key and hands it to the callback, which sets it again and saves the
  identity; how the save ends is only logged.
\<close>

definition handle_approval ::
  "identity file_codec \<Rightarrow> host \<Rightarrow> calls \<Rightarrow> agent_status \<Rightarrow> string \<Rightarrow> client \<Rightarrow> client" where
  "handle_approval cd h k status key c =
    (if status = Status_approved then
       (let i = set_api_key key (cl_identity c)
        in c\<lparr>cl_identity := i,
             cl_agent := (cl_agent c)\<lparr>an_files := snd (save_identity cd (ca_config_io k) (ca_partial k) (ca_tmp k) (ho_dir h) i
               (an_files (cl_agent c)))\<rparr>\<rparr>)
     else c)"

definition apply_config :: "host \<Rightarrow> calls \<Rightarrow> agent_config \<Rightarrow> client \<Rightarrow> client" where
  "apply_config h k cfg c =
    (let c1 = (if ac_heartbeat_interval_secs cfg > 0 then c\<lparr>cl_heartbeat := ac_heartbeat_interval_secs cfg * second\<rparr> else c);
         c2 = apply_command_timeouts (ac_command_timeouts cfg) c1
     in c2\<lparr>cl_agent := on_config h k cfg (cl_agent c2)\<rparr>)"

definition config_ack :: "agent_config \<Rightarrow> client \<Rightarrow> agent_message" where
  "config_ack cfg c = message (cl_identity c) (Config_ack (ac_config_version cfg) True '''')"

definition result_message :: "command_result \<Rightarrow> client \<Rightarrow> agent_message" where
  "result_message r c = message (cl_identity c) (Command_result r)"

section \<open>One attempt\<close>

text \<open>
  The goroutines of \<open>Run\<close> and where each of them stands: the main one serves, waits for the
  handlers, waits for the other two, and has returned; the sending one serves, drains after
  the cancellation, and has ended; the receiving one is in \<open>Recv\<close>, holds a message it has not
  dispatched yet, or has ended; a handler works on its message or has its reply ready.
\<close>

datatype main_pc = M_serving | M_joining | M_closed | M_returned
datatype sender_pc = S_serving | S_draining | S_done
datatype receiver_pc = R_receiving | R_holding server_message | R_done
datatype handler = H_config agent_config | H_ack agent_message | H_command server_command | H_result agent_message | H_done

text \<open>
  \<open>rn_sent\<close> is what \<open>stream.Send\<close> accepted. Two fields record history: \<open>rn_queued\<close> every
  message put into the outbound channel, and \<open>rn_late\<close> whether a handler was started after
  the main goroutine had stopped waiting for handlers.
\<close>

record attempt =
  rn_client :: client
  rn_out :: "agent_message chan"
  rn_errs :: "go_error chan"
  rn_cancelled :: bool
  rn_main :: main_pc
  rn_sender :: sender_pc
  rn_recv :: receiver_pc
  rn_handlers :: "handler list"
  rn_logs :: pending_logs
  rn_sent :: "agent_message list"
  rn_queued :: "agent_message list"
  rn_panic :: bool
  rn_late :: bool

record runtime =
  rt_codec :: "identity file_codec"
  rt_host :: host
  rt_versions :: versions
  rt_conv :: "job_status \<Rightarrow> running_job"
  rt_attrs :: "string \<Rightarrow> (string \<times> string) list option"

definition beat :: "runtime \<Rightarrow> client \<Rightarrow> agent_message" where
  "beat rt c = heartbeat_message (rt_versions rt) (rt_conv rt) c"

text \<open>The start of \<open>Run\<close>: opening the stream and the first heartbeat may fail.\<close>

definition start_run :: "runtime \<Rightarrow> unit result \<Rightarrow> unit result \<Rightarrow> client \<Rightarrow> attempt result" where
  "start_run rt opened sent c =
    (case opened of
       Inl er \<Rightarrow> Inl (Wrap ''opening connect stream'' er)
     | Inr _ \<Rightarrow>
       (case sent of
          Inl er \<Rightarrow> Inl (Wrap ''sending initial heartbeat'' er)
        | Inr _ \<Rightarrow> Inr \<lparr>rn_client = c, rn_out = make_chan outbound_ch_size, rn_errs = make_chan 2, rn_cancelled = False,
            rn_main = M_serving, rn_sender = S_serving, rn_recv = R_receiving, rn_handlers = [],
            rn_logs = \<lparr>pl_entries = [], pl_job_id = ''''\<rparr>, rn_sent = [beat rt c], rn_queued = [],
            rn_panic = False, rn_late = False\<rparr>))"

text \<open>A send that the peer may refuse: its error is only logged.\<close>

definition put_sent :: "bool \<Rightarrow> agent_message list \<Rightarrow> attempt \<Rightarrow> attempt" where
  "put_sent ok ms s = (if ok then s\<lparr>rn_sent := rn_sent s @ ms\<rparr> else s)"

definition send_logs :: "bool \<Rightarrow> attempt \<Rightarrow> attempt" where
  "send_logs ok s = (case flush_logs (cl_identity (rn_client s)) (rn_logs s) of
     (ms, p) \<Rightarrow> put_sent ok ms (s\<lparr>rn_logs := p\<rparr>))"

definition report_error :: "go_error \<Rightarrow> attempt \<Rightarrow> attempt" where
  "report_error er s = s\<lparr>rn_errs := snd (try_send er (rn_errs s))\<rparr>"

definition start_handler :: "handler \<Rightarrow> attempt \<Rightarrow> attempt" where
  "start_handler g s = s\<lparr>rn_handlers := rn_handlers s @ [g], rn_recv := R_receiving,
     rn_late := rn_late s \<or> rn_main s = M_closed \<or> rn_main s = M_returned\<rparr>"

definition set_handler :: "nat \<Rightarrow> handler \<Rightarrow> attempt \<Rightarrow> attempt" where
  "set_handler i g s = s\<lparr>rn_handlers := (rn_handlers s)[i := g]\<rparr>"

definition queue_reply :: "agent_message \<Rightarrow> attempt \<Rightarrow> attempt" where
  "queue_reply m s = s\<lparr>rn_out := snd (try_send m (rn_out s)), rn_queued := rn_queued s @ [m]\<rparr>"

text \<open>
  A send on a channel waits while it is full, so its rule needs room; on a closed channel it
  panics. The select of a handler with a result may also give up once the stream is
  cancelled. \<open>Recv\<close> fails at any time, at the latest after the cancellation. The channel of
  live log entries is never closed. A command runs in one step: what restic printed and how
  it ended, within its timeout, is part of the machine.
\<close>

inductive run_step :: "runtime \<Rightarrow> attempt \<Rightarrow> attempt \<Rightarrow> bool" for rt :: runtime where
  shutdown: "run_step rt s (s\<lparr>rn_cancelled := True\<rparr>)"
| main_error: "rn_main s = M_serving \<Longrightarrow> ch_buf (rn_errs s) \<noteq> [] \<Longrightarrow>
    run_step rt s (s\<lparr>rn_errs := snd (recv (rn_errs s)), rn_cancelled := True, rn_main := M_joining\<rparr>)"
| main_ctx: "rn_main s = M_serving \<Longrightarrow> rn_cancelled s \<Longrightarrow> run_step rt s (s\<lparr>rn_main := M_joining\<rparr>)"
| main_close: "rn_main s = M_joining \<Longrightarrow> set (rn_handlers s) \<subseteq> {H_done} \<Longrightarrow> close_chan (rn_out s) = (c, panics) \<Longrightarrow>
    run_step rt s (s\<lparr>rn_out := c, rn_panic := rn_panic s \<or> panics, rn_main := M_closed\<rparr>)"
| main_return: "rn_main s = M_closed \<Longrightarrow> rn_sender s = S_done \<Longrightarrow> rn_recv s = R_done \<Longrightarrow>
    run_step rt s (s\<lparr>rn_main := M_returned\<rparr>)"
| send_stop: "rn_sender s = S_serving \<Longrightarrow> rn_cancelled s \<Longrightarrow> run_step rt s ((send_logs ok s)\<lparr>rn_sender := S_draining\<rparr>)"
| send_message: "rn_sender s \<noteq> S_done \<Longrightarrow> recv (rn_out s) = (Received m, c) \<Longrightarrow>
    run_step rt s (put_sent ok [m] (s\<lparr>rn_out := c\<rparr>))"
| send_end: "rn_sender s \<noteq> S_done \<Longrightarrow> recv (rn_out s) = (Closed_empty, c) \<Longrightarrow> run_step rt s (s\<lparr>rn_sender := S_done\<rparr>)"
| send_beat: "rn_sender s = S_serving \<Longrightarrow> run_step rt s (put_sent True [beat rt (rn_client s)] s)"
| fail_beat: "rn_sender s = S_serving \<Longrightarrow> length (ch_buf (rn_errs s)) < ch_cap (rn_errs s) \<Longrightarrow>
    run_step rt s ((report_error (Wrap ''sending heartbeat'' er) s)\<lparr>rn_sender := S_done\<rparr>)"
| take_log: "rn_sender s = S_serving \<Longrightarrow> run_step rt s (s\<lparr>rn_logs := add_log (rt_attrs rt) e (rn_logs s)\<rparr>)"
| tick_logs: "rn_sender s = S_serving \<Longrightarrow> run_step rt s (send_logs ok s)"
| receive: "rn_recv s = R_receiving \<Longrightarrow> run_step rt s (s\<lparr>rn_recv := R_holding msg\<rparr>)"
| receive_fail: "rn_recv s = R_receiving \<Longrightarrow> length (ch_buf (rn_errs s)) < ch_cap (rn_errs s) \<Longrightarrow>
    run_step rt s ((report_error (Wrap ''receiving server message'' er) s)\<lparr>rn_recv := R_done\<rparr>)"
| got_approval: "rn_recv s = R_holding (Approval status key) \<Longrightarrow>
    run_step rt s (s\<lparr>rn_client := handle_approval (rt_codec rt) (rt_host rt) k status key (rn_client s), rn_recv := R_receiving\<rparr>)"
| got_config: "rn_recv s = R_holding (Config cfg) \<Longrightarrow> run_step rt s (start_handler (H_config cfg) s)"
| got_command: "rn_recv s = R_holding (Command cmd) \<Longrightarrow> run_step rt s (start_handler (H_command cmd) s)"
| apply_conf: "i < length (rn_handlers s) \<Longrightarrow> rn_handlers s ! i = H_config cfg \<Longrightarrow>
    c = apply_config (rt_host rt) k cfg (rn_client s) \<Longrightarrow>
    run_step rt s (set_handler i (H_ack (config_ack cfg c)) (s\<lparr>rn_client := c\<rparr>))"
| run_command: "i < length (rn_handlers s) \<Longrightarrow> rn_handlers s ! i = H_command cmd \<Longrightarrow>
    handle_command (rt_host rt) cmd (cl_agent (rn_client s)) w = ((r, a), w1) \<Longrightarrow>
    run_step rt s (set_handler i (H_result (result_message r (rn_client s))) (s\<lparr>rn_client := (rn_client s)\<lparr>cl_agent := a\<rparr>\<rparr>))"
| reply: "i < length (rn_handlers s) \<Longrightarrow> rn_handlers s ! i \<in> {H_ack m, H_result m} \<Longrightarrow>
    fst (try_send m (rn_out s)) = Sent \<Longrightarrow> run_step rt s (set_handler i H_done (queue_reply m s))"
| reply_panics: "i < length (rn_handlers s) \<Longrightarrow> rn_handlers s ! i \<in> {H_ack m, H_result m} \<Longrightarrow>
    fst (try_send m (rn_out s)) = Send_panics \<Longrightarrow> run_step rt s (s\<lparr>rn_panic := True\<rparr>)"
| drop_result: "i < length (rn_handlers s) \<Longrightarrow> rn_handlers s ! i = H_result m \<Longrightarrow> rn_cancelled s \<Longrightarrow>
    run_step rt s (set_handler i H_done s)"

inductive run_reach :: "runtime \<Rightarrow> client \<Rightarrow> attempt \<Rightarrow> bool" for rt :: runtime and c0 :: client where
  start: "start_run rt (Inr ()) (Inr ()) c0 = Inr s \<Longrightarrow> run_reach rt c0 s"
| step: "run_reach rt c0 s \<Longrightarrow> run_step rt s s' \<Longrightarrow> run_reach rt c0 s'"

section \<open>Invariant\<close>

definition attempt_inv :: "attempt \<Rightarrow> bool" where
  "attempt_inv s \<longleftrightarrow>
    ch_cap (rn_out s) = 32 \<and> length (ch_buf (rn_out s)) \<le> 32
    \<and> (ch_closed (rn_out s) \<longleftrightarrow> rn_main s = M_closed \<or> rn_main s = M_returned)
    \<and> \<not> ch_closed (rn_errs s) \<and> ch_cap (rn_errs s) = 2
    \<and> length (ch_buf (rn_errs s)) \<le> (if rn_sender s = S_done then 1 else 0) + (if rn_recv s = R_done then 1 else 0)
    \<and> (rn_main s \<noteq> M_serving \<longrightarrow> rn_cancelled s)
    \<and> (ch_closed (rn_out s) \<longrightarrow> rn_late s \<or> set (rn_handlers s) \<subseteq> {H_done})
    \<and> (rn_panic s \<longrightarrow> rn_late s)"

lemma put_sent_simps [simp]:
  "rn_client (put_sent ok ms s) = rn_client s" "rn_out (put_sent ok ms s) = rn_out s" "rn_errs (put_sent ok ms s) = rn_errs s"
  "rn_cancelled (put_sent ok ms s) = rn_cancelled s" "rn_main (put_sent ok ms s) = rn_main s"
  "rn_sender (put_sent ok ms s) = rn_sender s" "rn_recv (put_sent ok ms s) = rn_recv s"
  "rn_handlers (put_sent ok ms s) = rn_handlers s" "rn_panic (put_sent ok ms s) = rn_panic s"
  "rn_late (put_sent ok ms s) = rn_late s" "rn_queued (put_sent ok ms s) = rn_queued s"
  by (simp_all add: put_sent_def)

lemma send_logs_simps [simp]:
  "rn_client (send_logs ok s) = rn_client s" "rn_out (send_logs ok s) = rn_out s" "rn_errs (send_logs ok s) = rn_errs s"
  "rn_cancelled (send_logs ok s) = rn_cancelled s" "rn_main (send_logs ok s) = rn_main s"
  "rn_sender (send_logs ok s) = rn_sender s" "rn_recv (send_logs ok s) = rn_recv s"
  "rn_handlers (send_logs ok s) = rn_handlers s" "rn_panic (send_logs ok s) = rn_panic s"
  "rn_late (send_logs ok s) = rn_late s" "rn_queued (send_logs ok s) = rn_queued s"
  by (simp_all add: send_logs_def flush_logs_def)

lemma handlers_set:
  "set (xs[i := H_done]) \<subseteq> {H_done}" if "set xs \<subseteq> {H_done}"
  using that set_update_subset_insert[of xs i H_done] by auto

lemma busy_handler: "i < length hs \<Longrightarrow> hs ! i \<noteq> H_done \<Longrightarrow> \<not> set hs \<subseteq> {H_done}"
  using nth_mem[of i hs] by blast

lemma recv_buf: "recv c = (Received m, c') \<Longrightarrow> ch_buf c = m # ch_buf c' \<and> ch_cap c' = ch_cap c \<and> ch_closed c' = ch_closed c"
  by (auto simp: recv_def split: list.splits if_splits)

lemma attempt_inv_start: "start_run rt (Inr ()) (Inr ()) c0 = Inr s \<Longrightarrow> attempt_inv s"
  by (auto simp: start_run_def attempt_inv_def outbound_ch_size_def)

lemma attempt_inv_step: "run_step rt s s' \<Longrightarrow> attempt_inv s \<Longrightarrow> attempt_inv s'"
proof (induction rule: run_step.induct)
  case (reply_panics i s m)
  then have "ch_closed (rn_out s)" by simp
  moreover have "\<not> set (rn_handlers s) \<subseteq> {H_done}" using reply_panics by (intro busy_handler[of i]) auto
  ultimately show ?case using reply_panics by (auto simp: attempt_inv_def)
next
  case (reply i s m)
  then have "\<not> ch_closed (rn_out s)" "length (ch_buf (rn_out s)) < 32"
    by (auto simp: try_send_def attempt_inv_def split: if_splits)
  then show ?case using reply by (auto simp: attempt_inv_def set_handler_def queue_reply_def try_send_def)
next
  case (send_message s m c ok)
  then show ?case using recv_buf[OF send_message(2)] by (auto simp: attempt_inv_def)
next
  case (drop_result i s m)
  then have "\<not> set (rn_handlers s) \<subseteq> {H_done}" by (intro busy_handler[of i]) auto
  then show ?case using drop_result by (auto simp: attempt_inv_def set_handler_def)
next
  case (apply_conf i s cfg c k)
  then have "\<not> set (rn_handlers s) \<subseteq> {H_done}" by (intro busy_handler[of i]) auto
  then show ?case using apply_conf by (auto simp: attempt_inv_def set_handler_def)
next
  case (run_command i s cmd w r a w1)
  then have "\<not> set (rn_handlers s) \<subseteq> {H_done}" by (intro busy_handler[of i]) auto
  then show ?case using run_command by (auto simp: attempt_inv_def set_handler_def)
next
  case (main_error s)
  then show ?case by (auto simp: attempt_inv_def recv_def split: list.split if_splits)
qed (auto simp: attempt_inv_def close_chan_def report_error_def try_send_def start_handler_def)

lemma attempt_inv_reach: "run_reach rt c0 s \<Longrightarrow> attempt_inv s"
  by (induction rule: run_reach.induct) (auto intro: attempt_inv_start attempt_inv_step)

section \<open>Shutting down\<close>

fun handler_rank :: "handler \<Rightarrow> nat" where
  "handler_rank (H_config _) = 5"
| "handler_rank (H_command _) = 5"
| "handler_rank (H_ack _) = 3"
| "handler_rank (H_result _) = 3"
| "handler_rank H_done = 0"

text \<open>What is left to do: every step of the shutdown itself lowers it.\<close>

definition run_rank :: "attempt \<Rightarrow> nat" where
  "run_rank s = sum_list (map handler_rank (rn_handlers s)) + length (ch_buf (rn_out s))
    + (case rn_recv s of R_holding _ \<Rightarrow> 10 | R_receiving \<Rightarrow> 1 | R_done \<Rightarrow> 0)
    + (case rn_sender s of S_serving \<Rightarrow> 2 | S_draining \<Rightarrow> 1 | S_done \<Rightarrow> 0)
    + (case rn_main s of M_serving \<Rightarrow> 3 | M_joining \<Rightarrow> 2 | M_closed \<Rightarrow> 1 | M_returned \<Rightarrow> 0)"

text \<open>The sender is gone, the channel is full, and a handler waits for room to acknowledge a configuration.\<close>

definition hung :: "attempt \<Rightarrow> bool" where
  "hung s \<longleftrightarrow> rn_sender s = S_done \<and> \<not> ch_closed (rn_out s) \<and> ch_cap (rn_out s) \<le> length (ch_buf (rn_out s))
    \<and> (\<exists>m. H_ack m \<in> set (rn_handlers s))"

lemma sum_update:
  "i < length hs \<Longrightarrow> sum_list (map handler_rank (hs[i := g])) + handler_rank (hs ! i)
    = sum_list (map handler_rank hs) + handler_rank g"
proof (induction hs arbitrary: i)
  case (Cons h hs)
  then show ?case by (cases i) (simp_all add: add.left_commute add.commute add.left_commute)
qed simp

definition lowers :: "runtime \<Rightarrow> attempt \<Rightarrow> bool" where
  "lowers rt s \<longleftrightarrow> (\<exists>s'. run_step rt s s' \<and> run_rank s' < run_rank s)"

lemma lowersI: "run_step rt s s' \<Longrightarrow> run_rank s' < run_rank s \<Longrightarrow> lowers rt s"
  unfolding lowers_def by blast

lemma set_handler_rank:
  assumes "i < length (rn_handlers s)" and "handler_rank g < handler_rank (rn_handlers s ! i)"
  shows "run_rank (set_handler i g s) < run_rank s"
  using sum_update[OF assms(1), of g] assms(2) by (simp add: run_rank_def set_handler_def)

lemma receiver_lowers:
  assumes "attempt_inv s" and "rn_recv s \<noteq> R_done"
  shows "lowers rt s"
proof (cases "rn_recv s")
  case R_receiving
  then have "length (ch_buf (rn_errs s)) < ch_cap (rn_errs s)" using assms(1) by (auto simp: attempt_inv_def split: if_splits)
  from run_step.receive_fail[OF R_receiving this] show ?thesis
    by (rule lowersI) (simp add: run_rank_def R_receiving report_error_def)
next
  case (R_holding msg)
  show ?thesis
  proof (cases msg)
    case (Approval st key)
    show ?thesis by (rule lowersI[OF run_step.got_approval[OF R_holding[unfolded Approval]]]) (simp add: run_rank_def R_holding)
  next
    case (Config cfg)
    show ?thesis by (rule lowersI[OF run_step.got_config[OF R_holding[unfolded Config]]])
      (simp add: run_rank_def R_holding start_handler_def)
  next
    case (Command cmd)
    show ?thesis by (rule lowersI[OF run_step.got_command[OF R_holding[unfolded Command]]])
      (simp add: run_rank_def R_holding start_handler_def)
  qed
qed (use assms in simp)

lemma sender_lowers:
  assumes "attempt_inv s" and "rn_cancelled s" and "rn_sender s \<noteq> S_done"
    and "rn_sender s = S_serving \<or> ch_buf (rn_out s) \<noteq> [] \<or> ch_closed (rn_out s)"
  shows "lowers rt s"
proof (cases "rn_sender s")
  case S_serving
  from run_step.send_stop[OF this assms(2)] show ?thesis by (rule lowersI[where s' = "(send_logs True s)\<lparr>rn_sender := S_draining\<rparr>"])
      (simp add: run_rank_def S_serving)
next
  case S_draining
  show ?thesis
  proof (cases "ch_buf (rn_out s)")
    case Nil
    then have "recv (rn_out s) = (Closed_empty, rn_out s)" using assms(4) S_draining by (simp add: recv_def)
    from run_step.send_end[OF assms(3) this] show ?thesis by (rule lowersI) (simp add: run_rank_def S_draining)
  next
    case (Cons m ms)
    then have "recv (rn_out s) = (Received m, (rn_out s)\<lparr>ch_buf := ms\<rparr>)" by (simp add: recv_def)
    from run_step.send_message[OF assms(3) this] show ?thesis
      by (rule lowersI[where s' = "put_sent True [m] (s\<lparr>rn_out := (rn_out s)\<lparr>ch_buf := ms\<rparr>\<rparr>)"]) (simp add: run_rank_def Cons)
  qed
qed (use assms in simp)

lemma handler_lowers:
  assumes "attempt_inv s" and "rn_cancelled s" and "i < length (rn_handlers s)" and "rn_handlers s ! i \<noteq> H_done"
    and "length (ch_buf (rn_out s)) < ch_cap (rn_out s) \<or> (\<forall>m. rn_handlers s ! i \<noteq> H_ack m)" and "\<not> ch_closed (rn_out s)"
  shows "lowers rt s"
proof (cases "rn_handlers s ! i")
  case (H_config cfg)
  let ?c = "apply_config (rt_host rt) undefined cfg (rn_client s)"
  from run_step.apply_conf[OF assms(3) H_config refl, of rt undefined] show ?thesis
    by (rule lowersI) (rule order.strict_trans2[OF set_handler_rank], simp_all add: assms(3) H_config run_rank_def)
next
  case (H_command cmd)
  obtain r a w1 where h: "handle_command (rt_host rt) cmd (cl_agent (rn_client s)) undefined = ((r, a), w1)" by (metis prod.exhaust)
  from run_step.run_command[OF assms(3) H_command h] show ?thesis
    by (rule lowersI) (rule order.strict_trans2[OF set_handler_rank], simp_all add: assms(3) H_command run_rank_def)
next
  case (H_ack m)
  then have "fst (try_send m (rn_out s)) = Sent" using assms(5,6) by (simp add: try_send_def)
  from run_step.reply[OF assms(3) _ this] H_ack show ?thesis
    using sum_update[OF assms(3), of H_done] assms(5,6)
    by (intro lowersI[where s' = "set_handler i H_done (queue_reply m s)"]) (auto simp: run_rank_def set_handler_def queue_reply_def try_send_def)
next
  case (H_result m)
  from run_step.drop_result[OF assms(3) H_result assms(2)] show ?thesis
    by (rule lowersI) (rule set_handler_rank, simp_all add: assms(3) H_result)
qed (use assms in simp)

definition finished :: "attempt \<Rightarrow> bool" where
  "finished s \<longleftrightarrow> rn_main s = M_returned \<or> rn_panic s \<or> hung s"

lemma shutdown_lowers:
  assumes inv: "attempt_inv s" and c: "rn_cancelled s" and nf: "\<not> finished s"
  shows "lowers rt s"
proof (cases "rn_recv s = R_done")
  case False
  then show ?thesis by (rule receiver_lowers[OF inv])
next
  case True
  have closed: "ch_closed (rn_out s) \<longleftrightarrow> rn_main s = M_closed \<or> rn_main s = M_returned" and cap: "ch_cap (rn_out s) = 32"
    using inv by (auto simp: attempt_inv_def)
  show ?thesis
  proof (cases "rn_main s")
    case M_serving
    from run_step.main_ctx[OF this c] show ?thesis by (rule lowersI) (simp add: run_rank_def M_serving)
  next
    case M_joining
    then have op: "\<not> ch_closed (rn_out s)" using closed by simp
    show ?thesis
    proof (cases "set (rn_handlers s) \<subseteq> {H_done}")
      case True
      from run_step.main_close[OF M_joining True prod.collapse[symmetric]] show ?thesis
        by (rule lowersI) (simp add: run_rank_def M_joining close_chan_def)
    next
      case False
      then obtain i where i: "i < length (rn_handlers s)" "rn_handlers s ! i \<noteq> H_done"
        by (metis in_set_conv_nth insertI1 subsetI)
      show ?thesis
      proof (cases "length (ch_buf (rn_out s)) < ch_cap (rn_out s) \<or> (\<forall>m. rn_handlers s ! i \<noteq> H_ack m)")
        case True
        then show ?thesis by (rule handler_lowers[OF inv c i _ op])
      next
        case False
        then have full: "ch_cap (rn_out s) \<le> length (ch_buf (rn_out s))" and ack: "\<exists>m. H_ack m \<in> set (rn_handlers s)"
          using i(1) by (auto simp: not_less) (metis nth_mem)
        then have "rn_sender s \<noteq> S_done" using nf op by (auto simp: finished_def hung_def)
        moreover have "ch_buf (rn_out s) \<noteq> []" using full cap by auto
        ultimately show ?thesis by (intro sender_lowers[OF inv c]) auto
      qed
    qed
  next
    case M_closed
    then have cl: "ch_closed (rn_out s)" using closed by simp
    show ?thesis
    proof (cases "rn_sender s = S_done")
      case True
      from run_step.main_return[OF M_closed True \<open>rn_recv s = R_done\<close>] show ?thesis by (rule lowersI) (simp add: run_rank_def M_closed)
    next
      case False
      then show ?thesis using cl by (intro sender_lowers[OF inv c]) auto
    qed
  qed (use nf in \<open>simp add: finished_def\<close>)
qed

lemma cancelled_step: "run_step rt s s' \<Longrightarrow> rn_cancelled s \<Longrightarrow> rn_cancelled s'"
  by (induction rule: run_step.induct) (simp_all add: set_handler_def queue_reply_def report_error_def start_handler_def)

text \<open>
  C15. Shutting a stream down never gets stuck, with one exception: once the stream is
  cancelled, whatever has happened before, some goroutine of the client can take a step that
  lowers a measure of the work left, until \<open>Run\<close> has returned; it can only end otherwise in
  the panic of a late handler, or when the sender has given up with a full channel while a
  handler still waits to acknowledge a configuration. So the attempt can always be finished.
\<close>

theorem shutdown_never_stuck:
  assumes "run_reach rt c0 s" and "rn_cancelled s"
  shows "((\<exists>s'. run_step rt s s' \<and> run_rank s' < run_rank s) \<or> rn_main s = M_returned \<or> rn_panic s \<or> hung s)
    \<and> (\<exists>s'. (run_step rt)\<^sup>*\<^sup>* s s' \<and> (rn_main s' = M_returned \<or> rn_panic s' \<or> hung s'))"
proof
  show "(\<exists>s'. run_step rt s s' \<and> run_rank s' < run_rank s) \<or> rn_main s = M_returned \<or> rn_panic s \<or> hung s"
    using shutdown_lowers[OF attempt_inv_reach[OF assms(1)] assms(2)] by (auto simp: lowers_def finished_def)
  have "\<exists>s'. (run_step rt)\<^sup>*\<^sup>* s s' \<and> finished s'" if "attempt_inv s" "rn_cancelled s" for s
    using that
  proof (induction "run_rank s" arbitrary: s rule: less_induct)
    case less
    show ?case
    proof (cases "finished s")
      case False
      then obtain s1 where s1: "run_step rt s s1" "run_rank s1 < run_rank s"
        using shutdown_lowers[OF less.prems] by (auto simp: lowers_def)
      from less.hyps[OF s1(2) attempt_inv_step[OF s1(1) less.prems(1)] cancelled_step[OF s1(1) less.prems(2)]]
      show ?thesis using s1(1) by (meson converse_rtranclp_into_rtranclp)
    qed blast
  qed
  then show "\<exists>s'. (run_step rt)\<^sup>*\<^sup>* s s' \<and> (rn_main s' = M_returned \<or> rn_panic s' \<or> hung s')"
    using attempt_inv_reach[OF assms(1)] assms(2) unfolding finished_def by blast
qed

definition demo_runtime :: runtime where
  "demo_runtime = \<lparr>rt_codec = demo_file_codec, rt_host = demo_host,
     rt_versions = \<lparr>vs_agent = ''1'', vs_restic = ''0.17'', vs_rclone = ''1.68''\<rparr>,
     rt_conv = (\<lambda>j. \<lparr>rj_plan_name = js_plan_name j, rj_started_at = Some (js_started_at j), rj_progress = 0\<rparr>),
     rt_attrs = (\<lambda>_. None)\<rparr>"

definition demo_client :: client where
  "demo_client = new_stream_handler \<lparr>idn_agent_id = ''a'', idn_api_key = ''k''\<rparr> demo_agent_state"

definition demo_attempt :: attempt where
  "demo_attempt = \<lparr>rn_client = demo_client, rn_out = make_chan outbound_ch_size, rn_errs = make_chan 2, rn_cancelled = False,
     rn_main = M_serving, rn_sender = S_serving, rn_recv = R_receiving, rn_handlers = [],
     rn_logs = \<lparr>pl_entries = [], pl_job_id = ''''\<rparr>, rn_sent = [beat demo_runtime demo_client], rn_queued = [],
     rn_panic = False, rn_late = False\<rparr>"

lemma demo_attempt_reach: "run_reach demo_runtime demo_client demo_attempt"
  by (rule run_reach.start) (simp add: start_run_def demo_attempt_def)

theorem shutdown_never_stuck_witness:
  "\<exists>s'. (run_step demo_runtime)\<^sup>*\<^sup>* (demo_attempt\<lparr>rn_cancelled := True\<rparr>) s' \<and> (rn_main s' = M_returned \<or> rn_panic s' \<or> hung s')"
proof -
  have "run_reach demo_runtime demo_client (demo_attempt\<lparr>rn_cancelled := True\<rparr>)"
    by (rule run_reach.step[OF demo_attempt_reach run_step.shutdown])
  from shutdown_never_stuck[OF this] show ?thesis by simp
qed

section \<open>Order of replies\<close>

definition is_reply :: "agent_message \<Rightarrow> bool" where
  "is_reply m = (case am_payload m of Config_ack _ _ _ \<Rightarrow> True | Command_result _ \<Rightarrow> True | _ \<Rightarrow> False)"

fun owed :: "handler \<Rightarrow> bool" where
  "owed H_done = False"
| "owed _ = True"

fun reply_of :: "handler \<Rightarrow> agent_message list" where
  "reply_of (H_ack m) = [m]"
| "reply_of (H_result m) = [m]"
| "reply_of _ = []"

definition order_inv :: "attempt \<Rightarrow> bool" where
  "order_inv s \<longleftrightarrow>
    (\<exists>taken. rn_queued s = taken @ ch_buf (rn_out s) \<and> subseq (filter is_reply (rn_sent s)) taken)
    \<and> list_all is_reply (rn_queued s) \<and> (\<forall>g \<in> set (rn_handlers s). list_all is_reply (reply_of g))
    \<and> length (rn_queued s) + length (filter owed (rn_handlers s)) \<le> length (rn_handlers s)"

lemma is_reply_simps [simp]:
  "is_reply (config_ack cfg c)" "is_reply (result_message r c)" "\<not> is_reply (beat rt c)"
  by (simp_all add: is_reply_def config_ack_def result_message_def message_def beat_def heartbeat_message_def Let_def)

lemma flush_not_reply: "filter is_reply (fst (flush_logs i p)) = []"
  by (simp add: flush_logs_def is_reply_def message_def)

lemma send_logs_replies: "filter is_reply (rn_sent (send_logs ok s)) = filter is_reply (rn_sent s)"
  using flush_not_reply[of "cl_identity (rn_client s)" "rn_logs s"]
  by (auto simp: send_logs_def put_sent_def split: prod.split)

lemma owed_update:
  assumes "i < length hs" and "owed (hs ! i)"
  shows "owed g \<Longrightarrow> length (filter owed (hs[i := g])) = length (filter owed hs)"
    and "\<not> owed g \<Longrightarrow> Suc (length (filter owed (hs[i := g]))) = length (filter owed hs)"
proof -
  have "length (filter owed (hs[i := g])) + 1 = length (filter owed hs) + (if owed g then 1 else 0)"
    using assms
  proof (induction hs arbitrary: i)
    case (Cons h hs)
    then show ?case by (cases i) auto
  qed simp
  then show "owed g \<Longrightarrow> length (filter owed (hs[i := g])) = length (filter owed hs)"
    "\<not> owed g \<Longrightarrow> Suc (length (filter owed (hs[i := g]))) = length (filter owed hs)" by simp_all
qed

lemma order_inv_handler:
  assumes "order_inv s" and "i < length (rn_handlers s)" and "owed (rn_handlers s ! i)" and "list_all is_reply (reply_of g)"
    and "rn_queued s' = rn_queued s" "rn_out s' = rn_out s" "rn_sent s' = rn_sent s" "rn_handlers s' = (rn_handlers s)[i := g]"
  shows "order_inv s'"
proof -
  have "length (filter owed (rn_handlers s')) \<le> length (filter owed (rn_handlers s))"
    using owed_update[OF assms(2,3), of g] assms(8) by (cases "owed g") simp_all
  moreover have "set (rn_handlers s') \<subseteq> insert g (set (rn_handlers s))" using assms(8) by (simp add: set_update_subset_insert)
  ultimately show ?thesis using assms(1,4-8) unfolding order_inv_def by fastforce
qed

lemma order_inv_cong:
  assumes "order_inv s" and "rn_queued s' = rn_queued s" "ch_buf (rn_out s') = ch_buf (rn_out s)"
    "filter is_reply (rn_sent s') = filter is_reply (rn_sent s)" "rn_handlers s' = rn_handlers s"
  shows "order_inv s'"
  using assms unfolding order_inv_def by simp

lemma order_inv_spawn:
  assumes "order_inv s" and "reply_of g = []"
  shows "order_inv (start_handler g s)"
  using assms unfolding order_inv_def start_handler_def by (cases "owed g") auto

lemma order_inv_reply:
  assumes "order_inv s" and "i < length (rn_handlers s)" and "reply_of (rn_handlers s ! i) = [m]"
    and "fst (try_send m (rn_out s)) = Sent"
  shows "order_inv (set_handler i H_done (queue_reply m s))"
proof -
  have o: "owed (rn_handlers s ! i)" using assms(3) by (cases "rn_handlers s ! i") auto
  have inv: "list_all is_reply (rn_queued s)" "\<forall>g \<in> set (rn_handlers s). list_all is_reply (reply_of g)"
    "length (rn_queued s) + length (filter owed (rn_handlers s)) \<le> length (rn_handlers s)"
    using assms(1) by (auto simp: order_inv_def)
  obtain taken where t: "rn_queued s = taken @ ch_buf (rn_out s)" "subseq (filter is_reply (rn_sent s)) taken"
    using assms(1) by (auto simp: order_inv_def)
  have m: "is_reply m" using inv(2) nth_mem[OF assms(2)] assms(3) by fastforce
  have buf: "ch_buf (snd (try_send m (rn_out s))) = ch_buf (rn_out s) @ [m]"
    using assms(4) by (auto simp: try_send_def split: if_splits)
  have n: "Suc (length (filter owed ((rn_handlers s)[i := H_done]))) = length (filter owed (rn_handlers s))"
    using owed_update(2)[OF assms(2) o, of H_done] by simp
  have "\<forall>g \<in> set ((rn_handlers s)[i := H_done]). list_all is_reply (reply_of g)"
    using inv(2) set_update_subset_insert[of "rn_handlers s" i H_done] by fastforce
  moreover have "length (rn_queued s @ [m]) + length (filter owed ((rn_handlers s)[i := H_done])) \<le> length (rn_handlers s)"
    using inv(3) n by simp
  moreover have "\<exists>tk. rn_queued s @ [m] = tk @ ch_buf (rn_out s) @ [m] \<and> subseq (filter is_reply (rn_sent s)) tk"
    using t by (intro exI[of _ taken]) simp
  ultimately show ?thesis using m inv(1) by (simp add: order_inv_def set_handler_def queue_reply_def buf)
qed

lemma order_inv_step: "run_step rt s s' \<Longrightarrow> order_inv s \<Longrightarrow> order_inv s'"
proof (induction rule: run_step.induct)
  case (send_message s m c ok)
  from send_message(3) obtain taken where t: "rn_queued s = taken @ ch_buf (rn_out s)" "subseq (filter is_reply (rn_sent s)) taken"
    by (auto simp: order_inv_def)
  have b: "ch_buf (rn_out s) = m # ch_buf c" using recv_buf[OF send_message(2)] by simp
  have "subseq (filter is_reply (rn_sent (put_sent ok [m] (s\<lparr>rn_out := c\<rparr>)))) (taken @ [m])"
    using list_emb_prefix[OF t(2), of "[m]"] list_emb_append_mono[OF t(2), of "[m]" "[m]"]
    by (cases ok; cases "is_reply m") (simp_all add: put_sent_def)
  moreover have "rn_queued s = (taken @ [m]) @ ch_buf c" using t(1) b by simp
  ultimately show ?case using send_message(3) unfolding order_inv_def by (auto intro!: exI[of _ "taken @ [m]"])
next
  case (got_config s cfg)
  then show ?case by (simp add: order_inv_spawn)
next
  case (got_command s cmd)
  then show ?case by (simp add: order_inv_spawn)
next
  case (apply_conf i s cfg c k)
  then show ?case by - (rule order_inv_handler[of s i "H_ack (config_ack cfg c)"], simp_all add: set_handler_def)
next
  case (run_command i s cmd w r a w1)
  then show ?case by - (rule order_inv_handler[of s i "H_result (result_message r (rn_client s))"], simp_all add: set_handler_def)
next
  case (drop_result i s m)
  then show ?case by - (rule order_inv_handler[of s i H_done], simp_all add: set_handler_def)
next
  case (reply i s m)
  from reply(2) have "reply_of (rn_handlers s ! i) = [m]" by auto
  from order_inv_reply[OF reply(4) reply(1) this reply(3)] show ?case .
next
  case (main_close s c panics)
  then show ?case by (elim order_inv_cong) (auto simp: close_chan_def)
next
  case (send_beat s)
  then show ?case by (elim order_inv_cong) (simp_all add: put_sent_def)
qed (erule order_inv_cong, simp_all add: report_error_def send_logs_replies)+

lemma order_inv_reach: "run_reach rt c0 s \<Longrightarrow> order_inv s"
proof (induction rule: run_reach.induct)
  case (start s)
  then show ?case by (auto simp: start_run_def order_inv_def outbound_ch_size_def)
next
  case (step s s')
  then show ?case using order_inv_step by blast
qed

text \<open>
  Replies keep their order and none is invented: in every reachable state of an attempt
  what the handlers put into the outbound channel is what the sender has taken followed by
  what is still queued; the acknowledgements and results the stream accepted are a
  subsequence of what was taken, in the same order, lost only where a send failed; and there
  is at most one reply for every configuration or command received.
\<close>

theorem replies_in_order:
  assumes "run_reach rt c0 s"
  shows "\<exists>taken. rn_queued s = taken @ ch_buf (rn_out s) \<and> subseq (filter is_reply (rn_sent s)) taken
    \<and> (\<forall>m \<in> set (rn_queued s). is_reply m)
    \<and> length (rn_queued s) + length (filter owed (rn_handlers s)) \<le> length (rn_handlers s)"
  using order_inv_reach[OF assms] unfolding order_inv_def by (fastforce simp: list_all_iff)

definition started_config :: attempt where
  "started_config = start_handler (H_config demo_agent_config) (demo_attempt\<lparr>rn_recv := R_holding (Config demo_agent_config)\<rparr>)"

definition acked_config :: attempt where
  "acked_config =
    (let c = apply_config (rt_host demo_runtime) calm_calls demo_agent_config (rn_client started_config);
         m = config_ack demo_agent_config c
     in set_handler 0 H_done (queue_reply m (set_handler 0 (H_ack m) (started_config\<lparr>rn_client := c\<rparr>))))"

lemma held_config_reach: "run_reach demo_runtime demo_client (demo_attempt\<lparr>rn_recv := R_holding (Config demo_agent_config)\<rparr>)"
  by (rule run_reach.step[OF demo_attempt_reach run_step.receive]) (simp add: demo_attempt_def)

lemma acked_config_reach: "run_reach demo_runtime demo_client acked_config"
proof -
  let ?c = "apply_config (rt_host demo_runtime) calm_calls demo_agent_config (rn_client started_config)"
  let ?m = "config_ack demo_agent_config ?c"
  let ?s = "set_handler 0 (H_ack ?m) (started_config\<lparr>rn_client := ?c\<rparr>)"
  have "run_reach demo_runtime demo_client started_config"
    unfolding started_config_def by (rule run_reach.step[OF held_config_reach run_step.got_config]) simp
  then have "run_reach demo_runtime demo_client ?s"
    by (rule run_reach.step[OF _ run_step.apply_conf[where k = calm_calls]])
      (simp_all add: started_config_def start_handler_def demo_attempt_def)
  then have "run_reach demo_runtime demo_client (set_handler 0 H_done (queue_reply ?m ?s))"
    by (rule run_reach.step[OF _ run_step.reply])
      (simp_all add: started_config_def start_handler_def demo_attempt_def set_handler_def try_send_def make_chan_def
        outbound_ch_size_def)
  then show ?thesis by (simp add: acked_config_def Let_def)
qed

theorem replies_in_order_witness:
  "length (rn_queued acked_config) = 1
   \<and> (\<exists>taken. rn_queued acked_config = taken @ ch_buf (rn_out acked_config)
        \<and> subseq (filter is_reply (rn_sent acked_config)) taken)"
proof
  show "length (rn_queued acked_config) = 1"
    by (simp add: acked_config_def Let_def set_handler_def queue_reply_def started_config_def start_handler_def demo_attempt_def)
  show "\<exists>taken. rn_queued acked_config = taken @ ch_buf (rn_out acked_config)
        \<and> subseq (filter is_reply (rn_sent acked_config)) taken"
    using replies_in_order[OF acked_config_reach] by blast
qed

section \<open>Late handlers\<close>

text \<open>
  The receiver is only joined after the channel has been closed, so a configuration it holds
  at that moment is handled after the close.
\<close>

lemma late_config:
  assumes "attempt_inv s" and "rn_recv s = R_holding (Config cfg)" and "rn_main s = M_closed"
  shows "\<exists>s'. (run_step rt)\<^sup>*\<^sup>* s s' \<and> rn_panic s'"
proof -
  let ?n = "length (rn_handlers s)" and ?s1 = "start_handler (H_config cfg) s"
  define c where "c = apply_config (rt_host rt) undefined cfg (rn_client ?s1)"
  let ?s2 = "set_handler ?n (H_ack (config_ack cfg c)) (?s1\<lparr>rn_client := c\<rparr>)"
  have s1: "run_step rt s ?s1" by (rule run_step.got_config[OF assms(2)])
  have s2: "run_step rt ?s1 ?s2"
    by (rule run_step.apply_conf[where k = undefined]) (simp_all add: start_handler_def c_def)
  have "ch_closed (rn_out s)" using assms(1,3) by (simp add: attempt_inv_def)
  then have "run_step rt ?s2 (?s2\<lparr>rn_panic := True\<rparr>)"
    by (intro run_step.reply_panics[of ?n _ "config_ack cfg c"]) (simp_all add: set_handler_def start_handler_def try_send_def)
  with s1 s2 have "(run_step rt)\<^sup>*\<^sup>* s (?s2\<lparr>rn_panic := True\<rparr>)"
    by (meson converse_rtranclp_into_rtranclp r_into_rtranclp)
  then show ?thesis by (intro exI[of _ "?s2\<lparr>rn_panic := True\<rparr>"]) (simp add: set_handler_def)
qed

text \<open>
  C16. The only panic of an attempt is the late handler's, and it is a real one: in every
  reachable state a panic implies that a handler was started after the main goroutine had
  stopped waiting for handlers, and whenever the receiver still holds a configuration when
  the channel is closed, the attempt can go on to send on the closed channel.
\<close>

theorem late_configuration_panics:
  assumes "run_reach rt c0 s"
  shows "(rn_panic s \<longrightarrow> rn_late s)
    \<and> (rn_recv s = R_holding (Config cfg) \<and> rn_main s = M_closed \<longrightarrow> (\<exists>s'. (run_step rt)\<^sup>*\<^sup>* s s' \<and> rn_panic s'))"
  using attempt_inv_reach[OF assms] late_config by (auto simp: attempt_inv_def)


definition closed_holding :: attempt where
  "closed_holding =
    (let s = demo_attempt\<lparr>rn_recv := R_holding (Config demo_agent_config), rn_cancelled := True, rn_main := M_joining\<rparr>
     in s\<lparr>rn_out := fst (close_chan (rn_out s)), rn_main := M_closed\<rparr>)"

lemma closed_holding_reach: "run_reach demo_runtime demo_client closed_holding"
proof -
  let ?h = "demo_attempt\<lparr>rn_recv := R_holding (Config demo_agent_config)\<rparr>"
  have "run_reach demo_runtime demo_client (?h\<lparr>rn_cancelled := True\<rparr>)"
    by (rule run_reach.step[OF held_config_reach run_step.shutdown])
  then have "run_reach demo_runtime demo_client (?h\<lparr>rn_cancelled := True, rn_main := M_joining\<rparr>)"
    by (rule run_reach.step[OF _ run_step.main_ctx]) (simp_all add: demo_attempt_def)
  from run_reach.step[OF this run_step.main_close[OF _ _ prod.collapse[symmetric]]] show ?thesis
    by (simp add: closed_holding_def demo_attempt_def close_chan_def make_chan_def)
qed

theorem late_configuration_panics_witness:
  "\<exists>s'. (run_step demo_runtime)\<^sup>*\<^sup>* closed_holding s' \<and> rn_panic s'"
  using late_configuration_panics[OF closed_holding_reach, of demo_agent_config]
  by (simp add: closed_holding_def Let_def)

end
