(* ===== verification/AgentLogs.thy ===== *)
theory AgentLogs
  imports AgentStream
begin

text \<open>
  The logging of the agent (agent/internal/logging): the handler that captures the log of a
  job (buffer.go) and the one that hands each record to several handlers (multi.go). Copies
  of a capturing handler share its buffer, so buffers live in a store and a handler holds the
  address of its own; all buffers share the one channel of live entries.
\<close>

section \<open>Records and handlers\<close>

text \<open>Levels are integers in \<open>log/slog\<close>; an attribute's value is the text it prints as.\<close>

record slog_attr =
  at_key :: string
  at_value :: string

record slog_record =
  sl_time :: string
  sl_level :: int
  sl_message :: string
  sl_attrs :: "slog_attr list"

definition level_debug :: int where "level_debug = - 4"
definition level_info :: int where "level_info = 0"
definition level_warn :: int where "level_warn = 4"
definition level_error :: int where "level_error = 8"

definition level_to_string :: "int \<Rightarrow> string" where
  "level_to_string l =
    (if l \<ge> level_error then ''error'' else if l \<ge> level_warn then ''warn''
     else if l \<ge> level_info then ''info'' else ''debug'')"

definition max_entries :: nat where "max_entries = 1000"

record entry_buffer =
  eb_entries :: "log_entry list"
  eb_notify :: bool

record buffer_handler =
  bh_buf :: nat
  bh_level :: int
  bh_attrs :: "slog_attr list"
  bh_groups :: "string list"

text \<open>The standard handler of the process keeps the groups and attributes it was given, in order.\<close>

datatype log_scope = Group string | Attrs "slog_attr list"

datatype slog_handler =
    Buffer_handler buffer_handler
  | Default_handler int "log_scope list"
  | Multi_handler "slog_handler list"

text \<open>\<open>lw_console\<close> is what the standard handler has been given, with its scopes.\<close>

record log_world =
  lw_bufs :: "entry_buffer list"
  lw_live :: "log_entry chan"
  lw_console :: "(log_scope list \<times> slog_record) list"

definition new_buffer_handler :: "int \<Rightarrow> log_world \<Rightarrow> buffer_handler \<times> log_world" where
  "new_buffer_handler level w =
    (\<lparr>bh_buf = length (lw_bufs w), bh_level = level, bh_attrs = [], bh_groups = []\<rparr>,
     w\<lparr>lw_bufs := lw_bufs w @ [\<lparr>eb_entries = [], eb_notify = False\<rparr>]\<rparr>)"

definition new_buffer_handler_with_notify :: "int \<Rightarrow> log_world \<Rightarrow> buffer_handler \<times> log_world" where
  "new_buffer_handler_with_notify level w =
    (\<lparr>bh_buf = length (lw_bufs w), bh_level = level, bh_attrs = [], bh_groups = []\<rparr>,
     w\<lparr>lw_bufs := lw_bufs w @ [\<lparr>eb_entries = [], eb_notify = True\<rparr>]\<rparr>)"

section \<open>Capturing a record\<close>

text \<open>The attributes collected so far form a map; \<open>source\<close> goes into a field of its own.\<close>

definition attr_key :: "string list \<Rightarrow> slog_attr \<Rightarrow> string" where
  "attr_key groups a =
    (let prefix = join ''.'' groups
     in if prefix \<noteq> '''' then prefix @ ''.'' @ at_key a else at_key a)"

definition put_attr ::
  "string list \<Rightarrow> slog_attr \<Rightarrow> string \<times> (string \<times> string) list \<Rightarrow> string \<times> (string \<times> string) list" where
  "put_attr groups a = (\<lambda>(source, attrs).
    let key = attr_key groups a
    in if key = ''source'' then (at_value a, attrs) else (source, put key (at_value a) attrs))"

text \<open>\<open>marshal\<close> encodes a map of strings; when it fails the attributes stay empty.\<close>

definition entry_of :: "((string \<times> string) list \<Rightarrow> string option) \<Rightarrow> buffer_handler \<Rightarrow> slog_record \<Rightarrow> log_entry" where
  "entry_of marshal h r =
    (let (source, attrs) = fold (put_attr (bh_groups h)) (bh_attrs h @ sl_attrs r) ('''', [])
     in \<lparr>lg_timestamp = sl_time r, lg_level = level_to_string (sl_level r), lg_source = source, lg_message = sl_message r,
         lg_attributes = (if attrs = [] then '''' else case marshal attrs of None \<Rightarrow> '''' | Some d \<Rightarrow> d)\<rparr>)"

definition buffer_enabled :: "int \<Rightarrow> buffer_handler \<Rightarrow> bool" where
  "buffer_enabled level h \<longleftrightarrow> level \<ge> bh_level h"

text \<open>The send to the live channel does not wait: a full channel loses the entry.\<close>

definition buffer_handle ::
  "((string \<times> string) list \<Rightarrow> string option) \<Rightarrow> slog_record \<Rightarrow> buffer_handler \<Rightarrow> log_world \<Rightarrow> log_world" where
  "buffer_handle marshal r h w =
    (let b = lw_bufs w ! bh_buf h; e = entry_of marshal h r
     in if length (eb_entries b) \<ge> max_entries then w
        else w\<lparr>lw_bufs := (lw_bufs w)[bh_buf h := b\<lparr>eb_entries := eb_entries b @ [e]\<rparr>],
               lw_live := (if eb_notify b then snd (try_send e (lw_live w)) else lw_live w)\<rparr>)"

definition buffer_with_attrs :: "slog_attr list \<Rightarrow> buffer_handler \<Rightarrow> buffer_handler" where
  "buffer_with_attrs as h = h\<lparr>bh_attrs := bh_attrs h @ as\<rparr>"

definition buffer_with_group :: "string \<Rightarrow> buffer_handler \<Rightarrow> buffer_handler" where
  "buffer_with_group name h = (if name = '''' then h else h\<lparr>bh_groups := bh_groups h @ [name]\<rparr>)"

definition entries :: "buffer_handler \<Rightarrow> log_world \<Rightarrow> log_entry list" where
  "entries h w = eb_entries (lw_bufs w ! bh_buf h)"

text \<open>The verb \<open>%-5s\<close> pads on the right.\<close>

definition upper :: "char \<Rightarrow> char" where
  "upper c = (if 97 \<le> (of_char c :: nat) \<and> (of_char c :: nat) \<le> 122 then char_of ((of_char c :: nat) - 32) else c)"

definition to_upper :: "string \<Rightarrow> string" where
  "to_upper s = map upper s"

definition pad_right :: "nat \<Rightarrow> string \<Rightarrow> string" where
  "pad_right n s = s @ replicate (n - length s) (CHR '' '')"

definition plain_line :: "log_entry \<Rightarrow> string" where
  "plain_line e = lg_timestamp e @ '' ['' @ pad_right 5 (to_upper (lg_level e)) @ ''] ['' @ lg_source e @ ''] '' @ lg_message e
     @ (if lg_attributes e \<noteq> '''' then '' '' @ lg_attributes e else '''') @ [CHR 0x0A]"

definition plain_text :: "buffer_handler \<Rightarrow> log_world \<Rightarrow> string" where
  "plain_text h w = concat (map plain_line (entries h w))"

section \<open>Several handlers\<close>

text \<open>\<open>console\<close> is what the standard handler returns; the errors of all handlers are joined.\<close>

fun handler_enabled :: "int \<Rightarrow> slog_handler \<Rightarrow> bool" where
  "handler_enabled level (Buffer_handler h) = buffer_enabled level h"
| "handler_enabled level (Default_handler l _) = (level \<ge> l)"
| "handler_enabled level (Multi_handler hs) = list_ex (handler_enabled level) hs"

fun handle :: "((string \<times> string) list \<Rightarrow> string option) \<Rightarrow> (slog_record \<Rightarrow> go_error list) \<Rightarrow> slog_record \<Rightarrow> slog_handler
      \<Rightarrow> log_world \<Rightarrow> go_error list \<times> log_world"
  and handle_all :: "((string \<times> string) list \<Rightarrow> string option) \<Rightarrow> (slog_record \<Rightarrow> go_error list) \<Rightarrow> slog_record \<Rightarrow> slog_handler list
      \<Rightarrow> log_world \<Rightarrow> go_error list \<times> log_world" where
  "handle marshal console r (Buffer_handler h) w = ([], buffer_handle marshal r h w)"
| "handle marshal console r (Default_handler l sc) w = (console r, w\<lparr>lw_console := lw_console w @ [(sc, r)]\<rparr>)"
| "handle marshal console r (Multi_handler hs) w = handle_all marshal console r hs w"
| "handle_all marshal console r [] w = ([], w)"
| "handle_all marshal console r (h # hs) w =
    (let (e1, w1) = (if handler_enabled (sl_level r) h then handle marshal console r h w else ([], w));
         (e2, w2) = handle_all marshal console r hs w1
     in (e1 @ e2, w2))"

fun with_attrs :: "slog_attr list \<Rightarrow> slog_handler \<Rightarrow> slog_handler" where
  "with_attrs as (Buffer_handler h) = Buffer_handler (buffer_with_attrs as h)"
| "with_attrs as (Default_handler l sc) = Default_handler l (sc @ [Attrs as])"
| "with_attrs as (Multi_handler hs) = Multi_handler (map (with_attrs as) hs)"

fun with_group :: "string \<Rightarrow> slog_handler \<Rightarrow> slog_handler" where
  "with_group n (Buffer_handler h) = Buffer_handler (buffer_with_group n h)"
| "with_group n (Default_handler l sc) = Default_handler l (sc @ [Group n])"
| "with_group n (Multi_handler hs) = Multi_handler (map (with_group n) hs)"

section \<open>The log of a job\<close>

text \<open>
  The logger of a job writes to the standard handler and to a buffer of its own; loggers
  derived from it share the buffer. A call is the scopes of the logger used and a record;
  the logger asks whether the level is enabled before it hands the record on.
\<close>

definition job_logger :: "int \<Rightarrow> log_scope list \<Rightarrow> buffer_handler \<Rightarrow> slog_handler" where
  "job_logger l sc h = Multi_handler [Default_handler l sc, Buffer_handler h]"

fun derive :: "log_scope list \<Rightarrow> slog_handler \<Rightarrow> slog_handler" where
  "derive [] t = t"
| "derive (Attrs as # sc) t = derive sc (with_attrs as t)"
| "derive (Group n # sc) t = derive sc (with_group n t)"

fun derive_buffer :: "log_scope list \<Rightarrow> buffer_handler \<Rightarrow> buffer_handler" where
  "derive_buffer [] h = h"
| "derive_buffer (Attrs as # sc) h = derive_buffer sc (buffer_with_attrs as h)"
| "derive_buffer (Group n # sc) h = derive_buffer sc (buffer_with_group n h)"

definition log_call ::
  "((string \<times> string) list \<Rightarrow> string option) \<Rightarrow> (slog_record \<Rightarrow> go_error list) \<Rightarrow> slog_handler \<Rightarrow> log_scope list \<times> slog_record
     \<Rightarrow> log_world \<Rightarrow> log_world" where
  "log_call marshal console t c w = (case c of (sc, r) \<Rightarrow>
     let t' = derive sc t in if handler_enabled (sl_level r) t' then snd (handle marshal console r t' w) else w)"

lemma derive_job_logger: "derive sc (job_logger l sc0 h) = job_logger l (sc0 @ sc) (derive_buffer sc h)"
  by (induction sc arbitrary: sc0 h rule: derive_buffer.induct[where P = "\<lambda>sc _. _ sc"])
     (auto simp: job_logger_def)


text \<open>Between two calls the sender of the stream may take entries from the live channel.\<close>

datatype log_event = Logs "log_scope list" slog_record | Stream_takes

fun log_step ::
  "((string \<times> string) list \<Rightarrow> string option) \<Rightarrow> (slog_record \<Rightarrow> go_error list) \<Rightarrow> slog_handler \<Rightarrow> log_event
     \<Rightarrow> log_entry list \<times> log_world \<Rightarrow> log_entry list \<times> log_world" where
  "log_step marshal console t (Logs sc r) (taken, w) = (taken, log_call marshal console t (sc, r) w)"
| "log_step marshal console t Stream_takes (taken, w) =
    (case recv (lw_live w) of (Received e, c) \<Rightarrow> (taken @ [e], w\<lparr>lw_live := c\<rparr>) | _ \<Rightarrow> (taken, w))"

definition log_events where
  "log_events marshal console t evs s = fold (log_step marshal console t) evs s"

text \<open>What the buffer of a job would hold were it not bounded.\<close>

fun captured :: "((string \<times> string) list \<Rightarrow> string option) \<Rightarrow> buffer_handler \<Rightarrow> log_event list \<Rightarrow> log_entry list" where
  "captured marshal h [] = []"
| "captured marshal h (Stream_takes # evs) = captured marshal h evs"
| "captured marshal h (Logs sc r # evs) =
    (if buffer_enabled (sl_level r) h then [entry_of marshal (derive_buffer sc h) r] else []) @ captured marshal h evs"

lemma derive_buffer_same [simp]:
  "bh_buf (derive_buffer sc h) = bh_buf h" "bh_level (derive_buffer sc h) = bh_level h"
  by (induction sc h rule: derive_buffer.induct) (auto simp: buffer_with_attrs_def buffer_with_group_def)

definition to_console :: "int \<Rightarrow> log_scope list \<Rightarrow> slog_record \<Rightarrow> log_world \<Rightarrow> log_world" where
  "to_console l sc r w = (if sl_level r \<ge> l then w\<lparr>lw_console := lw_console w @ [(sc, r)]\<rparr> else w)"

lemma to_console_simps [simp]: "lw_bufs (to_console l sc r w) = lw_bufs w" "lw_live (to_console l sc r w) = lw_live w"
  by (simp_all add: to_console_def)

lemma log_call_job:
  "log_call marshal console (job_logger l s0 h) (sc, r) w =
    (let w1 = to_console l (s0 @ sc) r w
     in if buffer_enabled (sl_level r) h then buffer_handle marshal r (derive_buffer sc h) w1 else w1)"
  unfolding log_call_def prod.case derive_job_logger
  by (auto simp: job_logger_def buffer_enabled_def to_console_def Let_def)

definition log_inv :: "nat \<Rightarrow> log_world \<Rightarrow> log_entry list \<times> log_world \<Rightarrow> log_entry list \<Rightarrow> bool" where
  "log_inv i w0 s cs \<longleftrightarrow> (case s of (taken, w) \<Rightarrow>
     i < length (lw_bufs w) \<and> eb_entries (lw_bufs w ! i) = take max_entries cs
     \<and> (\<exists>sent. taken @ ch_buf (lw_live w) = ch_buf (lw_live w0) @ sent \<and> subseq sent (eb_entries (lw_bufs w ! i)))
     \<and> (\<forall>j. j < length (lw_bufs w0) \<longrightarrow> j \<noteq> i \<longrightarrow> lw_bufs w ! j = lw_bufs w0 ! j))"

lemma log_inv_handle:
  assumes "log_inv (bh_buf h) w0 (taken, w) cs" and "e = entry_of marshal h r"
  shows "log_inv (bh_buf h) w0 (taken, buffer_handle marshal r h w) (cs @ [e])"
proof (cases "length (eb_entries (lw_bufs w ! bh_buf h)) \<ge> max_entries")
  case True
  then show ?thesis using assms(1) by (auto simp: log_inv_def buffer_handle_def Let_def min_def split: if_splits)
next
  case False
  then have n: "length cs < max_entries" using assms(1) by (auto simp: log_inv_def)
  obtain sent where sent: "taken @ ch_buf (lw_live w) = ch_buf (lw_live w0) @ sent" "subseq sent (eb_entries (lw_bufs w ! bh_buf h))"
    using assms(1) by (auto simp: log_inv_def)
  let ?w = "buffer_handle marshal r h w"
  have b: "bh_buf h < length (lw_bufs w)" using assms(1) by (simp add: log_inv_def)
  have ent: "eb_entries (lw_bufs ?w ! bh_buf h) = eb_entries (lw_bufs w ! bh_buf h) @ [e]"
    using False b assms(2) by (simp add: buffer_handle_def Let_def)
  have "ch_buf (lw_live ?w) = ch_buf (lw_live w) \<or> ch_buf (lw_live ?w) = ch_buf (lw_live w) @ [e]"
    using False assms(2) by (auto simp: buffer_handle_def Let_def try_send_def)
  then have "\<exists>sent. taken @ ch_buf (lw_live ?w) = ch_buf (lw_live w0) @ sent \<and> subseq sent (eb_entries (lw_bufs ?w ! bh_buf h))"
  proof
    assume "ch_buf (lw_live ?w) = ch_buf (lw_live w)"
    then show ?thesis using sent ent list_emb_append2[OF sent(2)] by (metis list_emb_prefix)
  next
    assume "ch_buf (lw_live ?w) = ch_buf (lw_live w) @ [e]"
    then show ?thesis using sent ent list_emb_append_mono[OF sent(2), of "[e]" "[e]"]
      by (intro exI[of _ "sent @ [e]"]) simp
  qed
  moreover have "take max_entries (cs @ [e]) = take max_entries cs @ [e]" using n by simp
  moreover have "\<forall>j. j < length (lw_bufs w0) \<longrightarrow> j \<noteq> bh_buf h \<longrightarrow> lw_bufs ?w ! j = lw_bufs w0 ! j"
    using assms(1) by (auto simp: log_inv_def buffer_handle_def Let_def)
  moreover have "bh_buf h < length (lw_bufs ?w)" using b by (simp add: buffer_handle_def Let_def)
  ultimately show ?thesis using ent assms(1) by (simp add: log_inv_def)
qed


lemma log_inv_console: "log_inv i w0 (taken, to_console l sc r w) cs = log_inv i w0 (taken, w) cs"
  by (simp add: log_inv_def)

lemma log_inv_step:
  assumes "log_inv (bh_buf h) w0 s cs"
  shows "log_inv (bh_buf h) w0 (log_step marshal console (job_logger l s0 h) ev s) (cs @ captured marshal h [ev])"
proof (cases s; cases ev)
  fix taken w sc r assume s: "s = (taken, w)" and ev: "ev = Logs sc r"
  have i: "log_inv (bh_buf (derive_buffer sc h)) w0 (taken, to_console l (s0 @ sc) r w) cs"
    using assms s by (simp add: log_inv_console)
  from log_inv_handle[OF i refl, of marshal r] i show ?thesis by (simp add: s ev log_call_job Let_def)
next
  fix taken w assume s: "s = (taken, w)" and ev: "ev = Stream_takes"
  show ?thesis
    using assms recv_buf[of "lw_live w"] by (auto simp: s ev log_inv_def split: prod.split recv_outcome.split)
qed

lemma captured_Cons: "captured marshal h (ev # evs) = captured marshal h [ev] @ captured marshal h evs"
  by (cases ev) auto

lemma log_inv_events:
  "log_inv (bh_buf h) w0 s cs \<Longrightarrow>
   log_inv (bh_buf h) w0 (log_events marshal console (job_logger l s0 h) evs s) (cs @ captured marshal h evs)"
proof (induction evs arbitrary: s cs)
  case (Cons ev evs)
  from Cons.IH[OF log_inv_step[OF Cons.prems, of marshal console l s0 ev]] show ?case
    by (subst captured_Cons) (simp add: log_events_def)
qed (simp add: log_events_def)

text \<open>
  C25. The log of a job is the first 1000 records of its own loggers at its level, in the
  order they were logged, whatever attributes and groups the loggers have gathered and
  whatever the stream reads meanwhile; the entries that reach the live channel are some of
  them in the same order; and the buffers of other jobs are not touched.
\<close>

theorem job_log_is_first_entries:
  assumes "new_buffer_handler_with_notify level w0 = (h, w)"
    and "log_events marshal console (job_logger l s0 h) evs ([], w) = (taken, w')"
  shows "entries h w' = take 1000 (captured marshal h evs)
    \<and> (\<exists>sent. taken @ ch_buf (lw_live w') = ch_buf (lw_live w0) @ sent \<and> subseq sent (entries h w'))
    \<and> (\<forall>j < length (lw_bufs w0). lw_bufs w' ! j = lw_bufs w0 ! j)"
proof -
  have h: "bh_buf h = length (lw_bufs w0)" and "log_inv (bh_buf h) w0 ([], w) []"
    using assms(1) by (auto simp: new_buffer_handler_with_notify_def log_inv_def nth_append)
  from log_inv_events[OF this(2), of marshal console l s0 evs] show ?thesis
    by (auto simp: assms(2) log_inv_def entries_def max_entries_def h)
qed

section \<open>Attribution of live entries\<close>

text \<open>What the encoding of a map must give back, for the map at hand.\<close>

definition decodes :: "((string \<times> string) list \<Rightarrow> string option) \<Rightarrow> (string \<Rightarrow> (string \<times> string) list option)
    \<Rightarrow> (string \<times> string) list \<Rightarrow> bool" where
  "decodes marshal attrs m \<longleftrightarrow> (\<exists>d m'. marshal m = Some d \<and> d \<noteq> '''' \<and> attrs d = Some m' \<and> map_of m' = map_of m)"

definition last_value :: "string \<Rightarrow> slog_attr list \<Rightarrow> string option" where
  "last_value k as = map_of (rev (map (\<lambda>a. (at_key a, at_value a)) as)) k"

definition attr_map :: "buffer_handler \<Rightarrow> slog_record \<Rightarrow> (string \<times> string) list" where
  "attr_map h r = snd (fold (put_attr (bh_groups h)) (bh_attrs h @ sl_attrs r) ('''', []))"

lemma put_attr_plain: "put_attr [] a (s, m) = (if at_key a = ''source'' then (at_value a, m) else (s, put (at_key a) (at_value a) m))"
  by (simp add: put_attr_def attr_key_def Let_def)

lemma fold_put_attr:
  "map_of (snd (fold (put_attr []) as (s, m))) ''job_id''
    = (case last_value ''job_id'' as of None \<Rightarrow> map_of m ''job_id'' | Some v \<Rightarrow> Some v)"
proof (induction as arbitrary: s m)
  case (Cons a as)
  then show ?case
    by (cases "at_key a = ''job_id''") (simp_all add: put_attr_plain last_value_def map_add_def split: option.splits)
qed (simp add: last_value_def)

text \<open>
  An entry logged outside every group carries the job it belongs to: what the stream reads
  from it as the job's id is the last \<open>job_id\<close> among the logger's and the record's attributes,
  and the empty id when there is none.
\<close>

theorem live_entry_names_its_job:
  assumes "bh_groups h = []" and "attr_map h r \<noteq> [] \<longrightarrow> decodes marshal attrs (attr_map h r)"
  shows "extract_job_id attrs (entry_of marshal h r)
    = (case last_value ''job_id'' (bh_attrs h @ sl_attrs r) of None \<Rightarrow> '''' | Some i \<Rightarrow> i)"
proof -
  have m: "map_of (attr_map h r) ''job_id'' = last_value ''job_id'' (bh_attrs h @ sl_attrs r)"
    using fold_put_attr[of "bh_attrs h @ sl_attrs r" "''''" "[]"] assms(1) by (simp add: attr_map_def split: option.splits)
  have e: "lg_attributes (entry_of marshal h r)
      = (if attr_map h r = [] then '''' else case marshal (attr_map h r) of None \<Rightarrow> '''' | Some d \<Rightarrow> d)"
    by (simp add: entry_of_def attr_map_def split: prod.split)
  show ?thesis
  proof (cases "attr_map h r = []")
    case True
    then have "last_value ''job_id'' (bh_attrs h @ sl_attrs r) = None" using m by simp
    then show ?thesis by (simp add: extract_job_id_def e True)
  next
    case False
    then obtain d m' where "marshal (attr_map h r) = Some d" "d \<noteq> ''''" "attrs d = Some m'" "map_of m' = map_of (attr_map h r)"
      using assms(2) by (auto simp: decodes_def)
    then show ?thesis using False m by (simp add: extract_job_id_def e)
  qed
qed


definition demo_world :: log_world where
  "demo_world = \<lparr>lw_bufs = [\<lparr>eb_entries = [], eb_notify = False\<rparr>], lw_live = make_chan 2, lw_console = []\<rparr>"

definition demo_record :: "int \<Rightarrow> string \<Rightarrow> slog_record" where
  "demo_record l m = \<lparr>sl_time = ''t'', sl_level = l, sl_message = m, sl_attrs = [\<lparr>at_key = ''job_id'', at_value = ''j1''\<rparr>]\<rparr>"

text \<open>An encoding good enough for maps from the one key \<open>job_id\<close>.\<close>

definition demo_marshal :: "(string \<times> string) list \<Rightarrow> string option" where
  "demo_marshal m = (case m of [(k, v)] \<Rightarrow> Some (CHR ''!'' # v) | _ \<Rightarrow> None)"

definition demo_attrs :: "string \<Rightarrow> (string \<times> string) list option" where
  "demo_attrs s = (case s of [] \<Rightarrow> None | c # v \<Rightarrow> Some [(''job_id'', v)])"

definition demo_events :: "log_event list" where
  "demo_events = [Logs [] (demo_record 0 ''starting''), Logs [] (demo_record (- 4) ''detail''), Stream_takes,
     Logs [Attrs [\<lparr>at_key = ''source'', at_value = ''hooks''\<rparr>]] (demo_record 4 ''slow'')]"

theorem job_log_is_first_entries_witness:
  "\<exists>taken w'. log_events demo_marshal (\<lambda>_. []) (job_logger 0 [] (fst (new_buffer_handler_with_notify 0 demo_world))) demo_events
      ([], snd (new_buffer_handler_with_notify 0 demo_world)) = (taken, w')
   \<and> map lg_message (entries (fst (new_buffer_handler_with_notify 0 demo_world)) w') = [''starting'', ''slow'']
   \<and> lw_bufs w' ! 0 = lw_bufs demo_world ! 0"
proof -
  let ?h = "fst (new_buffer_handler_with_notify 0 demo_world)" and ?w = "snd (new_buffer_handler_with_notify 0 demo_world)"
  obtain taken w' where e: "log_events demo_marshal (\<lambda>_. []) (job_logger 0 [] ?h) demo_events ([], ?w) = (taken, w')" by fastforce
  have c: "map lg_message (take 1000 (captured demo_marshal ?h demo_events)) = [''starting'', ''slow'']"
    by (simp add: demo_events_def new_buffer_handler_with_notify_def buffer_enabled_def demo_record_def entry_of_def split: prod.split)
  show ?thesis
    using job_log_is_first_entries[OF prod.collapse[symmetric] e] c e by (simp add: demo_world_def)
qed

theorem live_entry_names_its_job_witness:
  "extract_job_id demo_attrs (entry_of demo_marshal (fst (new_buffer_handler 0 demo_world)) (demo_record 0 ''m'')) = ''j1''"
proof -
  let ?h = "fst (new_buffer_handler 0 demo_world)" and ?r = "demo_record 0 ''m''"
  have m: "attr_map ?h ?r = [(''job_id'', ''j1'')]"
    by (simp add: attr_map_def new_buffer_handler_def demo_record_def put_attr_def attr_key_def put_def)
  have "decodes demo_marshal demo_attrs (attr_map ?h ?r)" by (simp add: decodes_def m demo_marshal_def demo_attrs_def)
  with live_entry_names_its_job[of ?h ?r demo_marshal demo_attrs] show ?thesis
    by (simp add: new_buffer_handler_def demo_record_def last_value_def)
qed

end
