(* ===== verification/AgentBoot.thy ===== *)
theory AgentBoot
  imports AgentLogs Enrollment
begin

text \<open>
  How the agent starts and stays connected: its bootstrap configuration
  (agent/internal/config/config.go), the detection of the tools it needs
  (agent/internal/versions/detect.go), registration (agent/internal/grpcclient/register.go and
  the start of \<open>run\<close> in agent/cmd/agent/main.go), and the reconnect loop
  (agent/cmd/agent/reconnect.go).
\<close>

section \<open>Bootstrap configuration\<close>

text \<open>The text of the error of \<open>strconv.Atoi\<close> is left out.\<close>

definition env_int :: "(string \<rightharpoonup> string) \<Rightarrow> string \<Rightarrow> int \<Rightarrow> int result" where
  "env_int environ name dst =
    (let v = getenv environ name
     in if v = '''' then Inr dst
        else case atoi v of
               None \<Rightarrow> Inl (Wrap name (Msg ''strconv.Atoi''))
             | Some n \<Rightarrow> (if n \<le> 0 then Inl (Msg (name @ '': must be positive, got '' @ show_int n)) else Inr n))"

definition load_outbox :: "(string \<rightharpoonup> string) \<Rightarrow> int result" where
  "load_outbox environ = env_int environ ''OUTBOX_MEMORY_MAX'' 2000"

record boot_config =
  bc_server_url :: string
  bc_agent_name :: string
  bc_data_dir :: string
  bc_memory_max :: int

definition load_boot_config :: "(string \<rightharpoonup> string) \<Rightarrow> string result \<Rightarrow> boot_config result" where
  "load_boot_config environ hostname =
    (let url = getenv environ ''BACKUP_SERVER_URL''; name = getenv environ ''BACKUP_AGENT_NAME''; dir = getenv environ ''BACKUP_DATA_DIR''
     in if url = '''' then Inl (Msg ''BACKUP_SERVER_URL is required'')
        else case (if name = '''' then (case hostname of Inl er \<Rightarrow> Inl (Wrap ''getting hostname'' er) | Inr h \<Rightarrow> Inr h) else Inr name) of
               Inl er \<Rightarrow> Inl er
             | Inr agentName \<Rightarrow>
               (case load_outbox environ of
                  Inl er \<Rightarrow> Inl er
                | Inr m \<Rightarrow> Inr \<lparr>bc_server_url = url, bc_agent_name = agentName,
                    bc_data_dir = (if dir = '''' then ''/var/lib/backup-orchestrator'' else dir), bc_memory_max = m\<rparr>))"

section \<open>The tools\<close>

text \<open>A run of a tool: what it printed on both outputs and how it ended.\<close>

record tool_run =
  tr_stdout :: string
  tr_stderr :: string
  tr_error :: "go_error option"

definition run_tool :: "string \<Rightarrow> tool_run \<Rightarrow> string result" where
  "run_tool name r =
    (case tr_error r of
       None \<Rightarrow> Inr (tr_stdout r)
     | Some er \<Rightarrow>
       (let e = Wrap (''running '' @ [CHR 0x22] @ name @ [CHR 0x22]) er
        in Inl (if tr_stderr r \<noteq> '''' then Annot e ('': '' @ trim_space (tr_stderr r)) else e)))"

text \<open>The quoted output in these two errors is left out.\<close>

definition parse_restic_version :: "string \<Rightarrow> string result" where
  "parse_restic_version output =
    (let parts = split_fields (trim_space output)
     in if length parts < 2 then Inl (Msg ''unexpected restic version output'') else Inr (parts ! 1))"

definition parse_rclone_version :: "string \<Rightarrow> string result" where
  "parse_rclone_version output =
    (let firstLine = takeWhile (\<lambda>ch. ch \<noteq> CHR 0x0A) (trim_space output); parts = split_fields firstLine
     in if length parts < 2 then Inl (Msg ''unexpected rclone version output'') else Inr (parts ! 1))"

definition detect_tool :: "string \<Rightarrow> (string \<Rightarrow> string result) \<Rightarrow> tool_run \<Rightarrow> string result" where
  "detect_tool name parse r =
    (case run_tool name r of
       Inl er \<Rightarrow> Inl (Wrap (name @ '' binary not found or failed to execute'') er)
     | Inr out \<Rightarrow> parse out)"

definition detect :: "tool_run \<Rightarrow> tool_run \<Rightarrow> (string \<times> string) result" where
  "detect restic rclone =
    (case detect_tool ''restic'' parse_restic_version restic of
       Inl er \<Rightarrow> Inl (Wrap ''detecting restic version'' er)
     | Inr v1 \<Rightarrow>
       (case detect_tool ''rclone'' parse_rclone_version rclone of
          Inl er \<Rightarrow> Inl (Wrap ''detecting rclone version'' er)
        | Inr v2 \<Rightarrow> Inr (v1, v2)))"

section \<open>Registration and start\<close>

text \<open>
  What a start meets: the environment, how each call outside the program ends, and what the
  server answers to a registration.
\<close>

record boot_world =
  bw_environ :: "string \<rightharpoonup> string"
  bw_hostname :: "string result"
  bw_mkdir :: "unit result"
  bw_restic :: tool_run
  bw_rclone :: tool_run
  bw_load_io :: io_outcome
  bw_codec :: "identity file_codec"
  bw_open_db :: "unit result"
  bw_dial :: "unit result"
  bw_register :: "register_request \<Rightarrow> string result"
  bw_save_io :: "nat \<Rightarrow> io_outcome"
  bw_partial :: nat
  bw_tmp :: string
  bw_version :: string
  bw_os :: string

definition register :: "boot_world \<Rightarrow> string \<times> string \<Rightarrow> string \<Rightarrow> register_request" where
  "register b v hostname = \<lparr>rg_hostname = hostname, rg_os = bw_os b, rg_agent_version = bw_version b,
     rg_restic_version = fst v, rg_rclone_version = snd v\<rparr>"

text \<open>
  A start ends with an error, where the machine stops, or with the agent running under an
  identity. The second component lists the registrations that were sent.
\<close>

datatype boot_end = Exits go_error | Stops | Runs boot_config identity

definition first_registration ::
  "boot_world \<Rightarrow> boot_config \<Rightarrow> string \<times> string \<Rightarrow> fsys \<Rightarrow> boot_end \<times> register_request list \<times> fsys" where
  "first_registration b cfg v fs =
    (let req = register b v (bc_agent_name cfg)
     in case bw_register b req of
          Inl er \<Rightarrow> (Exits (Wrap ''registration failed'' (Wrap ''register RPC'' er)), [req], fs)
        | Inr agentID \<Rightarrow>
          (let i = \<lparr>idn_agent_id = agentID, idn_api_key = ''''\<rparr>
           in case save_identity (bw_codec b) (bw_save_io b) (bw_partial b) (bw_tmp b) (bc_data_dir cfg) i fs of
                (AgentFiles.Finished (Inl er), fs1) \<Rightarrow> (Exits (Wrap ''saving identity'' er), [req], fs1)
              | (AgentFiles.Finished (Inr _), fs1) \<Rightarrow> (Runs cfg i, [req], fs1)
              | (Crashed, fs1) \<Rightarrow> (Stops, [req], fs1)))"

definition boot :: "boot_world \<Rightarrow> fsys \<Rightarrow> boot_end \<times> register_request list \<times> fsys" where
  "boot b fs =
    (case load_boot_config (bw_environ b) (bw_hostname b) of
       Inl er \<Rightarrow> (Exits (Wrap ''loading config'' er), [], fs)
     | Inr cfg \<Rightarrow>
    (case bw_mkdir b of
       Inl er \<Rightarrow> (Exits (Wrap ''creating data dir'' er), [], fs)
     | Inr _ \<Rightarrow>
    (case detect (bw_restic b) (bw_rclone b) of
       Inl er \<Rightarrow> (Exits er, [], fs)
     | Inr v \<Rightarrow>
    (case load_identity (bw_codec b) (bw_load_io b) (bc_data_dir cfg) fs of
       Inl er \<Rightarrow> (Exits (Wrap ''loading identity'' er), [], fs)
     | Inr stored \<Rightarrow>
    (case bw_open_db b of
       Inl er \<Rightarrow> (Exits (Wrap ''opening database'' er), [], fs)
     | Inr _ \<Rightarrow>
    (case bw_dial b of
       Inl er \<Rightarrow> (Exits (Wrap ''creating gRPC client'' (Wrap (''dialing server at '' @ bc_server_url cfg) er)), [], fs)
     | Inr _ \<Rightarrow>
    (case stored of
       Some i \<Rightarrow> (Runs cfg i, [], fs)
     | None \<Rightarrow> first_registration b cfg v fs)))))))"

section \<open>Reconnecting\<close>

text \<open>
  One connection of the loop: how long \<open>Run\<close> stayed connected, and whether the context had
  been cancelled when it returned, or when the sleep after it ended.
\<close>

definition reconnect_initial_backoff :: int where "reconnect_initial_backoff = second"
definition reconnect_max_backoff :: int where "reconnect_max_backoff = 5 * 60 * second"
definition reconnect_healthy_threshold :: int where "reconnect_healthy_threshold = 30 * second"

record connection =
  cx_elapsed :: int
  cx_cancelled :: bool
  cx_cancelled_asleep :: bool

datatype reconnect_event = Connects | Flushes | Sleeps int | Returns

text \<open>The events of the loop while the connections last; nothing follows when the list ends.\<close>

fun reconnect_loop :: "int \<Rightarrow> bool \<Rightarrow> connection list \<Rightarrow> reconnect_event list" where
  "reconnect_loop b True cs = [Returns]"
| "reconnect_loop b False [] = []"
| "reconnect_loop b False (c # cs) = Connects #
    (if cx_cancelled c then [Returns]
     else let b1 = (if cx_elapsed c \<ge> reconnect_healthy_threshold then reconnect_initial_backoff else b)
          in Flushes # Sleeps b1 # reconnect_loop (min (b1 * 2) reconnect_max_backoff) (cx_cancelled_asleep c) cs)"

definition run_reconnect_loop :: "bool \<Rightarrow> connection list \<Rightarrow> reconnect_event list" where
  "run_reconnect_loop cancelled cs = reconnect_loop reconnect_initial_backoff cancelled cs"

section \<open>Properties\<close>

definition brief :: "connection \<Rightarrow> bool" where
  "brief c \<longleftrightarrow> cx_elapsed c < reconnect_healthy_threshold"

definition brief_run :: "nat \<Rightarrow> connection list \<Rightarrow> nat" where
  "brief_run k cs = (if list_all brief cs then k + length cs - 1 else length (takeWhile brief (rev cs)))"

lemma takeWhile_rev_snoc:
  "length (takeWhile brief (rev cs @ [c])) = (if list_all brief cs then length cs + (if brief c then 1 else 0)
     else length (takeWhile brief (rev cs)))"
proof (cases "list_all brief cs")
  case True
  then have "takeWhile brief (rev cs @ [c]) = rev cs @ takeWhile brief [c]" by (intro takeWhile_append2) (simp add: list_all_iff)
  then show ?thesis using True by simp
next
  case False
  then obtain x where "x \<in> set (rev cs)" "\<not> brief x" by (auto simp: list_all_iff)
  then have "takeWhile brief (rev cs @ [c]) = takeWhile brief (rev cs)" by (rule takeWhile_append1)
  then show ?thesis using False by simp
qed

lemma brief_run_Cons:
  "cs \<noteq> [] \<Longrightarrow> brief_run k (c # cs) = brief_run (if brief c then Suc k else 1) cs"
  by (cases "brief c"; cases "list_all brief cs") (auto simp: brief_run_def takeWhile_rev_snoc Suc_leI)

definition capped :: "nat \<Rightarrow> int" where
  "capped k = min (second * 2 ^ k) reconnect_max_backoff"

lemma capped_Suc: "min (capped k * 2) reconnect_max_backoff = capped (Suc k)"
  by (auto simp: capped_def reconnect_max_backoff_def)

lemma capped_0: "capped 0 = reconnect_initial_backoff"
  by (simp add: capped_def reconnect_max_backoff_def reconnect_initial_backoff_def)

lemma reconnect_loop_capped:
  assumes "\<forall>c \<in> set cs. \<not> cx_cancelled c \<and> \<not> cx_cancelled_asleep c"
  shows "reconnect_loop (capped k) False cs
    = concat (map (\<lambda>n. [Connects, Flushes, Sleeps (capped (brief_run k (take (Suc n) cs)))]) [0..<length cs])"
  using assms
proof (induction cs arbitrary: k)
  case (Cons c cs)
  let ?j = "if brief c then k else 0"
  have j: "(if cx_elapsed c \<ge> reconnect_healthy_threshold then reconnect_initial_backoff else capped k) = capped ?j"
    by (simp add: brief_def capped_0)
  have one: "brief_run k [c] = ?j" by (simp add: brief_run_def)
  have rest: "brief_run k (c # take (Suc n) cs) = brief_run (Suc ?j) (take (Suc n) cs)" if "n < length cs" for n
    using that by (subst brief_run_Cons) auto
  have "reconnect_loop (capped k) False (c # cs) = Connects # Flushes # Sleeps (capped ?j) # reconnect_loop (capped (Suc ?j)) False cs"
    using Cons.prems j by (simp add: Let_def capped_Suc)
  also have "reconnect_loop (capped (Suc ?j)) False cs
      = concat (map (\<lambda>n. [Connects, Flushes, Sleeps (capped (brief_run k (c # take (Suc n) cs)))]) [0..<length cs])"
    using Cons.prems by (subst Cons.IH) (auto intro!: arg_cong[where f = concat] map_cong simp: rest)
  finally show ?case by (simp add: one map_upt_Suc del: upt_Suc)
qed simp


lemma boot_cases:
  assumes "boot b fs = (r, reqs, fs')" and "load_boot_config (bw_environ b) (bw_hostname b) = Inr cfg"
  shows "(reqs = [] \<and> fs' = fs \<and> (\<forall>c i. r = Runs c i \<longrightarrow> c = cfg \<and> load_identity (bw_codec b) (bw_load_io b) (bc_data_dir cfg) fs = Inr (Some i)))
    \<or> (\<exists>v. load_identity (bw_codec b) (bw_load_io b) (bc_data_dir cfg) fs = Inr None \<and> first_registration b cfg v fs = (r, reqs, fs'))"
  using assms unfolding boot_def by (auto split: sum.splits option.splits)

lemma first_registration_cases:
  assumes "first_registration b cfg v fs = (r, reqs, fs')" and "fs (bw_tmp b) = None"
    and "bw_tmp b \<noteq> identity_path (bc_data_dir cfg)"
  shows "reqs = [register b v (bc_agent_name cfg)]
    \<and> (case r of Runs c i \<Rightarrow> c = cfg \<and> (\<exists>d. fc_marshal (bw_codec b) i = Inr d \<and> fs' = fs(identity_path (bc_data_dir cfg) \<mapsto> (d, True)))
       | _ \<Rightarrow> \<exists>f. fs' = fs(bw_tmp b := f))"
proof (cases "bw_register b (register b v (bc_agent_name cfg))")
  case (Inl er)
  then show ?thesis using assms(1) by (auto simp: first_registration_def Let_def intro!: exI[of _ "fs (bw_tmp b)"])
next
  case (Inr agentID)
  let ?i = "\<lparr>idn_agent_id = agentID, idn_api_key = ''''\<rparr>"
  obtain res fs1 where s: "save_identity (bw_codec b) (bw_save_io b) (bw_partial b) (bw_tmp b) (bc_data_dir cfg) ?i fs = (res, fs1)"
    by fastforce
  from save_identity_cases[OF assms(2,3) s] show ?thesis
    using assms(1) by (auto simp: first_registration_def Let_def Inr s split: run_outcome.splits sum.splits)
qed

lemma load_identity_found:
  "fs (identity_path dir) = Some (d, y) \<Longrightarrow> fc_unmarshal cd d = Inr i \<Longrightarrow> \<forall>er. io \<noteq> Io_fails er
    \<Longrightarrow> load_identity cd io dir fs = Inr (Some i)"
  by (cases io) (simp_all add: load_identity_def)


text \<open>
  A registration whose identity cannot be saved is lost: the server has answered it, but the
  next start finds no identity and registers again, under another id when the server gives one.
\<close>

theorem unsaved_registration_is_repeated:
  assumes "boot b fs = (r, [req], fs')" and "\<And>c i. r \<noteq> Runs c i"
    and "fs (bw_tmp b) = None" and "load_boot_config (bw_environ b) (bw_hostname b) = Inr cfg"
    and "bw_tmp b \<noteq> identity_path (bc_data_dir cfg)" and "fs (identity_path (bc_data_dir cfg)) = None"
    and "load_boot_config (bw_environ b2) (bw_hostname b2) = Inr cfg2" and "bc_data_dir cfg2 = bc_data_dir cfg"
    and "boot b2 (after_crash rot fs') = (Runs c2 i2, reqs2, fs2)"
  shows "length reqs2 = 1 \<and> bw_register b2 (reqs2 ! 0) = Inr (idn_agent_id i2)"
proof -
  have "\<exists>f. fs' = fs(bw_tmp b := f)"
    using boot_cases[OF assms(1,4)]
  proof (elim disjE conjE exE)
    fix v assume "first_registration b cfg v fs = (r, [req], fs')"
    from first_registration_cases[OF this assms(3,5)] show ?thesis using assms(2) by (auto split: boot_end.splits)
  qed simp
  then have n: "after_crash rot fs' (identity_path (bc_data_dir cfg2)) = None"
    using assms(5,6,8) by (auto simp: after_crash_def)
  from boot_cases[OF assms(9,7)] show ?thesis
  proof (elim disjE conjE exE)
    assume "\<forall>c i. Runs c2 i2 = Runs c i \<longrightarrow> c = cfg2 \<and> load_identity (bw_codec b2) (bw_load_io b2) (bc_data_dir cfg2) (after_crash rot fs') = Inr (Some i)"
    then have "load_identity (bw_codec b2) (bw_load_io b2) (bc_data_dir cfg2) (after_crash rot fs') = Inr (Some i2)" by simp
    then show ?thesis using n by (auto simp: load_identity_def split: io_outcome.splits)
  next
    fix v assume f: "first_registration b2 cfg2 v (after_crash rot fs') = (Runs c2 i2, reqs2, fs2)"
    then show ?thesis by (auto simp: first_registration_def Let_def split: sum.splits prod.splits run_outcome.splits)
  qed
qed


definition tool_prints :: "string \<Rightarrow> tool_run" where
  "tool_prints s = \<lparr>tr_stdout = s, tr_stderr = '''', tr_error = None\<rparr>"

definition demo_boot :: "(nat \<Rightarrow> io_outcome) \<Rightarrow> string \<Rightarrow> boot_world" where
  "demo_boot io agentID = \<lparr>bw_environ = [''BACKUP_SERVER_URL'' \<mapsto> ''server:8443'', ''BACKUP_DATA_DIR'' \<mapsto> ''/data''],
     bw_hostname = Inr ''web1'', bw_mkdir = Inr (), bw_restic = tool_prints ''restic 0.17.3 compiled'',
     bw_rclone = tool_prints ''rclone v1.68.0'', bw_load_io = Io_ok, bw_codec = demo_file_codec, bw_open_db = Inr (),
     bw_dial = Inr (), bw_register = (\<lambda>_. Inr agentID), bw_save_io = io, bw_partial = 0,
     bw_tmp = ''/data/identity.json.tmp.1'', bw_version = ''1.0'', bw_os = ''linux/amd64''\<rparr>"

definition demo_boot_config :: boot_config where
  "demo_boot_config = \<lparr>bc_server_url = ''server:8443'', bc_agent_name = ''web1'', bc_data_dir = ''/data'', bc_memory_max = 2000\<rparr>"

lemma demo_boot_cfg: "load_boot_config (bw_environ (demo_boot io a)) (bw_hostname (demo_boot io a)) = Inr demo_boot_config"
  by (simp add: load_boot_config_def demo_boot_def getenv_def load_outbox_def env_int_def demo_boot_config_def)

lemma demo_paths: "identity_path ''/data'' = ''/data/identity.json''" by code_simp

lemma demo_detect: "detect (tool_prints ''restic 0.17.3 compiled'') (tool_prints ''rclone v1.68.0'') = Inr (''0.17.3'', ''v1.68.0'')"
  by code_simp

lemma demo_boot_runs:
  "boot (demo_boot io a) Map.empty = first_registration (demo_boot io a) demo_boot_config (''0.17.3'', ''v1.68.0'') Map.empty"
  using demo_boot_cfg[of io a] by (simp add: boot_def demo_detect load_identity_def demo_boot_config_def demo_paths demo_boot_def)

lemma demo_tmp: "bw_tmp (demo_boot io a) \<noteq> identity_path (bc_data_dir demo_boot_config)"
  by (simp add: demo_boot_def demo_boot_config_def demo_paths)


theorem unsaved_registration_is_repeated_witness:
  "length (fst (snd (boot (demo_boot (\<lambda>_. Io_ok) ''b'')
     (after_crash (\<lambda>_ _. None) (snd (snd (boot (demo_boot (\<lambda>k. if k = 1 then Io_crash else Io_ok) ''a'') Map.empty))))))) = 1"
proof -
  let ?io = "\<lambda>k. if k = (1::nat) then Io_crash else Io_ok"
  let ?b = "demo_boot ?io ''a''" and ?b2 = "demo_boot (\<lambda>_. Io_ok) ''b''"
  obtain r reqs fs' where f: "boot ?b Map.empty = (r, reqs, fs')" by (metis prod.exhaust)
  then have r: "r = Stops" "reqs = [register ?b (''0.17.3'', ''v1.68.0'') ''web1'']" "fs' = Map.empty(bw_tmp ?b \<mapsto> ('''', False))"
    unfolding demo_boot_runs
    by (simp_all add: first_registration_def Let_def demo_boot_def demo_boot_config_def save_identity_def demo_file_codec_def
        atomic_write_def write_calls_def numeral_eq_Suc)
  have e: "after_crash (\<lambda>_ _. None) fs' = Map.empty" by (simp add: r(3) after_crash_def fun_eq_iff)
  have g: "boot ?b2 (after_crash (\<lambda>_ _. None) fs') = (Runs demo_boot_config \<lparr>idn_agent_id = ''b'', idn_api_key = ''''\<rparr>,
      [register ?b2 (''0.17.3'', ''v1.68.0'') ''web1''], snd (snd (boot ?b2 Map.empty)))"
    unfolding e demo_boot_runs
    by (simp add: first_registration_def Let_def demo_boot_def demo_boot_config_def save_identity_def demo_file_codec_def
        atomic_write_def write_calls_def)
  have "length [register ?b2 (''0.17.3'', ''v1.68.0'') ''web1''] = 1
      \<and> bw_register ?b2 ([register ?b2 (''0.17.3'', ''v1.68.0'') ''web1''] ! 0) = Inr ''b''"
    using unsaved_registration_is_repeated[OF f[unfolded r(1,2)] _ _ demo_boot_cfg demo_tmp _ demo_boot_cfg _ g] by simp
  then show ?thesis unfolding f g snd_conv fst_conv by (rule conjunct1)
qed

text \<open>
  C27. The loop waits, after its n-th connection, the initial backoff doubled once for every brief
  connection in a row before it, capped at the maximum; a connection that lasted resets the
  count; and every disconnection asks the outbox to deliver before the wait.
\<close>

theorem reconnect_is_capped_doubling:
  assumes "\<forall>c \<in> set cs. \<not> cx_cancelled c \<and> \<not> cx_cancelled_asleep c"
  shows "run_reconnect_loop False cs
    = concat (map (\<lambda>n. [Connects, Flushes,
        Sleeps (min (second * 2 ^ brief_run 0 (take (Suc n) cs)) reconnect_max_backoff)]) [0..<length cs])"
  unfolding run_reconnect_loop_def capped_0[symmetric] using reconnect_loop_capped[OF assms, of 0] by (simp add: capped_def)

theorem reconnect_is_capped_doubling_witness:
  "run_reconnect_loop False (map (\<lambda>t. \<lparr>cx_elapsed = t, cx_cancelled = False, cx_cancelled_asleep = False\<rparr>)
      [0, 0, 60 * second, 0])
   = [Connects, Flushes, Sleeps second, Connects, Flushes, Sleeps (2 * second), Connects, Flushes, Sleeps second,
      Connects, Flushes, Sleeps (2 * second)]"
proof -
  let ?cs = "map (\<lambda>t. \<lparr>cx_elapsed = t, cx_cancelled = False, cx_cancelled_asleep = False\<rparr>) [0, 0, 60 * second, 0]"
  have "run_reconnect_loop False ?cs
    = concat (map (\<lambda>n. [Connects, Flushes, Sleeps (min (second * 2 ^ brief_run 0 (take (Suc n) ?cs)) reconnect_max_backoff)]) [0..<length ?cs])"
    by (rule reconnect_is_capped_doubling) simp
  also have "[0..<length ?cs] = [0, 1, 2, 3]" by (simp add: upt_rec)
  finally show ?thesis
    by (simp add: brief_run_def brief_def reconnect_healthy_threshold_def reconnect_max_backoff_def numeral_eq_Suc)
qed

end
