(* ===== verification/SecretsMigration.thy ===== *)
theory SecretsMigration
  imports StoreInv
begin

text \<open>
  The pass over the tables that encrypts what was stored before encryption was turned on
  (\<open>migrateEncryption\<close> in server/internal/database/db.go).
\<close>

section \<open>The pass\<close>

text \<open>
  The rows whose value is neither empty nor encrypted, each with its new value; every value
  takes a tick for its nonce. The first failure ends the pass before any row is written.
\<close>

fun collect_updates ::
  "secrets \<Rightarrow> (string \<Rightarrow> string) \<Rightarrow> (string \<times> string) list \<Rightarrow> nat \<Rightarrow> (string \<times> string) list result \<times> nat" where
  "collect_updates k what [] t = (Inr [], t)"
| "collect_updates k what ((i, val) # rows) t =
    (if val \<noteq> '''' \<and> \<not> is_encrypted val then
       (case crypto_encrypt (sk_aead k) (sk_rand k t) (sk_key k) val of
          Inl er \<Rightarrow> (Inl (Wrap (what i) er), Suc t)
        | Inr c \<Rightarrow>
          (case collect_updates k what rows (Suc t) of
             (Inl er, t1) \<Rightarrow> (Inl er, t1)
           | (Inr us, t1) \<Rightarrow> (Inr ((i, c) # us), t1)))
     else collect_updates k what rows t)"

text \<open>One statement per row, each on its own.\<close>

fun apply_updates ::
  "server_env \<Rightarrow> ctx \<Rightarrow> (string \<Rightarrow> string) \<Rightarrow> (string \<times> string \<Rightarrow> store \<Rightarrow> store) \<Rightarrow> (string \<times> string) list \<Rightarrow> store
     \<Rightarrow> unit result \<times> store" where
  "apply_updates v c what effect [] s = (Inr (), s)"
| "apply_updates v c what effect (u # us) s =
    (case statement v c (what (fst u)) True (effect u) s of
       (Inl er, s1) \<Rightarrow> (Inl er, s1)
     | (Inr _, s1) \<Rightarrow> apply_updates v c what effect us s1)"

definition set_password :: "string \<times> string \<Rightarrow> store \<Rightarrow> store" where
  "set_password u s = s\<lparr>st_repos := map (\<lambda>r. if ry_id r = fst u then r\<lparr>ry_password := snd u\<rparr> else r) (st_repos s)\<rparr>"

definition set_rclone :: "string \<times> string \<Rightarrow> store \<Rightarrow> store" where
  "set_rclone u s = s\<lparr>st_agents := map (\<lambda>a. if ag_id a = fst u then a\<lparr>ag_rclone_config := Some (snd u)\<rparr> else a) (st_agents s)\<rparr>"

text \<open>The columns the pass reads: a repository always has a password, an agent may have no rclone configuration.\<close>

definition column_rows :: "('r \<Rightarrow> string) \<Rightarrow> ('r \<Rightarrow> string option) \<Rightarrow> 'r list \<Rightarrow> (string \<times> string) list" where
  "column_rows ident col rs = map (\<lambda>r. (ident r, the (col r))) (filter (\<lambda>r. col r \<noteq> None) rs)"

definition encrypt_column ::
  "secrets \<Rightarrow> server_env \<Rightarrow> ctx \<Rightarrow> string \<Rightarrow> (string \<Rightarrow> string) \<Rightarrow> (string \<times> string) list \<Rightarrow> (string \<times> string \<Rightarrow> store \<Rightarrow> store)
     \<Rightarrow> store \<Rightarrow> unit result \<times> store" where
  "encrypt_column k v c what named rows effect s =
    (case query v c (''query '' @ what) rows s of
       (Inl er, s1) \<Rightarrow> (Inl er, s1)
     | (Inr rs, s1) \<Rightarrow>
       (case collect_updates k (\<lambda>i. ''encrypt '' @ named i) rs (st_tick s1) of
          (Inl er, t) \<Rightarrow> (Inl er, s1\<lparr>st_tick := t\<rparr>)
        | (Inr us, t) \<Rightarrow> apply_updates v c (\<lambda>i. ''update '' @ named i) effect us (s1\<lparr>st_tick := t\<rparr>)))"

definition migrate_repository_passwords :: "secrets \<Rightarrow> server_env \<Rightarrow> ctx \<Rightarrow> store \<Rightarrow> unit result \<times> store" where
  "migrate_repository_passwords k v c s =
    encrypt_column k v c ''repository passwords'' (\<lambda>i. ''repository '' @ i @ '' password'')
      (column_rows ry_id (\<lambda>r. Some (ry_password r)) (st_repos s)) set_password s"

definition migrate_agent_rclone_configs :: "secrets \<Rightarrow> server_env \<Rightarrow> ctx \<Rightarrow> store \<Rightarrow> unit result \<times> store" where
  "migrate_agent_rclone_configs k v c s =
    encrypt_column k v c ''agent rclone configs'' (\<lambda>i. ''agent '' @ i @ '' rclone config'')
      (filter (\<lambda>r. snd r \<noteq> '''') (column_rows ag_id ag_rclone_config (st_agents s))) set_rclone s"

definition migrate_encryption :: "secrets \<Rightarrow> server_env \<Rightarrow> ctx \<Rightarrow> store \<Rightarrow> unit result \<times> store" where
  "migrate_encryption k v c s =
    (case migrate_repository_passwords k v c s of
       (Inl er, s1) \<Rightarrow> (Inl er, s1)
     | (Inr _, s1) \<Rightarrow> migrate_agent_rclone_configs k v c s1)"

section \<open>A column of secrets\<close>

definition good_key :: "secrets \<Rightarrow> bool" where
  "good_key k \<longleftrightarrow> lawful (sk_aead k) \<and> length (sk_key k) = 32 \<and> (\<forall>t n. sk_rand k t = Inr n \<longrightarrow> length n = nonce_size)"

text \<open>What an update must be: it replaces a value in the clear by one that reads as that value.\<close>

definition good_update :: "secrets \<Rightarrow> (string \<times> string) list \<Rightarrow> string \<times> string \<Rightarrow> bool" where
  "good_update k rows u \<longleftrightarrow> is_encrypted (snd u) \<and> snd u \<noteq> ''''
    \<and> (\<exists>val. (fst u, val) \<in> set rows \<and> unseal k (snd u) = Inr val \<and> unseal k val = Inr val)"

lemma unseal_plain: "good_key k \<Longrightarrow> \<not> is_encrypted val \<Longrightarrow> unseal k val = Inr val"
  by (simp add: unseal_def db_decrypt_def crypto_decrypt_def is_encrypted_def)

lemma collect_updates_good:
  assumes "collect_updates k what rows t = (Inr us, t')" and "good_key k"
  shows "(\<forall>u \<in> set us. good_update k rows u)
    \<and> (\<forall>r \<in> set rows. snd r \<noteq> '''' \<and> \<not> is_encrypted (snd r) \<longrightarrow> fst r \<in> fst ` set us)"
  using assms
proof (induction k what rows t arbitrary: us t' rule: collect_updates.induct)
  case (2 k what i val rows t)
  show ?case
  proof (cases "val \<noteq> '''' \<and> \<not> is_encrypted val")
    case True
    obtain c us1 where c: "crypto_encrypt (sk_aead k) (sk_rand k t) (sk_key k) val = Inr c"
      and us: "collect_updates k what rows (Suc t) = (Inr us1, t')" "us = (i, c) # us1"
      using 2(3) True by (auto split: sum.splits prod.splits)
    obtain n where n: "sk_rand k t = Inr n" "length n = nonce_size"
      using c 2(4) by (auto simp: crypto_encrypt_def good_key_def split: if_splits sum.splits)
    have d: "crypto_decrypt (sk_aead k) (sk_key k) c = Inr val"
      using decrypt_encrypt[of "sk_aead k" n "sk_key k" val c] c n 2(4) by (simp add: good_key_def)
    have "good_update k ((i, val) # rows) (i, c)"
      using d True c unseal_plain[OF 2(4), of val] encrypted_ne[OF c] 2(4)
      by (auto simp: good_update_def unseal_def db_decrypt_def is_encrypted_def crypto_encrypt_def good_key_def split: sum.splits)
    moreover have "\<forall>u \<in> set us1. good_update k ((i, val) # rows) u"
      using 2(1)[OF True c us(1) 2(4)] by (auto simp: good_update_def)
    ultimately show ?thesis using 2(1)[OF True c us(1) 2(4)] us(2) by auto
  next
    case False
    then have "collect_updates k what rows t = (Inr us, t')" using 2(3) by (simp split: if_splits)
    from 2(2)[OF False this 2(4)] False show ?thesis by (auto simp: good_update_def)
  qed
qed simp

definition write_row :: "('r \<Rightarrow> string) \<Rightarrow> (string \<Rightarrow> 'r \<Rightarrow> 'r) \<Rightarrow> (string \<times> string) list \<Rightarrow> 'r \<Rightarrow> 'r" where
  "write_row ident wr us r = fold (\<lambda>u r. if ident r = fst u then wr (snd u) r else r) us r"

text \<open>A row that reads as before: untouched, or with another form of the same secret.\<close>

definition keeps_secret :: "secrets \<Rightarrow> ('r \<Rightarrow> string option) \<Rightarrow> (string \<Rightarrow> 'r \<Rightarrow> 'r) \<Rightarrow> 'r \<Rightarrow> 'r \<Rightarrow> bool" where
  "keeps_secret k col wr r r' \<longleftrightarrow> r' = r \<or> (\<exists>c x. r' = wr c r \<and> col r = Some x \<and> c \<noteq> '''' \<and> unseal k c = unseal k x)"

definition sealed :: "('r \<Rightarrow> string option) \<Rightarrow> 'r \<Rightarrow> bool" where
  "sealed col r \<longleftrightarrow> (case col r of None \<Rightarrow> True | Some c \<Rightarrow> c = '''' \<or> is_encrypted c)"

text \<open>
  What the pass needs of a table with such a column: writing it leaves the row's key, is read
  back, and a second write replaces the first.
\<close>

locale secret_column =
  fixes ident :: "'r \<Rightarrow> string" and col :: "'r \<Rightarrow> string option" and wr :: "string \<Rightarrow> 'r \<Rightarrow> 'r"
  assumes ident_wr: "ident (wr c r) = ident r"
    and col_wr: "col (wr c r) = Some c"
    and wr_wr: "wr c (wr d r) = wr c r"
begin

lemma row_value:
  assumes "distinct (map ident rs)" and "r \<in> set rs" and "(ident r, val) \<in> set (column_rows ident col rs)"
  shows "col r = Some val"
proof -
  obtain r1 where r1: "r1 \<in> set rs" "ident r1 = ident r" "col r1 = Some val"
    using assms(3) by (auto simp: column_rows_def)
  then have "r1 = r" using assms(1,2) by (auto simp: distinct_map inj_on_def)
  then show ?thesis using r1(3) by simp
qed

lemma write_row_keeps:
  assumes "distinct (map ident rs)" and "r \<in> set rs" and "\<forall>u \<in> set us. good_update k (column_rows ident col rs) u"
  shows "keeps_secret k col wr r (write_row ident wr us r) \<and> ident (write_row ident wr us r) = ident r"
  using assms(3)
proof (induction us rule: rev_induct)
  case (snoc u us)
  let ?r = "write_row ident wr us r"
  have ih: "keeps_secret k col wr r ?r" "ident ?r = ident r" using snoc by auto
  have step: "write_row ident wr (us @ [u]) r = (if ident r = fst u then wr (snd u) ?r else ?r)"
    using ih(2) by (simp add: write_row_def)
  show ?case
  proof (cases "ident r = fst u")
    case True
    obtain val where val: "(fst u, val) \<in> set (column_rows ident col rs)" "unseal k (snd u) = Inr val" "unseal k val = Inr val"
      and ne: "snd u \<noteq> ''''" using snoc.prems by (auto simp: good_update_def)
    have "col r = Some val" using row_value[OF assms(1,2)] val(1) True by simp
    moreover have "wr (snd u) ?r = wr (snd u) r" using ih(1) wr_wr by (auto simp: keeps_secret_def)
    ultimately show ?thesis using step True val ne ident_wr by (auto simp: keeps_secret_def)
  next
    case False
    then show ?thesis using step ih by simp
  qed
qed (simp add: write_row_def keeps_secret_def)

lemma write_row_sealed:
  assumes "\<forall>u \<in> set us. is_encrypted (snd u)" and "ident r \<in> fst ` set us"
  shows "sealed col (write_row ident wr us r)"
  using assms
proof (induction us rule: rev_induct)
  case (snoc u us)
  let ?r = "write_row ident wr us r"
  have id: "ident ?r = ident r" by (induction us rule: rev_induct) (auto simp: write_row_def ident_wr)
  show ?case
  proof (cases "ident r = fst u")
    case True
    then show ?thesis using snoc.prems id by (simp add: write_row_def[of _ _ "us @ [u]"] write_row_def[symmetric] sealed_def col_wr)
  next
    case False
    then have "ident r \<in> fst ` set us" using snoc.prems by auto
    then show ?thesis using snoc False id by (simp add: write_row_def)
  qed
qed simp

lemma write_row_other: "ident r \<notin> fst ` set us \<Longrightarrow> write_row ident wr us r = r"
  by (induction us) (auto simp: write_row_def)

text \<open>The whole column: every prefix of the updates keeps the secrets, all of them seal the column.\<close>

lemma column_encrypted:
  assumes "collect_updates k what rows t = (Inr us, t')" and "good_key k" and "distinct (map ident rs)"
    and "set rows \<subseteq> set (column_rows ident col rs)"
    and "\<forall>p \<in> set (column_rows ident col rs). snd p \<noteq> '''' \<longrightarrow> p \<in> set rows" and "r \<in> set rs"
  shows "keeps_secret k col wr r (write_row ident wr (take n us) r)
    \<and> (length us \<le> n \<longrightarrow> sealed col (write_row ident wr (take n us) r))"
proof
  note us = collect_updates_good[OF assms(1,2)]
  have "good_update k (column_rows ident col rs) u" if "u \<in> set us" for u
    using us that assms(4) unfolding good_update_def by blast
  then have "\<forall>u \<in> set (take n us). good_update k (column_rows ident col rs) u" using in_set_takeD by fastforce
  from write_row_keeps[OF assms(3,6) this] show "keeps_secret k col wr r (write_row ident wr (take n us) r)" by simp
  have "sealed col (write_row ident wr us r)"
  proof (cases "ident r \<in> fst ` set us")
    case True
    then show ?thesis using us by (intro write_row_sealed) (auto simp: good_update_def)
  next
    case False
    have "sealed col r"
    proof (cases "col r")
      case (Some x)
      then have "(ident r, x) \<in> set (column_rows ident col rs)" using assms(6) by (force simp: column_rows_def)
      then have "x = '''' \<or> is_encrypted x" using us assms(5) False by (metis fst_conv snd_conv)
      then show ?thesis using Some by (simp add: sealed_def)
    qed (simp add: sealed_def)
    then show ?thesis using write_row_other[OF False] by simp
  qed
  then show "length us \<le> n \<longrightarrow> sealed col (write_row ident wr (take n us) r)" by simp
qed

end

interpretation passwords: secret_column ry_id "\<lambda>r. Some (ry_password r)" "\<lambda>c r. r\<lparr>ry_password := c\<rparr>"
  by unfold_locales simp_all

interpretation rclone: secret_column ag_id ag_rclone_config "\<lambda>c a. a\<lparr>ag_rclone_config := Some c\<rparr>"
  by unfold_locales simp_all

section \<open>Properties\<close>

lemma apply_updates_prefix:
  assumes "\<And>u s t. effect u (s\<lparr>st_tick := t\<rparr>) = (effect u s)\<lparr>st_tick := t\<rparr>"
    and "apply_updates v c what effect us s = (res, s')"
  shows "\<exists>n t. s' = (fold effect (take n us) s)\<lparr>st_tick := t\<rparr> \<and> (res = Inr () \<longrightarrow> length us \<le> n)"
  using assms(2)
proof (induction us arbitrary: s)
  case Nil
  then show ?case by (auto intro!: exI[of _ 0] exI[of _ "st_tick s"])
next
  case (Cons u us)
  have fold_tick: "fold effect xs (s\<lparr>st_tick := t\<rparr>) = (fold effect xs s)\<lparr>st_tick := t\<rparr>" for xs s t
    by (induction xs arbitrary: s) (simp_all add: assms(1))
  obtain r s1 where st: "statement v c (what (fst u)) True (effect u) s = (r, s1)" by fastforce
  from statement_cases[OF st] show ?case
  proof (elim disjE exE conjE)
    fix er t assume "r = Inl er" "s1 = s\<lparr>st_tick := t\<rparr>"
    then have "res = Inl er" "s' = s\<lparr>st_tick := t\<rparr>" using Cons.prems st by simp_all
    then show ?thesis by - (rule exI[of _ 0], rule exI[of _ t], simp)
  next
    fix t assume r: "r = Inr ()" "s1 = (effect u s)\<lparr>st_tick := t\<rparr>"
    then have "apply_updates v c what effect us s1 = (res, s')" using Cons.prems st by simp
    from Cons.IH[OF this] obtain n t1 where "s' = (fold effect (take n us) s1)\<lparr>st_tick := t1\<rparr>" "res = Inr () \<longrightarrow> length us \<le> n"
      by blast
    then show ?thesis using r(2) by (intro exI[of _ "Suc n"] exI[of _ t1]) (simp add: fold_tick)
  qed
qed

lemma write_row_Nil [simp]: "write_row ident wr [] = (\<lambda>r. r)"
  by (simp add: write_row_def fun_eq_iff)

lemma fold_set_password:
  "fold set_password us s = s\<lparr>st_repos := map (write_row ry_id (\<lambda>c r. r\<lparr>ry_password := c\<rparr>) us) (st_repos s)\<rparr>"
proof (induction us arbitrary: s)
  case (Cons u us)
  then show ?case by (simp add: set_password_def write_row_def comp_def if_distrib cong: if_cong)
qed simp

lemma fold_set_rclone:
  "fold set_rclone us s = s\<lparr>st_agents := map (write_row ag_id (\<lambda>c a. a\<lparr>ag_rclone_config := Some c\<rparr>) us) (st_agents s)\<rparr>"
proof (induction us arbitrary: s)
  case (Cons u us)
  then show ?case by (simp add: set_rclone_def write_row_def comp_def if_distrib cong: if_cong)
qed simp

lemma encrypt_column_prefix:
  assumes "encrypt_column k v c what named rows effect s = (res, s')"
    and "\<And>u s t. effect u (s\<lparr>st_tick := t\<rparr>) = (effect u s)\<lparr>st_tick := t\<rparr>"
  shows "(\<exists>er t. res = Inl er \<and> s' = s\<lparr>st_tick := t\<rparr>)
    \<or> (\<exists>w t0 us t n t1. collect_updates k w rows t0 = (Inr us, t) \<and> s' = (fold effect (take n us) s)\<lparr>st_tick := t1\<rparr>
        \<and> (res = Inr () \<longrightarrow> length us \<le> n))"
proof -
  have fold_tick: "fold effect xs (s\<lparr>st_tick := t\<rparr>) = (fold effect xs s)\<lparr>st_tick := t\<rparr>" for xs s t
    by (induction xs arbitrary: s) (simp_all add: assms(2))
  obtain q s1 where q: "query v c (''query '' @ what) rows s = (q, s1)" by fastforce
  from query_cases[OF q] have s1: "s1 = s\<lparr>st_tick := Suc (st_tick s)\<rparr>" "\<forall>y. q = Inr y \<longrightarrow> y = rows" by auto
  show ?thesis
  proof (cases q)
    case (Inl er)
    then show ?thesis using assms(1) q s1 by (auto simp: encrypt_column_def)
  next
    case (Inr rs)
    then have rs: "rs = rows" using s1 by simp
    obtain r t where cu: "collect_updates k (\<lambda>i. ''encrypt '' @ named i) rows (st_tick s1) = (r, t)" by fastforce
    show ?thesis
    proof (cases r)
      case (Inl er)
      then have "res = Inl er \<and> s' = s1\<lparr>st_tick := t\<rparr>" using assms(1) q cu by (simp add: encrypt_column_def Inr rs)
      then show ?thesis using s1(1) by auto
    next
      case us: (Inr us)
      then have "apply_updates v c (\<lambda>i. ''update '' @ named i) effect us (s1\<lparr>st_tick := t\<rparr>) = (res, s')"
        using assms(1) q cu by (simp add: encrypt_column_def Inr rs)
      from apply_updates_prefix[OF assms(2) this] obtain n t1
        where "s' = (fold effect (take n us) s)\<lparr>st_tick := t1\<rparr>" "res = Inr () \<longrightarrow> length us \<le> n" by (auto simp: s1(1) fold_tick)
      then show ?thesis using cu us by blast
    qed
  qed
qed


lemma password_tick: "set_password u (s\<lparr>st_tick := t\<rparr>) = (set_password u s)\<lparr>st_tick := t\<rparr>"
  by (simp add: set_password_def)

lemma rclone_tick: "set_rclone u (s\<lparr>st_tick := t\<rparr>) = (set_rclone u s)\<lparr>st_tick := t\<rparr>"
  by (simp add: set_rclone_def)

text \<open>What the pass does to the two tables, whether or not it gets to its end.\<close>

definition reads_as :: "secrets \<Rightarrow> store \<Rightarrow> store \<Rightarrow> bool" where
  "reads_as k s s' \<longleftrightarrow>
    (\<exists>f g t. s' = s\<lparr>st_repos := map f (st_repos s), st_agents := map g (st_agents s), st_tick := t\<rparr>
      \<and> (\<forall>r \<in> set (st_repos s). keeps_secret k (\<lambda>r. Some (ry_password r)) (\<lambda>c r. r\<lparr>ry_password := c\<rparr>) r (f r))
      \<and> (\<forall>a \<in> set (st_agents s). keeps_secret k ag_rclone_config (\<lambda>c a. a\<lparr>ag_rclone_config := Some c\<rparr>) a (g a)))"

lemma keeps_secret_refl: "keeps_secret k col wr r r"
  by (simp add: keeps_secret_def)

lemma passwords_encrypted:
  assumes "migrate_repository_passwords k v c s = (res, s1)" and "good_key k" and "distinct (repo_ids s)"
  shows "\<exists>f t. s1 = s\<lparr>st_repos := map f (st_repos s), st_tick := t\<rparr>
    \<and> (\<forall>r \<in> set (st_repos s). keeps_secret k (\<lambda>r. Some (ry_password r)) (\<lambda>c r. r\<lparr>ry_password := c\<rparr>) r (f r)
        \<and> (res = Inr () \<longrightarrow> sealed (\<lambda>r. Some (ry_password r)) (f r)))"
  using encrypt_column_prefix[OF assms(1)[unfolded migrate_repository_passwords_def] password_tick]
proof (elim disjE exE conjE)
  fix er t assume "res = Inl er" "s1 = s\<lparr>st_tick := t\<rparr>"
  then show ?thesis by (intro exI[of _ "\<lambda>r. r"] exI[of _ t]) (simp add: keeps_secret_refl)
next
  fix w t0 us t n t1
  assume us: "collect_updates k w (column_rows ry_id (\<lambda>r. Some (ry_password r)) (st_repos s)) t0 = (Inr us, t)"
    and s1: "s1 = (fold set_password (take n us) s)\<lparr>st_tick := t1\<rparr>" "res = Inr () \<longrightarrow> length us \<le> n"
  show ?thesis
    using passwords.column_encrypted[OF us assms(2,3) subset_refl, where n = n] s1
    by (intro exI[of _ "write_row ry_id (\<lambda>c r. r\<lparr>ry_password := c\<rparr>) (take n us)"] exI[of _ t1]) (simp add: fold_set_password)
qed

lemma rclone_encrypted:
  assumes "migrate_agent_rclone_configs k v c s = (res, s1)" and "good_key k" and "distinct (agent_ids s)"
  shows "\<exists>g t. s1 = s\<lparr>st_agents := map g (st_agents s), st_tick := t\<rparr>
    \<and> (\<forall>a \<in> set (st_agents s). keeps_secret k ag_rclone_config (\<lambda>c a. a\<lparr>ag_rclone_config := Some c\<rparr>) a (g a)
        \<and> (res = Inr () \<longrightarrow> sealed ag_rclone_config (g a)))"
  using encrypt_column_prefix[OF assms(1)[unfolded migrate_agent_rclone_configs_def] rclone_tick]
proof (elim disjE exE conjE)
  fix er t assume "res = Inl er" "s1 = s\<lparr>st_tick := t\<rparr>"
  then show ?thesis by (intro exI[of _ "\<lambda>a. a"] exI[of _ t]) (simp add: keeps_secret_refl)
next
  fix w t0 us t n t1
  assume us: "collect_updates k w (filter (\<lambda>r. snd r \<noteq> '''') (column_rows ag_id ag_rclone_config (st_agents s))) t0 = (Inr us, t)"
    and s1: "s1 = (fold set_rclone (take n us) s)\<lparr>st_tick := t1\<rparr>" "res = Inr () \<longrightarrow> length us \<le> n"
  show ?thesis
    using rclone.column_encrypted[OF us assms(2,3), where n = n] s1
    by (intro exI[of _ "write_row ag_id (\<lambda>c a. a\<lparr>ag_rclone_config := Some c\<rparr>) (take n us)"] exI[of _ t1]) (simp add: fold_set_rclone)
qed



definition plain_store :: store where
  "plain_store = empty_store\<lparr>st_agents := [demo_agent\<lparr>ag_rclone_config := Some ''[s3]''\<rparr>],
     st_repos := [\<lparr>ry_id = ''r1'', ry_name = ''one'', ry_scope = ''global'', ry_agent_id = None, ry_type = ''local'',
       ry_path = ''/r'', ry_password = ''hunter2'', ry_created_at = 0, ry_updated_at = 0\<rparr>]\<rparr>"

definition keyed :: secrets where
  "keyed = \<lparr>sk_aead = toy_aead, sk_key = replicate 32 (CHR ''k''), sk_rand = \<lambda>_. Inr (replicate 12 (CHR ''n''))\<rparr>"


end
