(* ===== verification/ServerSchema.thy ===== *)
theory ServerSchema
  imports GoStrings
begin

text \<open>
  The schema of the server's database as tables with columns and rows
  (server/internal/database/migrations.go): the statements of the migration, which leave a
  table that exists as it is, and the addition of columns that an older table lacks.
\<close>

section \<open>Tables\<close>

datatype sql_value = Sql_null | Sql_int int | Sql_text string | Sql_blob string

record table =
  tb_columns :: "string list"
  tb_rows :: "sql_value list list"

record rel_db =
  rd_tables :: "(string \<times> table) list"
  rd_tick :: nat

definition table_of :: "string \<Rightarrow> rel_db \<Rightarrow> table option" where
  "table_of t db = map_of (rd_tables db) t"

definition columns_of :: "string \<Rightarrow> rel_db \<Rightarrow> string list" where
  "columns_of t db = (case table_of t db of None \<Rightarrow> [] | Some tb \<Rightarrow> tb_columns tb)"

definition rd_next :: "rel_db \<Rightarrow> rel_db" where
  "rd_next db = db\<lparr>rd_tick := Suc (rd_tick db)\<rparr>"

text \<open>A statement: its fault, an error of the database itself, or its effect.\<close>

definition rd_exec :: "env \<Rightarrow> ctx \<Rightarrow> (rel_db \<Rightarrow> rel_db result) \<Rightarrow> rel_db \<Rightarrow> unit result \<times> rel_db" where
  "rd_exec e c f db =
    (case sql_outcome e c (rd_tick db) of
       Some er \<Rightarrow> (Inl er, rd_next db)
     | None \<Rightarrow> (case f db of Inl er \<Rightarrow> (Inl er, rd_next db) | Inr db1 \<Rightarrow> (Inr (), db1\<lparr>rd_tick := Suc (rd_tick db)\<rparr>)))"

section \<open>The schema\<close>

text \<open>Indexes, defaults and constraints are left out here.\<close>

definition server_schema :: "(string \<times> string list) list" where
  "server_schema =
    [(''agents'', [''id'', ''name'', ''hostname'', ''os'', ''status'', ''api_key'', ''agent_version'', ''restic_version'',
        ''rclone_version'', ''rclone_config'', ''last_heartbeat'', ''last_job_at'', ''config_version'', ''config_applied_at'',
        ''command_timeouts'', ''outbox_overrides'', ''created_at'', ''updated_at'']),
     (''repositories'', [''id'', ''name'', ''scope'', ''agent_id'', ''type'', ''path'', ''password'', ''created_at'', ''updated_at'']),
     (''settings'', [''key'', ''value'']),
     (''scripts'', [''id'', ''name'', ''type'', ''command'', ''timeout'', ''on_error'', ''created_at'', ''updated_at'']),
     (''backup_plans'', [''id'', ''name'', ''agent_id'', ''paths'', ''excludes'', ''tags'', ''schedule'', ''forget_after_backup'',
        ''prune_after_forget'', ''prune_schedule'', ''retention'', ''enabled'', ''created_at'', ''updated_at'']),
     (''backup_plan_repositories'', [''backup_plan_id'', ''repository_id'']),
     (''plan_hooks'', [''id'', ''backup_plan_id'', ''on_event'', ''sort_order'', ''script_id'', ''type'', ''command'', ''timeout'',
        ''on_error'', ''created_at'', ''updated_at'']),
     (''jobs'', [''id'', ''agent_id'', ''plan_id'', ''plan_name'', ''type'', ''trigger'', ''status'', ''started_at'', ''finished_at'',
        ''log_tail'', ''created_at'']),
     (''job_repository_results'', [''id'', ''job_id'', ''repository_id'', ''repository_name'', ''status'', ''snapshot_id'', ''error'',
        ''files_new'', ''files_changed'', ''files_unmodified'', ''bytes_added'', ''total_bytes'', ''duration_ms'']),
     (''job_hook_results'', [''id'', ''job_id'', ''hook_name'', ''phase'', ''status'', ''error'', ''duration_ms''])]"

definition create_table :: "string \<times> string list \<Rightarrow> rel_db \<Rightarrow> rel_db result" where
  "create_table d db =
    Inr (if table_of (fst d) db \<noteq> None then db
         else db\<lparr>rd_tables := rd_tables db @ [(fst d, \<lparr>tb_columns = snd d, tb_rows = []\<rparr>)]\<rparr>)"

fun run_script :: "env \<Rightarrow> ctx \<Rightarrow> (string \<times> string list) list \<Rightarrow> rel_db \<Rightarrow> unit result \<times> rel_db" where
  "run_script e c [] db = (Inr (), db)"
| "run_script e c (d # ds) db = res_bind (rd_exec e c (create_table d) db) (\<lambda>_. run_script e c ds)"

section \<open>Missing columns\<close>

definition is_missing_column_error :: "go_error \<Rightarrow> bool" where
  "is_missing_column_error er =
    (let msg = to_lower (error_text er)
     in contains msg ''no such column'' \<or> contains msg ''has no column named'' \<or> contains msg ''unknown column'')"

text \<open>
  The pragma, and the projection when the pragma is rejected; a projection on a column that
  is not there fails with an error that says so.
\<close>

definition has_column :: "env \<Rightarrow> ctx \<Rightarrow> string \<Rightarrow> string \<Rightarrow> rel_db \<Rightarrow> bool result \<times> rel_db" where
  "has_column e c t col db =
    (case sql_outcome e c (rd_tick db) of
       None \<Rightarrow> (Inr (col \<in> set (columns_of t db)), rd_next db)
     | Some er \<Rightarrow>
       (let db1 = rd_next db;
            failed = (\<lambda>er2. (if is_missing_column_error er2 then Inr False
              else Inl (Wrap (''check column '' @ t @ ''.'' @ col @ '': pragma rejected ('' @ error_text er @ ''); projection'') er2)))
        in case sql_outcome e c (rd_tick db1) of
             Some er2 \<Rightarrow> (failed er2, rd_next db1)
           | None \<Rightarrow>
             ((if table_of t db1 = None then failed (Msg (''no such table: '' @ t))
               else if col \<in> set (columns_of t db1) then Inr True
               else failed (Msg (''no such column: '' @ col))), rd_next db1)))"

definition widen :: "string \<Rightarrow> table \<Rightarrow> table" where
  "widen col tb = tb\<lparr>tb_columns := tb_columns tb @ [col], tb_rows := map (\<lambda>r. r @ [Sql_null]) (tb_rows tb)\<rparr>"

definition add_column :: "string \<Rightarrow> string \<Rightarrow> rel_db \<Rightarrow> rel_db result" where
  "add_column t col db =
    (if table_of t db = None then Inl (Msg (''no such table: '' @ t))
     else if col \<in> set (columns_of t db) then Inl (Msg (''duplicate column name: '' @ col))
     else Inr (db\<lparr>rd_tables := map (\<lambda>(n, tb). (n, if n = t then widen col tb else tb)) (rd_tables db)\<rparr>))"

definition add_column_if_missing :: "env \<Rightarrow> ctx \<Rightarrow> string \<Rightarrow> string \<Rightarrow> rel_db \<Rightarrow> unit result \<times> rel_db" where
  "add_column_if_missing e c t col db =
    (case has_column e c t col db of
       (Inl er, db1) \<Rightarrow> (Inl er, db1)
     | (Inr True, db1) \<Rightarrow> (Inr (), db1)
     | (Inr False, db1) \<Rightarrow>
       (case rd_exec e c (add_column t col) db1 of
          (Inr _, db2) \<Rightarrow> (Inr (), db2)
        | (Inl er, db2) \<Rightarrow>
          (case has_column e c t col db2 of
             (Inr True, db3) \<Rightarrow> (Inr (), db3)
           | (_, db3) \<Rightarrow> (Inl (Wrap (''alter table '' @ t @ '' add '' @ col) er), db3))))"

definition wrapped :: "string \<Rightarrow> 'a result \<times> 's \<Rightarrow> 'a result \<times> 's" where
  "wrapped what m = (case m of (Inl er, s) \<Rightarrow> (Inl (Wrap what er), s) | (Inr x, s) \<Rightarrow> (Inr x, s))"

definition migrate :: "env \<Rightarrow> ctx \<Rightarrow> rel_db \<Rightarrow> unit result \<times> rel_db" where
  "migrate e c db =
    res_bind (wrapped ''execute migration SQL'' (run_script e c server_schema db)) (\<lambda>_ db1.
    res_bind (wrapped ''add agents.command_timeouts column'' (add_column_if_missing e c ''agents'' ''command_timeouts'' db1)) (\<lambda>_ db2.
    wrapped ''add agents.outbox_overrides column'' (add_column_if_missing e c ''agents'' ''outbox_overrides'' db2)))"

section \<open>What a migration keeps\<close>

text \<open>A table that has gained columns, which are null in the rows it had.\<close>

definition widened :: "table \<Rightarrow> table \<Rightarrow> bool" where
  "widened tb tb' \<longleftrightarrow> (\<exists>extra. tb_columns tb' = tb_columns tb @ extra
     \<and> tb_rows tb' = map (\<lambda>r. r @ replicate (length extra) Sql_null) (tb_rows tb))"

definition grows :: "rel_db \<Rightarrow> rel_db \<Rightarrow> bool" where
  "grows db db' \<longleftrightarrow> (\<forall>t tb. table_of t db = Some tb \<longrightarrow> (\<exists>tb'. table_of t db' = Some tb' \<and> widened tb tb'))"

lemma widened_refl: "widened tb tb"
  by (simp add: widened_def)

lemma widened_trans: "widened a b \<Longrightarrow> widened b d \<Longrightarrow> widened a d"
  by (auto simp: widened_def replicate_add)

lemma grows_refl: "grows db db"
  by (simp add: grows_def widened_refl)

lemma grows_trans: "grows a b \<Longrightarrow> grows b d \<Longrightarrow> grows a d"
  unfolding grows_def by (meson widened_trans)

lemma rd_next_simps [simp]:
  "table_of t (rd_next db) = table_of t db" "columns_of t (rd_next db) = columns_of t db" "rd_tick (rd_next db) = Suc (rd_tick db)"
  "table_of t (db\<lparr>rd_tick := k\<rparr>) = table_of t db" "columns_of t (db\<lparr>rd_tick := k\<rparr>) = columns_of t db"
  by (simp_all add: rd_next_def table_of_def columns_of_def)

lemma grows_next [simp]: "grows db (rd_next db)" "grows a (b\<lparr>rd_tick := k\<rparr>) = grows a b"
  by (simp_all add: grows_def widened_refl)

lemma rd_exec_cases:
  "rd_exec e c f db = (r, db') \<Longrightarrow> (\<exists>er. r = Inl er \<and> db' = rd_next db) \<or> (\<exists>d. r = Inr () \<and> f db = Inr d \<and> db' = d\<lparr>rd_tick := Suc (rd_tick db)\<rparr>)"
  by (auto simp: rd_exec_def split: option.splits sum.splits)

lemma table_of_create:
  "create_table d db = Inr db' \<Longrightarrow> table_of t db' =
    (case table_of t db of Some tb \<Rightarrow> Some tb
     | None \<Rightarrow> if t = fst d then Some \<lparr>tb_columns = snd d, tb_rows = []\<rparr> else None)"
  by (auto simp: create_table_def table_of_def map_add_def split: if_splits option.splits)

lemma create_grows: "create_table d db = Inr db' \<Longrightarrow> grows db db'"
  using table_of_create[of d db db'] by (simp add: grows_def widened_refl)

lemma map_of_widen:
  "map_of (map (\<lambda>(n, tb). (n, if n = t then widen col tb else tb)) xs) n
    = (if n = t then map_option (widen col) (map_of xs n) else map_of xs n)"
  by (induction xs) auto

lemma table_of_add:
  "add_column t col db = Inr db' \<Longrightarrow> table_of n db' = (if n = t then map_option (widen col) (table_of n db) else table_of n db)"
  by (auto simp: add_column_def table_of_def map_of_widen split: if_splits)

lemma widened_widen: "widened tb (widen col tb)"
  unfolding widened_def widen_def by (rule exI[of _ "[col]"]) simp

lemma add_grows: "add_column t col db = Inr db' \<Longrightarrow> grows db db'"
  using table_of_add[of t col db db'] by (auto simp: grows_def widened_refl widened_widen)


lemma run_script_keeps:
  assumes "run_script e c ds db = (r, db')" and "distinct (map fst ds)"
  shows "grows db db'
    \<and> (r = Inr () \<longrightarrow> (\<forall>(n, cols) \<in> set ds. table_of n db' =
         (case table_of n db of Some tb \<Rightarrow> Some tb | None \<Rightarrow> Some \<lparr>tb_columns = cols, tb_rows = []\<rparr>)))
    \<and> (\<forall>n. n \<notin> fst ` set ds \<longrightarrow> table_of n db' = table_of n db)"
  using assms
proof (induction ds arbitrary: db)
  case Nil
  then show ?case by (simp add: grows_refl)
next
  case (Cons d ds)
  obtain q db1 where x: "rd_exec e c (create_table d) db = (q, db1)" by fastforce
  from rd_exec_cases[OF x] show ?case
  proof (elim disjE exE conjE)
    fix er assume "q = Inl er" "db1 = rd_next db"
    then have "r = Inl er" "db' = rd_next db" using Cons.prems(1) x by simp_all
    then show ?thesis by simp
  next
    fix d1 assume q: "q = Inr ()" "create_table d db = Inr d1" "db1 = d1\<lparr>rd_tick := Suc (rd_tick db)\<rparr>"
    then have rest: "run_script e c ds db1 = (r, db')" using Cons.prems(1) x by simp
    note t = table_of_create[OF q(2)]
    have g: "grows db db1" using create_grows[OF q(2)] q(3) by simp
    from Cons.IH[OF rest] Cons.prems(2) have ih: "grows db1 db'"
      "r = Inr () \<Longrightarrow> (n, cols) \<in> set ds \<Longrightarrow> table_of n db' = (case table_of n db1 of Some tb \<Rightarrow> Some tb | None \<Rightarrow> Some \<lparr>tb_columns = cols, tb_rows = []\<rparr>)"
      "n \<notin> fst ` set ds \<Longrightarrow> table_of n db' = table_of n db1" for n cols by auto
    have "table_of (fst d) db' = (case table_of (fst d) db of Some tb \<Rightarrow> Some tb | None \<Rightarrow> Some \<lparr>tb_columns = snd d, tb_rows = []\<rparr>)"
      using ih(3)[of "fst d"] Cons.prems(2) t q(3) by (auto split: option.splits)
    note head = this
    have other: "table_of n db1 = table_of n db" if "n \<noteq> fst d" for n using t q(3) that by (auto split: option.splits)
    have "table_of n db' = (case table_of n db of Some tb \<Rightarrow> Some tb | None \<Rightarrow> Some \<lparr>tb_columns = cols, tb_rows = []\<rparr>)"
      if "r = Inr ()" "(n, cols) \<in> set (d # ds)" for n cols
    proof (cases "(n, cols) = d")
      case True
      then show ?thesis using head by (metis fst_conv snd_conv)
    next
      case False
      then have m: "(n, cols) \<in> set ds" using that(2) by simp
      have "fst d \<notin> fst ` set ds" using Cons.prems(2) by simp
      then have "n \<noteq> fst d" using m image_iff by fastforce
      then show ?thesis using ih(2)[OF that(1) m] other by simp
    qed
    moreover have "table_of n db' = table_of n db" if "n \<notin> fst ` set (d # ds)" for n
      using ih(3)[of n] other[of n] that by simp
    ultimately show ?thesis using grows_trans[OF g ih(1)] by blast
  qed
qed

lemma has_column_db: "has_column e c t col db = (r, db') \<Longrightarrow> (\<forall>n. table_of n db' = table_of n db)"
  by (auto simp: has_column_def Let_def split: option.splits)

lemma has_column_true: "has_column e c t col db = (Inr True, db') \<Longrightarrow> col \<in> set (columns_of t db)"
  by (auto simp: has_column_def Let_def split: option.splits if_splits)

lemma grows_same: "(\<And>n. table_of n db' = table_of n db) \<Longrightarrow> grows db db'"
  by (simp add: grows_def widened_refl)

lemma columns_same: "(\<And>n. table_of n db' = table_of n db) \<Longrightarrow> columns_of t db' = columns_of t db"
  by (simp add: columns_of_def)

lemma add_column_if_missing_cases:
  assumes "add_column_if_missing e c t col db = (r, db')"
  shows "grows db db' \<and> (r = Inr () \<longrightarrow> col \<in> set (columns_of t db'))"
proof -
  obtain q db1 where h: "has_column e c t col db = (q, db1)" by fastforce
  have same1: "table_of n db1 = table_of n db" for n using has_column_db[OF h] by simp
  show ?thesis
  proof (cases "q = Inr False")
    case False
    then have "db' = db1" "r = Inr () \<Longrightarrow> q = Inr True"
      using assms h by (auto simp: add_column_if_missing_def split: sum.splits if_splits bool.splits)
    then show ?thesis using same1 has_column_true[of e c t col db db1] h by (auto simp: grows_same columns_same[OF same1])
  next
    case True
    obtain x db2 where x: "rd_exec e c (add_column t col) db1 = (x, db2)" by fastforce
    from rd_exec_cases[OF x] show ?thesis
    proof (elim disjE exE conjE)
      fix er assume x1: "x = Inl er" "db2 = rd_next db1"
      obtain y db3 where y: "has_column e c t col db2 = (y, db3)" by fastforce
      have same3: "table_of n db3 = table_of n db" for n using has_column_db[OF y] x1 same1 by simp
      have "db' = db3" "r = Inr () \<Longrightarrow> y = Inr True"
        using assms h True x x1(1) y by (auto simp: add_column_if_missing_def split: sum.splits bool.splits)
      then show ?thesis using same3 has_column_true[of e c t col db2 db3] y x1 columns_same[OF same1] columns_same[OF same3]
        by (auto simp: grows_same)
    next
      fix d1 assume d1: "x = Inr ()" "add_column t col db1 = Inr d1" "db2 = d1\<lparr>rd_tick := Suc (rd_tick db1)\<rparr>"
      have e: "db' = db2" using assms h True x d1(1) by (simp add: add_column_if_missing_def)
      have "col \<in> set (columns_of t d1)"
        using table_of_add[OF d1(2), of t] d1(2) by (auto simp: columns_of_def add_column_def widen_def split: if_splits option.splits)
      then show ?thesis using grows_trans[OF grows_same[OF same1] add_grows[OF d1(2)]] e d1(3) by simp
    qed
  qed
qed

lemma grows_columns: "grows db db' \<Longrightarrow> col \<in> set (columns_of t db) \<Longrightarrow> col \<in> set (columns_of t db')"
proof -
  assume g: "grows db db'" and col: "col \<in> set (columns_of t db)"
  then obtain tb where tb: "table_of t db = Some tb" "col \<in> set (tb_columns tb)"
    by (cases "table_of t db") (simp_all add: columns_of_def)
  then obtain tb' where "table_of t db' = Some tb'" "widened tb tb'" using g by (auto simp: grows_def)
  then show ?thesis using tb by (auto simp: columns_of_def widened_def)
qed

declare background_simp [simp del]

lemma rd_exec_ok:
  "fault_free e \<Longrightarrow> f db = Inr d \<Longrightarrow> rd_exec e background f db = (Inr (), d\<lparr>rd_tick := Suc (rd_tick db)\<rparr>)"
  by (simp add: rd_exec_def)

lemma run_script_ok: "fault_free e \<Longrightarrow> \<exists>d. run_script e background ds db = (Inr (), d)"
proof (induction ds arbitrary: db)
  case (Cons t ts)
  obtain d where "create_table t db = Inr d" by (simp add: create_table_def)
  then show ?case using Cons.IH[OF Cons.prems] rd_exec_ok[OF Cons.prems, of "create_table t" db d] by simp
qed simp

lemma add_column_ok:
  assumes "fault_free e" and "table_of t db \<noteq> None"
  shows "\<exists>d. add_column_if_missing e background t col db = (Inr (), d) \<and> table_of t d \<noteq> None"
proof (cases "col \<in> set (columns_of t db)")
  case True
  then show ?thesis using assms by (simp add: add_column_if_missing_def has_column_def)
next
  case False
  then obtain d where d: "add_column t col (rd_next db) = Inr d" using assms(2) by (simp add: add_column_def)
  from rd_exec_ok[where f = "add_column t col", OF assms(1) d] table_of_add[OF d, of t] assms False show ?thesis
    by (simp add: add_column_if_missing_def has_column_def)
qed

lemma migrate_ok:
  assumes "fault_free e"
  shows "\<exists>d. migrate e background db = (Inr (), d)"
proof -
  obtain db1 where s: "run_script e background server_schema db = (Inr (), db1)" using run_script_ok[OF assms] by blast
  have "distinct (map fst server_schema)" by (simp add: server_schema_def)
  moreover have "(''agents'', snd (server_schema ! 0)) \<in> set server_schema" by (simp add: server_schema_def)
  ultimately have "table_of ''agents'' db1 \<noteq> None" using run_script_keeps[OF s] by (fastforce split: option.splits)
  from add_column_ok[OF assms this] obtain db2 where
    a: "add_column_if_missing e background ''agents'' ''command_timeouts'' db1 = (Inr (), db2)" "table_of ''agents'' db2 \<noteq> None" by blast
  from add_column_ok[OF assms a(2)] obtain db3 where
    "add_column_if_missing e background ''agents'' ''outbox_overrides'' db2 = (Inr (), db3)" by blast
  then show ?thesis using s a(1) by (simp add: migrate_def wrapped_def)
qed



definition old_agents :: table where
  "old_agents = \<lparr>tb_columns = [''id'', ''name''], tb_rows = [[Sql_text ''a'', Sql_text ''web'']]\<rparr>"


end
