(* ===== verification/ServerConfig.thy ===== *)
theory ServerConfig
  imports AgentFiles Crypto
begin

text \<open>
  The configuration of the server (server/internal/config/config.go): the database driver, the
  addresses, the allowed origins, and the encryption key, which comes from the environment or
  from a file beside the database that is made when there is none.
\<close>

section \<open>Drivers\<close>

datatype driver = Driver_sqlite | Driver_turso | Driver_turso_sync

definition parse_driver :: "string \<Rightarrow> driver result" where
  "parse_driver raw =
    (let d = trim_space raw
     in if d = '''' \<or> d = ''sqlite'' then Inr Driver_sqlite
        else if d = ''turso'' then Inr Driver_turso
        else if d = ''turso-sync'' then Inr Driver_turso_sync
        else Inl (Msg (''BACKUP_DB_DRIVER must be sqlite, turso, or turso-sync, got '' @ [CHR 0x22] @ raw @ [CHR 0x22])))"

section \<open>Hexadecimal\<close>

definition hex_digit :: "nat \<Rightarrow> char" where
  "hex_digit n = (if n < 10 then char_of (48 + n) else char_of (87 + n))"

definition hex_value :: "char \<Rightarrow> nat option" where
  "hex_value ch =
    (let n = of_char ch :: nat
     in if 48 \<le> n \<and> n \<le> 57 then Some (n - 48) else if 97 \<le> n \<and> n \<le> 102 then Some (n - 87)
        else if 65 \<le> n \<and> n \<le> 70 then Some (n - 55) else None)"

definition hex_encode :: "string \<Rightarrow> string" where
  "hex_encode s = concat (map (\<lambda>ch. [hex_digit ((of_char ch :: nat) div 16), hex_digit ((of_char ch :: nat) mod 16)]) s)"

fun hex_decode :: "string \<Rightarrow> string option" where
  "hex_decode [] = Some []"
| "hex_decode [_] = None"
| "hex_decode (a # b # s) =
    (case (hex_value a, hex_value b, hex_decode s) of
       (Some x, Some y, Some r) \<Rightarrow> Some (char_of (16 * x + y) # r)
     | _ \<Rightarrow> None)"

section \<open>The encryption key\<close>

text \<open>\<open>filepath.Dir\<close>: everything up to the last slash, cleaned.\<close>

definition file_dir :: "string \<Rightarrow> string" where
  "file_dir p = path_clean (rev (dropWhile (\<lambda>ch. ch \<noteq> CHR ''/'') (rev p)))"

definition key_path :: "string \<Rightarrow> string" where
  "key_path dbPath = file_join (file_dir dbPath) ''encryption.key''"

text \<open>
  The calls of the key file: how reading it ends, what the random source gives, how making the
  directory ends, and how opening the file (which empties it) and writing to it end.
\<close>

record key_calls =
  kc_read :: io_outcome
  kc_rand :: "string result"
  kc_mkdir :: "unit result"
  kc_write :: "nat \<Rightarrow> io_outcome"
  kc_partial :: nat

datatype key_end = Key "string result" | Key_stops

definition write_key_file :: "key_calls \<Rightarrow> string \<Rightarrow> string \<Rightarrow> fsys \<Rightarrow> run_outcome \<times> fsys" where
  "write_key_file k path text fs =
    run_calls (kc_write k) 0
      [(''write encryption key file '' @ path, \<lambda>fs. fs, \<lambda>fs. fs(path \<mapsto> ('''', False))),
       (''write encryption key file '' @ path, \<lambda>fs. fs(path \<mapsto> (take (kc_partial k) text, False)), \<lambda>fs. fs(path \<mapsto> (text, False)))] fs"

definition generate_key :: "key_calls \<Rightarrow> string \<Rightarrow> fsys \<Rightarrow> key_end \<times> fsys" where
  "generate_key k path fs =
    (case kc_rand k of
       Inl er \<Rightarrow> (Key (Inl (Wrap ''generate encryption key'' er)), fs)
     | Inr key \<Rightarrow>
       (case kc_mkdir k of
          Inl er \<Rightarrow> (Key (Inl (Wrap ''create key directory'' er)), fs)
        | Inr _ \<Rightarrow>
          (case write_key_file k path (hex_encode key @ [CHR 0x0A]) fs of
             (AgentFiles.Finished (Inl er), fs1) \<Rightarrow> (Key (Inl er), fs1)
           | (AgentFiles.Finished (Inr _), fs1) \<Rightarrow> (Key (Inr key), fs1)
           | (Crashed, fs1) \<Rightarrow> (Key_stops, fs1))))"

text \<open>A key in the file that cannot be read, or is not one, counts as no key.\<close>

definition stored_key :: "key_calls \<Rightarrow> string \<Rightarrow> fsys \<Rightarrow> string option" where
  "stored_key k path fs =
    (case kc_read k of
       Io_fails _ \<Rightarrow> None
     | _ \<Rightarrow>
       (case fs path of
          None \<Rightarrow> None
        | Some (data, _) \<Rightarrow>
          (case hex_decode (trim_space data) of
             None \<Rightarrow> None
           | Some key \<Rightarrow> if length key = 32 then Some key else None)))"

definition load_encryption_key :: "(string \<rightharpoonup> string) \<Rightarrow> key_calls \<Rightarrow> driver \<Rightarrow> string \<Rightarrow> fsys \<Rightarrow> key_end \<times> fsys" where
  "load_encryption_key environ k d dbPath fs =
    (let hexKey = getenv environ ''BACKUP_ENCRYPTION_KEY'' in
     if hexKey \<noteq> '''' then
       (case hex_decode hexKey of
          None \<Rightarrow> (Key (Inl (Wrap ''BACKUP_ENCRYPTION_KEY is not valid hex'' (Msg ''encoding/hex''))), fs)
        | Some key \<Rightarrow>
          (if length key \<noteq> 32
           then (Key (Inl (Msg (''BACKUP_ENCRYPTION_KEY must be 64 hex characters (32 bytes), got '' @ show_nat (length key) @ '' bytes''))), fs)
           else (Key (Inr key), fs)))
     else if d = Driver_turso then (Key (Inl (Msg ''BACKUP_ENCRYPTION_KEY is required when BACKUP_DB_DRIVER=turso'')), fs)
     else case stored_key k (key_path dbPath) fs of
            Some key \<Rightarrow> (Key (Inr key), fs)
          | None \<Rightarrow> generate_key k (key_path dbPath) fs)"

section \<open>Origins and the rest\<close>

definition default_allowed_origins :: "string list" where
  "default_allowed_origins = [''http://localhost:5173'', ''http://localhost:3000'']"

definition get_allowed_origins :: "(string \<rightharpoonup> string) \<Rightarrow> string list" where
  "get_allowed_origins environ =
    (let raw = getenv environ ''BACKUP_ALLOWED_ORIGINS'' in
     if raw = '''' then default_allowed_origins
     else let origins = filter (\<lambda>o'. o' \<noteq> '''') (map trim_space (split_on (CHR '','') raw))
          in if origins = [] then default_allowed_origins else origins)"

definition getenv_or :: "(string \<rightharpoonup> string) \<Rightarrow> string \<Rightarrow> string \<Rightarrow> string" where
  "getenv_or environ key fallback = (if getenv environ key \<noteq> '''' then getenv environ key else fallback)"

record server_config =
  sc_driver :: driver
  sc_db_path :: string
  sc_db_url :: string
  sc_db_auth_token :: string
  sc_sync_interval :: int
  sc_http_port :: string
  sc_grpc_port :: string
  sc_allowed_origins :: "string list"
  sc_encryption_key :: string

datatype 'a start = Started 'a | Refused go_error | Start_stops

text \<open>\<open>time.ParseDuration\<close> is a parameter; an interval that is not positive has no error to wrap.\<close>

definition sync_interval :: "(string \<Rightarrow> int result) \<Rightarrow> (string \<rightharpoonup> string) \<Rightarrow> int result" where
  "sync_interval parse_duration environ =
    (let raw = getenv environ ''BACKUP_DB_SYNC_INTERVAL'' in
     if raw = '''' then Inr (30 * 1000000000)
     else case parse_duration raw of
            Inl er \<Rightarrow> Inl (Wrap ''BACKUP_DB_SYNC_INTERVAL must be a positive duration'' er)
          | Inr d \<Rightarrow> if d \<le> 0 then Inl (Msg ''BACKUP_DB_SYNC_INTERVAL must be a positive duration'') else Inr d)"

definition load_server_config ::
  "(string \<Rightarrow> int result) \<Rightarrow> (string \<rightharpoonup> string) \<Rightarrow> key_calls \<Rightarrow> fsys \<Rightarrow> server_config start \<times> fsys" where
  "load_server_config parse_duration environ k fs =
    (case parse_driver (getenv environ ''BACKUP_DB_DRIVER'') of
       Inl er \<Rightarrow> (Refused er, fs)
     | Inr d \<Rightarrow>
       (let dbPath = (if d = Driver_turso_sync then trim_space (getenv environ ''BACKUP_DB_PATH'')
                      else getenv_or environ ''BACKUP_DB_PATH'' ''/var/lib/backup-orchestrator/server.db'');
            url = trim_space (getenv environ ''BACKUP_DB_URL''); token = trim_space (getenv environ ''BACKUP_DB_AUTH_TOKEN'')
        in case sync_interval parse_duration environ of
             Inl er \<Rightarrow> (Refused er, fs)
           | Inr interval \<Rightarrow>
             (if d = Driver_turso \<and> (url = '''' \<or> token = '''')
              then (Refused (Msg ''BACKUP_DB_URL and BACKUP_DB_AUTH_TOKEN are required when BACKUP_DB_DRIVER=turso''), fs)
              else if d = Driver_turso_sync \<and> (dbPath = '''' \<or> url = '''' \<or> token = '''')
              then (Refused (Msg ''BACKUP_DB_PATH, BACKUP_DB_URL, and BACKUP_DB_AUTH_TOKEN are required when BACKUP_DB_DRIVER=turso-sync''), fs)
              else case load_encryption_key environ k d dbPath fs of
                     (Key_stops, fs1) \<Rightarrow> (Start_stops, fs1)
                   | (Key (Inl er), fs1) \<Rightarrow> (Refused (Wrap ''load encryption key'' er), fs1)
                   | (Key (Inr key), fs1) \<Rightarrow>
                     (Started \<lparr>sc_driver = d, sc_db_path = dbPath, sc_db_url = url, sc_db_auth_token = token,
                        sc_sync_interval = interval, sc_http_port = getenv_or environ ''BACKUP_HTTP_PORT'' ''8080'',
                        sc_grpc_port = getenv_or environ ''BACKUP_GRPC_PORT'' ''8443'',
                        sc_allowed_origins = get_allowed_origins environ, sc_encryption_key = key\<rparr>, fs1))))"

section \<open>Properties\<close>

lemma hex_digit_value: "n < 16 \<Longrightarrow> hex_value (hex_digit n) = Some n \<and> \<not> is_space (hex_digit n)"
  by (auto simp: hex_digit_def hex_value_def is_space_def of_char_of Let_def)

lemma hex_byte: "(of_char ch :: nat) div 16 < 16" "(of_char ch :: nat) mod 16 < 16"
  using nat_of_char_less_256[of ch] by (simp_all add: less_mult_imp_div_less)

lemma hex_round_trip: "hex_decode (hex_encode s) = Some s"
proof (induction s)
  case (Cons ch s)
  have "char_of (16 * ((of_char ch :: nat) div 16) + of_char ch mod 16) = ch" by simp
  then show ?case using Cons hex_digit_value hex_byte[of ch] by (simp add: hex_encode_def)
qed (simp add: hex_encode_def)

lemma hex_no_space: "ch \<in> set (hex_encode s) \<Longrightarrow> \<not> is_space ch"
  using hex_digit_value hex_byte by (auto simp: hex_encode_def)

lemma trim_no_space: "(\<And>ch. ch \<in> set s \<Longrightarrow> \<not> is_space ch) \<Longrightarrow> is_space c \<Longrightarrow> trim_space (s @ [c]) = s"
proof -
  assume a: "\<And>ch. ch \<in> set s \<Longrightarrow> \<not> is_space ch" and c: "is_space c"
  show ?thesis
  proof (cases s)
    case Nil
    then show ?thesis using c by (simp add: trim_space_def)
  next
    case (Cons x xs)
    then have "dropWhile is_space (s @ [c]) = s @ [c]" using a by simp
    moreover have "dropWhile is_space (rev s) = rev s"
    proof -
      obtain y ys where "rev s = y # ys" using Cons by (cases "rev s") auto
      moreover have "y \<in> set s" using calculation by (metis list.set_intros(1) set_rev)
      ultimately show ?thesis using a by simp
    qed
    ultimately show ?thesis using c by (simp add: trim_space_def)
  qed
qed

lemma trim_hex_line: "trim_space (hex_encode key @ [CHR 0x0A]) = hex_encode key"
proof (rule trim_no_space)
  show "is_space (CHR 0x0A)" by code_simp
qed (rule hex_no_space)

lemma stored_key_written:
  assumes "fs path = Some (hex_encode key @ [CHR 0x0A], y)" and "length key = 32" and "\<forall>er. kc_read k \<noteq> Io_fails er"
  shows "stored_key k path fs = Some key"
  using assms by (auto simp: stored_key_def trim_hex_line hex_round_trip split: io_outcome.split)

lemma generate_key_cases:
  assumes "generate_key k path fs = (Key (Inr key), fs')"
  shows "kc_rand k = Inr key \<and> fs' = fs(path \<mapsto> (hex_encode key @ [CHR 0x0A], False))"
  using assms by (auto simp: generate_key_def write_key_file_def split: sum.splits io_outcome.splits)

text \<open>
  C19. A server restarted with the same settings has the same key: whenever a start ended with a
  key, from the environment, from the file or a new one, the next start finds that key and
  writes nothing, provided the key file can be read.
\<close>

theorem key_survives_restart:
  assumes "load_encryption_key environ k d dbPath fs = (Key (Inr key), fs')"
    and "\<And>n. kc_rand k = Inr n \<Longrightarrow> length n = 32" and "\<forall>er. kc_read k2 \<noteq> Io_fails er"
  shows "length key = 32 \<and> load_encryption_key environ k2 d dbPath fs' = (Key (Inr key), fs')"
proof (cases "getenv environ ''BACKUP_ENCRYPTION_KEY'' = '''' \<and> d \<noteq> Driver_turso")
  case False
  then show ?thesis using assms(1) by (auto simp: load_encryption_key_def Let_def split: option.splits if_splits)
next
  case True
  show ?thesis
  proof (cases "stored_key k (key_path dbPath) fs")
    case None
    then have "generate_key k (key_path dbPath) fs = (Key (Inr key), fs')" using assms(1) True by (simp add: load_encryption_key_def)
    from generate_key_cases[OF this] have g: "kc_rand k = Inr key" "fs' (key_path dbPath) = Some (hex_encode key @ [CHR 0x0A], False)"
      by simp_all
    have "stored_key k2 (key_path dbPath) fs' = Some key"
      by (rule stored_key_written[where y = False]) (use g(2) assms(2)[OF g(1)] assms(3) in simp_all)
    then show ?thesis using assms(2)[OF g(1)] True by (simp add: load_encryption_key_def)
  next
    case (Some key0)
    then have s: "key0 = key" "fs' = fs" using assms(1) True by (simp_all add: load_encryption_key_def)
    then have "length key = 32 \<and> stored_key k2 (key_path dbPath) fs = Some key"
      using Some assms(3) by (auto simp: stored_key_def split: io_outcome.splits option.splits if_splits)
    then show ?thesis using s True by (simp add: load_encryption_key_def)
  qed
qed

definition authentic :: "aead \<Rightarrow> bool" where
  "authentic a \<longleftrightarrow> (\<forall>k k' n p. length k = length k' \<longrightarrow> k \<noteq> k' \<longrightarrow> ae_open a k' n (ae_seal a k n p) = None)"

text \<open>
  C18. A key file that cannot be read for a moment costs every stored secret: the start does not
  fail but makes a new key and writes it over the old one, and what was encrypted under the
  old key no longer opens.
\<close>

theorem unreadable_key_is_replaced:
  assumes "fs (key_path dbPath) = Some (hex_encode old @ [CHR 0x0A], True)" and "kc_read k = Io_fails er"
    and "getenv environ ''BACKUP_ENCRYPTION_KEY'' = ''''" and "d \<noteq> Driver_turso"
    and "kc_rand k = Inr new" and "kc_mkdir k = Inr ()" and "\<forall>j. kc_write k j = Io_ok"
    and "length old = 32" and "length new = 32" and "new \<noteq> old"
    and "lawful a" and "authentic a" and "length nonce = nonce_size" and "p \<noteq> ''''"
    and "db_encrypt a old (Inr nonce) p = Inr c"
  shows "load_encryption_key environ k d dbPath fs
      = (Key (Inr new), fs(key_path dbPath \<mapsto> (hex_encode new @ [CHR 0x0A], False)))
    \<and> (\<exists>er. db_decrypt a new c = Inl er)"
proof
  show "load_encryption_key environ k d dbPath fs
      = (Key (Inr new), fs(key_path dbPath \<mapsto> (hex_encode new @ [CHR 0x0A], False)))"
    using assms(2-7) by (simp add: load_encryption_key_def stored_key_def generate_key_def write_key_file_def)
  have c: "c = enc_prefix @ ae_encode a (nonce @ ae_seal a old nonce p)"
    using assms(8,14,15) by (simp add: db_encrypt_def crypto_encrypt_def)
  have "ae_open a new nonce (ae_seal a old nonce p) = None" using assms(8,9,10,12) by (simp add: authentic_def)
  then show "\<exists>er. db_decrypt a new c = Inl er"
    using assms(9,11,13) by (simp add: c db_decrypt_def crypto_decrypt_def lawful_def enc_prefix_def)
qed

text \<open>
  The allowed origins are never empty, and none of them is blank or has white space around it.
\<close>

lemma trim_idem: "trim_space (trim_space s) = trim_space s"
proof -
  have d: "dropWhile is_space (dropWhile is_space x) = dropWhile is_space x" for x by (induction x) auto
  have h: "dropWhile is_space y = y" if "y = [] \<or> \<not> is_space (hd y)" for y using that by (cases y) auto
  let ?x = "dropWhile is_space s" and ?y = "rev (dropWhile is_space (rev (dropWhile is_space s)))"
  have "?y = [] \<or> \<not> is_space (hd ?y)"
  proof (cases "?y = []")
    case False
    obtain zs where z: "?x = ?y @ zs"
      by (metis rev_append rev_rev_ident takeWhile_dropWhile_id)
    then have "hd ?y = hd ?x" using False by (metis hd_append2)
    moreover have "?x \<noteq> []" using False by (cases "?x") simp_all
    ultimately show ?thesis by (metis hd_dropWhile)
  qed simp
  then have "dropWhile is_space ?y = ?y" by (rule h)
  then show ?thesis by (simp add: trim_space_def d)
qed

theorem allowed_origins_are_clean:
  "get_allowed_origins environ \<noteq> [] \<and> (\<forall>x \<in> set (get_allowed_origins environ). x \<noteq> '''' \<and> trim_space x = x)"
proof -
  have "\<forall>x \<in> set default_allowed_origins. x \<noteq> '''' \<and> trim_space x = x" by code_simp
  moreover have "default_allowed_origins \<noteq> []" by (simp add: default_allowed_origins_def)
  ultimately show ?thesis by (auto simp: get_allowed_origins_def Let_def trim_idem)
qed


definition calm_key_calls :: "string \<Rightarrow> key_calls" where
  "calm_key_calls key = \<lparr>kc_read = Io_ok, kc_rand = Inr key, kc_mkdir = Inr (), kc_write = \<lambda>_. Io_ok, kc_partial = 0\<rparr>"

theorem key_survives_restart_witness:
  "\<exists>fs'. load_encryption_key Map.empty (calm_key_calls (replicate 32 (CHR ''b''))) Driver_sqlite ''/data/server.db'' fs'
     = (Key (Inr (replicate 32 (CHR ''a''))), fs')"
proof -
  have "load_encryption_key Map.empty (calm_key_calls (replicate 32 (CHR ''a''))) Driver_sqlite ''/data/server.db'' Map.empty
    = (Key (Inr (replicate 32 (CHR ''a''))),
       Map.empty(key_path ''/data/server.db'' \<mapsto> (hex_encode (replicate 32 (CHR ''a'')) @ [CHR 0x0A], False)))"
    by (simp add: load_encryption_key_def getenv_def stored_key_def generate_key_def write_key_file_def calm_key_calls_def)
  from key_survives_restart[OF this, of "calm_key_calls (replicate 32 (CHR ''b''))"] show ?thesis
    by (auto simp: calm_key_calls_def)
qed

text \<open>An authentic cipher over keys of one length: the key stands before the text.\<close>

definition keyed_aead :: aead where
  "keyed_aead = \<lparr>ae_seal = \<lambda>k n p. k @ p,
     ae_open = \<lambda>k n c. if take (length k) c = k then Some (drop (length k) c) else None, ae_encode = \<lambda>x. x, ae_decode = Some\<rparr>"

theorem unreadable_key_is_replaced_witness:
  "\<exists>er. db_decrypt keyed_aead (replicate 32 (CHR ''b''))
     (enc_prefix @ replicate 12 (CHR ''n'') @ replicate 32 (CHR ''a'') @ ''hunter2'') = Inl er"
proof (rule conjunct2[OF unreadable_key_is_replaced[where dbPath = "''/data/server.db''" and old = "replicate 32 (CHR ''a'')"
      and new = "replicate 32 (CHR ''b'')" and a = keyed_aead and nonce = "replicate 12 (CHR ''n'')" and p = "''hunter2''"
      and k = "(calm_key_calls (replicate 32 (CHR ''b'')))\<lparr>kc_read := Io_fails (Msg ''too many open files'')\<rparr>"
      and environ = Map.empty and d = Driver_sqlite and er = "Msg ''too many open files''"
      and fs = "Map.empty(key_path ''/data/server.db'' \<mapsto> (hex_encode (replicate 32 (CHR ''a'')) @ [CHR 0x0A], True))"]])
  show "authentic keyed_aead" by (auto simp: authentic_def keyed_aead_def)
  show "lawful keyed_aead" by (simp add: lawful_def keyed_aead_def)
  show "db_encrypt keyed_aead (replicate 32 (CHR ''a'')) (Inr (replicate 12 (CHR ''n''))) ''hunter2''
    = Inr (enc_prefix @ replicate 12 (CHR ''n'') @ replicate 32 (CHR ''a'') @ ''hunter2'')"
    by (simp add: db_encrypt_def crypto_encrypt_def keyed_aead_def)
qed (simp_all add: calm_key_calls_def getenv_def nonce_size_def numeral_eq_Suc)

end
