(* ===== verification/ServerStartup.thy ===== *)
theory ServerStartup
  imports SecretsMigration ServerSchema ServerConfig
begin

text \<open>
  Opening the server's database with each of its drivers (server/internal/database/options.go,
  pragma.go, backend_turso.go, sync.go), and the synchronisation with a remote copy: what the
  start accepts, the periodic pull and push, the status they leave, and \<open>Close\<close> (db.go).
\<close>

section \<open>Opening\<close>

text \<open>
  The database as both the tables with their columns, which the migration of the schema works
  on, and the rows the program works on.
\<close>

record server_file =
  sf_schema :: rel_db
  sf_store :: store

text \<open>
  How the calls outside the program end (opening or pinging first, the pragmas in order), the
  environments of both kinds of statements, and the key, if there is one.
\<close>

record open_calls =
  ol_open :: "unit result"
  ol_pragma :: "nat \<Rightarrow> go_error option"
  ol_schema_env :: env
  ol_env :: server_env
  ol_secrets :: secrets

definition pragma :: "open_calls \<Rightarrow> nat \<Rightarrow> string \<Rightarrow> unit result" where
  "pragma ol k what = (case ol_pragma ol k of Some er \<Rightarrow> Inl (Wrap what er) | None \<Rightarrow> Inr ())"

definition enable_foreign_keys :: "open_calls \<Rightarrow> nat \<Rightarrow> unit result" where
  "enable_foreign_keys ol k = pragma ol k ''enable foreign keys''"

text \<open>What every driver does at the end: the schema, then the pass over the secrets when there is a key.\<close>

definition migrate_file :: "open_calls \<Rightarrow> server_file \<Rightarrow> unit result \<times> server_file" where
  "migrate_file ol f =
    (case migrate (ol_schema_env ol) background (sf_schema f) of
       (Inl er, d) \<Rightarrow> (Inl (Wrap ''run migrations'' er), f\<lparr>sf_schema := d\<rparr>)
     | (Inr _, d) \<Rightarrow>
       (let f1 = f\<lparr>sf_schema := d\<rparr>
        in if length (sk_key (ol_secrets ol)) = 32
           then (case migrate_encryption (ol_secrets ol) (ol_env ol) background (sf_store f1) of
                   (Inl er, s) \<Rightarrow> (Inl (Wrap ''encryption migration'' er), f1\<lparr>sf_store := s\<rparr>)
                 | (Inr _, s) \<Rightarrow> (Inr (), f1\<lparr>sf_store := s\<rparr>))
           else (Inr (), f1)))"

definition open_sqlite :: "open_calls \<Rightarrow> server_file \<Rightarrow> unit result \<times> server_file" where
  "open_sqlite ol f =
    (case ol_open ol of
       Inl er \<Rightarrow> (Inl (Wrap ''open database'' er), f)
     | Inr _ \<Rightarrow>
    (case pragma ol 0 ''enable WAL mode'' of
       Inl er \<Rightarrow> (Inl er, f)
     | Inr _ \<Rightarrow>
    (case pragma ol 1 ''set busy timeout'' of
       Inl er \<Rightarrow> (Inl er, f)
     | Inr _ \<Rightarrow>
    (case enable_foreign_keys ol 2 of
       Inl er \<Rightarrow> (Inl er, f)
     | Inr _ \<Rightarrow> migrate_file ol f))))"

definition open_turso_remote :: "string \<Rightarrow> string \<Rightarrow> open_calls \<Rightarrow> server_file \<Rightarrow> unit result \<times> server_file" where
  "open_turso_remote url token ol f =
    (if url = '''' \<or> token = '''' then (Inl (Msg ''BACKUP_DB_URL and BACKUP_DB_AUTH_TOKEN are required for driver turso''), f)
     else case ol_open ol of
            Inl er \<Rightarrow> (Inl (Wrap ''ping turso'' er), f)
          | Inr _ \<Rightarrow>
         (case enable_foreign_keys ol 0 of
            Inl er \<Rightarrow> (Inl er, f)
          | Inr _ \<Rightarrow> migrate_file ol f))"

section \<open>Synchronisation\<close>

text \<open>
  The library that synchronises: a pull may change the local file even when it fails, a push
  does not. The status is the time of the last run that succeeded and the last error, if the
  last run failed; zero times and no error before the first.
\<close>

record remote_sync =
  rs_pull :: "server_file \<Rightarrow> go_error option \<times> server_file"
  rs_push :: "server_file \<Rightarrow> go_error option"

record sync_status =
  ss_last_ok :: "int option"
  ss_last_err :: "go_error option"

definition set_sync_status :: "int \<Rightarrow> go_error option \<Rightarrow> sync_status \<Rightarrow> sync_status" where
  "set_sync_status now err st =
    (case err of Some er \<Rightarrow> st\<lparr>ss_last_err := Some er\<rparr> | None \<Rightarrow> st\<lparr>ss_last_ok := Some now, ss_last_err := None\<rparr>)"

definition run_sync :: "remote_sync \<Rightarrow> int \<Rightarrow> server_file \<times> sync_status \<Rightarrow> server_file \<times> sync_status" where
  "run_sync rs now = (\<lambda>(f, st).
    case rs_pull rs f of (e1, f1) \<Rightarrow>
      (let err = (case rs_push rs f1 of Some er \<Rightarrow> Some er | None \<Rightarrow> e1)
       in (f1, set_sync_status now err st)))"

text \<open>The runs of the loop, each at its time and with the library as it behaves then.\<close>

definition sync_loop :: "(int \<times> remote_sync) list \<Rightarrow> server_file \<times> sync_status \<Rightarrow> server_file \<times> sync_status" where
  "sync_loop runs s = fold (\<lambda>(now, rs). run_sync rs now) runs s"

definition sync_interval_of :: "int \<Rightarrow> int" where
  "sync_interval_of interval = (if interval \<le> 0 then 30 * 1000000000 else interval)"

definition evaluate_sync_startup :: "bool \<Rightarrow> go_error option \<Rightarrow> unit result" where
  "evaluate_sync_startup localReady pullErr =
    (case pullErr of
       None \<Rightarrow> Inr ()
     | Some er \<Rightarrow>
       (if localReady then Inr ()
        else Inl (Wrap ''turso-sync: remote unreachable and local database does not contain the expected schema'' er)))"

definition is_cdc_history_error :: "go_error option \<Rightarrow> bool" where
  "is_cdc_history_error err = (case err of None \<Rightarrow> False | Some er \<Rightarrow> contains (error_text er) ''without CDC history'')"

definition local_db_ready :: "open_calls \<Rightarrow> server_file \<Rightarrow> bool" where
  "local_db_ready ol f \<longleftrightarrow> ol_pragma ol 1 = None \<and> table_of ''agents'' (sf_schema f) \<noteq> None"

definition fresh_status :: sync_status where
  "fresh_status = \<lparr>ss_last_ok = None, ss_last_err = None\<rparr>"

text \<open>The result is the status and the interval of the loop that is started.\<close>

definition open_turso_sync ::
  "remote_sync \<Rightarrow> int \<Rightarrow> int \<Rightarrow> open_calls \<Rightarrow> server_file \<Rightarrow> (sync_status \<times> int) result \<times> server_file" where
  "open_turso_sync rs interval now ol f =
    (case ol_open ol of
       Inl er \<Rightarrow> (Inl (Wrap ''open turso-sync database'' er), f)
     | Inr _ \<Rightarrow>
    (case enable_foreign_keys ol 0 of
       Inl er \<Rightarrow> (Inl er, f)
     | Inr _ \<Rightarrow>
    (let ready = local_db_ready ol f in
     case rs_pull rs f of (pullErr, f1) \<Rightarrow>
     (case evaluate_sync_startup ready pullErr of
        Inl er \<Rightarrow> (Inl er, f1)
      | Inr _ \<Rightarrow>
        (if pullErr \<noteq> None \<and> ready \<and> is_cdc_history_error pullErr
         then (Inl (Wrap ''turso-sync cannot adopt a plain SQLite file (missing CDC history); run: just migrate-turso-sync <old.db> <new-empty.db>''
                 (the pullErr)), f1)
         else case migrate_file ol f1 of
                (Inl er, f2) \<Rightarrow> (Inl er, f2)
              | (Inr _, f2) \<Rightarrow>
                (let st = (if pullErr = None then set_sync_status now (rs_push rs f2) fresh_status else fresh_status)
                 in (Inr (st, sync_interval_of interval), f2)))))))"

text \<open>\<open>Open\<close>; without synchronisation there is no status and no loop.\<close>

definition open_database ::
  "string \<Rightarrow> string \<Rightarrow> string \<Rightarrow> remote_sync \<Rightarrow> int \<Rightarrow> int \<Rightarrow> open_calls \<Rightarrow> server_file
     \<Rightarrow> (sync_status \<times> int) option result \<times> server_file" where
  "open_database driver url token rs interval now ol f =
    (let plain = (\<lambda>m. case m of (Inl er, g) \<Rightarrow> (Inl er, g) | (Inr (_ :: unit), g) \<Rightarrow> (Inr None, g))
     in if driver = '''' \<or> driver = ''sqlite'' then plain (open_sqlite ol f)
        else if driver = ''turso'' then plain (open_turso_remote url token ol f)
        else if driver = ''turso-sync''
        then (case open_turso_sync rs interval now ol f of (Inl er, g) \<Rightarrow> (Inl er, g) | (Inr r, g) \<Rightarrow> (Inr (Some r), g))
        else (Inl (Msg (''unknown database driver '' @ [CHR 0x22] @ driver @ [CHR 0x22])), f))"

text \<open>\<open>Close\<close> stops the loop, pushes once more whatever the outcome, and closes the connection.\<close>

datatype close_call = Stops_loop | Pushes | Closes

definition close_db :: "bool \<Rightarrow> bool \<Rightarrow> close_call list" where
  "close_db looping syncing = (if looping then [Stops_loop] else []) @ (if syncing then [Pushes] else []) @ [Closes]"

section \<open>Properties\<close>

lemma secrets_after_pass:
  assumes "migrate_encryption k v c s = (Inr u, s')" and "good_key k" and "distinct (repo_ids s)" and "distinct (agent_ids s)"
  shows "(\<forall>r \<in> set (st_repos s'). ry_password r = '''' \<or> is_encrypted (ry_password r))
        \<and> (\<forall>a \<in> set (st_agents s'). \<forall>rc. ag_rclone_config a = Some rc \<longrightarrow> rc = '''' \<or> is_encrypted rc)"
proof -
  obtain r s1 where p: "migrate_repository_passwords k v c s = (r, s1)" by fastforce
  have r: "r = Inr ()" "migrate_agent_rclone_configs k v c s1 = (Inr u, s')"
    using assms(1) p by (cases r; simp add: migrate_encryption_def)+
  from passwords_encrypted[OF p assms(2,3)] r obtain f t where f: "s1 = s\<lparr>st_repos := map f (st_repos s), st_tick := t\<rparr>"
    "\<forall>x \<in> set (st_repos s). sealed (\<lambda>r. Some (ry_password r)) (f x)" by blast
  have "distinct (agent_ids s1)" using f(1) assms(4) by simp
  from rclone_encrypted[OF r(2) assms(2) this] obtain g t1 where "s' = s1\<lparr>st_agents := map g (st_agents s1), st_tick := t1\<rparr>"
    "\<forall>a \<in> set (st_agents s1). sealed ag_rclone_config (g a)" by auto
  then show ?thesis using f by (fastforce simp: sealed_def)
qed

lemma migrated_columns:
  assumes "migrate e c db = (Inr u, db')"
  shows "{''command_timeouts'', ''outbox_overrides''} \<subseteq> set (columns_of ''agents'' db')"
proof -
  obtain db1 db2 where a: "add_column_if_missing e c ''agents'' ''command_timeouts'' db1 = (Inr (), db2)"
    and b: "add_column_if_missing e c ''agents'' ''outbox_overrides'' db2 = (Inr u, db')"
    using assms by (auto simp: migrate_def wrapped_def res_bind_def split: sum.splits prod.splits)
  from add_column_if_missing_cases[OF a] add_column_if_missing_cases[OF b] show ?thesis
    by (auto intro: grows_columns)
qed

definition ready_file :: "open_calls \<Rightarrow> server_file \<Rightarrow> bool" where
  "ready_file ol f \<longleftrightarrow> {''command_timeouts'', ''outbox_overrides''} \<subseteq> set (columns_of ''agents'' (sf_schema f))
    \<and> (length (sk_key (ol_secrets ol)) = 32 \<longrightarrow>
        (\<forall>r \<in> set (st_repos (sf_store f)). ry_password r = '''' \<or> is_encrypted (ry_password r))
        \<and> (\<forall>a \<in> set (st_agents (sf_store f)). \<forall>rc. ag_rclone_config a = Some rc \<longrightarrow> rc = '''' \<or> is_encrypted rc))"

definition keyed_file :: "open_calls \<Rightarrow> server_file \<Rightarrow> bool" where
  "keyed_file ol f \<longleftrightarrow> (length (sk_key (ol_secrets ol)) = 32 \<longrightarrow> good_key (ol_secrets ol))
    \<and> distinct (repo_ids (sf_store f)) \<and> distinct (agent_ids (sf_store f))"

lemma migrate_file_ready:
  assumes "migrate_file ol f = (Inr u, f')" and "keyed_file ol f"
  shows "ready_file ol f'"
proof -
  obtain w d where m: "migrate (ol_schema_env ol) background (sf_schema f) = (Inr w, d)"
    using assms(1) by (auto simp: migrate_file_def split: prod.splits sum.splits)
  note cols = migrated_columns[OF m]
  show ?thesis
  proof (cases "length (sk_key (ol_secrets ol)) = 32")
    case False
    then show ?thesis using assms(1) m cols by (auto simp: migrate_file_def ready_file_def Let_def)
  next
    case True
    then obtain x s where e: "migrate_encryption (ol_secrets ol) (ol_env ol) background (sf_store f) = (Inr x, s)"
      and f': "f' = f\<lparr>sf_schema := d, sf_store := s\<rparr>"
      using assms(1) m by (auto simp: migrate_file_def Let_def split: prod.splits sum.splits)
    from secrets_after_pass[OF e] assms(2) True show ?thesis using cols f' by (simp add: ready_file_def keyed_file_def)
  qed
qed


lemma open_sync_cases:
  assumes "open_turso_sync rs interval now ol f = (Inr (st, i), f')"
  shows "\<exists>pullErr f1. rs_pull rs f = (pullErr, f1) \<and> migrate_file ol f1 = (Inr (), f')
    \<and> (pullErr = None \<or> local_db_ready ol f \<and> \<not> is_cdc_history_error pullErr)
    \<and> st = (if pullErr = None then set_sync_status now (rs_push rs f') fresh_status else fresh_status) \<and> i > 0"
proof -
  obtain pullErr f1 where p: "rs_pull rs f = (pullErr, f1)" by fastforce
  show ?thesis
    using assms by (auto simp: open_turso_sync_def p Let_def evaluate_sync_startup_def sync_interval_of_def
        split: sum.splits option.splits if_splits prod.splits)
qed


text \<open>
  A synchronised database starts only on a usable copy: either the pull succeeded, or the local
  file already had the program's tables and the failure is not the one of a plain SQLite file.
  Until a pull has succeeded nothing is pushed and the status is empty; and the loop always
  gets a positive interval.
\<close>

theorem sync_start_needs_usable_copy:
  assumes "open_turso_sync rs interval now ol f = (Inr (st, i), f')"
  shows "(fst (rs_pull rs f) = None \<or> table_of ''agents'' (sf_schema f) \<noteq> None \<and> \<not> is_cdc_history_error (fst (rs_pull rs f)))
    \<and> (fst (rs_pull rs f) \<noteq> None \<longrightarrow> st = fresh_status) \<and> (ss_last_ok st \<noteq> None \<longrightarrow> rs_push rs f' = None) \<and> i > 0"
  using open_sync_cases[OF assms]
  by (auto simp: local_db_ready_def set_sync_status_def fresh_status_def split: option.splits if_splits)

definition sync_ok :: "remote_sync \<Rightarrow> server_file \<Rightarrow> bool" where
  "sync_ok rs f \<longleftrightarrow> fst (rs_pull rs f) = None \<and> rs_push rs (snd (rs_pull rs f)) = None"

lemma run_sync_status:
  "(sync_ok rs f \<longrightarrow> snd (run_sync rs now (f, st)) = \<lparr>ss_last_ok = Some now, ss_last_err = None\<rparr>)
   \<and> (\<not> sync_ok rs f \<longrightarrow> ss_last_ok (snd (run_sync rs now (f, st))) = ss_last_ok st)
   \<and> (ss_last_err (snd (run_sync rs now (f, st))) = None \<longleftrightarrow> sync_ok rs f)"
  by (cases "rs_pull rs f") (auto simp: run_sync_def sync_ok_def set_sync_status_def Let_def split: option.split)

text \<open>
  The status tells the truth about the last run: after any runs of the loop, the error is
  absent exactly when the last one pulled and pushed without an error, and then the time is its
  own; when it failed the time is that of the last success before it.
\<close>

theorem status_reports_last_run:
  "snd (sync_loop (runs @ [(now, rs)]) (f, st)) =
    (let (g, st1) = sync_loop runs (f, st) in
     if sync_ok rs g then \<lparr>ss_last_ok = Some now, ss_last_err = None\<rparr>
     else \<lparr>ss_last_ok = ss_last_ok st1, ss_last_err = ss_last_err (snd (run_sync rs now (g, st1)))\<rparr>)
   \<and> (ss_last_err (snd (sync_loop (runs @ [(now, rs)]) (f, st))) = None \<longleftrightarrow> sync_ok rs (fst (sync_loop runs (f, st))))"
proof -
  obtain g st1 where g: "sync_loop runs (f, st) = (g, st1)" by fastforce
  have s: "sync_loop (runs @ [(now, rs)]) (f, st) = run_sync rs now (g, st1)" using g by (simp add: sync_loop_def)
  obtain h st2 where r: "run_sync rs now (g, st1) = (h, st2)" by fastforce
  from run_sync_status[of rs g now st1] show ?thesis
    by (cases st2) (auto simp: s g r)
qed

text \<open>Both directions fail: only the push is reported.\<close>

lemma pull_error_is_hidden:
  "rs_pull rs f = (Some e1, f1) \<Longrightarrow> rs_push rs f1 = Some e2 \<Longrightarrow> ss_last_err (snd (run_sync rs now (f, st))) = Some e2"
  by (simp add: run_sync_def set_sync_status_def)


definition plain_file :: server_file where
  "plain_file = \<lparr>sf_schema = \<lparr>rd_tables = [(''agents'', old_agents)], rd_tick = 0\<rparr>, sf_store = plain_store\<rparr>"

definition demo_open :: open_calls where
  "demo_open = \<lparr>ol_open = Inr (), ol_pragma = \<lambda>_. None, ol_schema_env = calm, ol_env = demo_env, ol_secrets = keyed\<rparr>"

text \<open>The remote cannot be reached.\<close>

definition offline :: remote_sync where
  "offline = \<lparr>rs_pull = \<lambda>f. (Some (Msg ''no route to host''), f), rs_push = \<lambda>_. Some (Msg ''no route to host'')\<rparr>"

lemma demo_keyed_file: "keyed_file demo_open plain_file"
  by (simp add: keyed_file_def demo_open_def plain_file_def plain_store_def good_key_def keyed_def lawful_def toy_aead_def nonce_size_def)

lemma demo_opens: "\<exists>f'. open_turso_sync offline 0 7 demo_open plain_file = (Inr (fresh_status, 30 * 1000000000), f')"
proof -
  obtain d where m: "migrate calm background (sf_schema plain_file) = (Inr (), d)" using migrate_ok[OF fault_free_calm] by blast
  have "fst (migrate_encryption keyed demo_env background plain_store) = Inr ()"
    by (simp add: migrate_encryption_def migrate_repository_passwords_def migrate_agent_rclone_configs_def encrypt_column_def
        query_ok statement_ok demo_env_def plain_store_def empty_store_def column_rows_def keyed_def toy_aead_def crypto_encrypt_def
        is_encrypted_def enc_prefix_def has_prefix_def set_password_def set_rclone_def demo_agent_def)
  then obtain s where e: "migrate_encryption keyed demo_env background (sf_store plain_file) = (Inr (), s)"
    by (metis plain_file_def prod.collapse server_file.select_convs(2))
  have x: "\<not> is_cdc_history_error (Some (Msg ''no route to host''))" by code_simp
  have r: "local_db_ready demo_open plain_file" by (simp add: local_db_ready_def demo_open_def plain_file_def table_of_def)
  have f: "\<exists>f'. migrate_file demo_open plain_file = (Inr (), f')"
    using m e by (simp add: migrate_file_def demo_open_def Let_def keyed_def)
  have o: "ol_open demo_open = Inr ()" "enable_foreign_keys demo_open 0 = Inr ()"
    by (simp_all add: demo_open_def enable_foreign_keys_def pragma_def)
  show ?thesis
    using x r f o by (auto simp: open_turso_sync_def offline_def evaluate_sync_startup_def Let_def sync_interval_of_def)
qed



theorem sync_start_needs_usable_copy_witness:
  "table_of ''agents'' (sf_schema plain_file) \<noteq> None \<and> \<not> is_cdc_history_error (fst (rs_pull offline plain_file))"
proof -
  obtain f' where "open_turso_sync offline 0 7 demo_open plain_file = (Inr (fresh_status, 30 * 1000000000), f')"
    using demo_opens by blast
  from sync_start_needs_usable_copy[OF this] show ?thesis by (simp add: offline_def)
qed

theorem status_reports_last_run_witness:
  "ss_last_err (snd (sync_loop ([] @ [(7, offline)]) (plain_file, fresh_status))) \<noteq> None"
proof -
  have "\<not> sync_ok offline plain_file" by (simp add: sync_ok_def offline_def)
  then show ?thesis
    using conjunct2[OF status_reports_last_run[of "[]" 7 offline plain_file fresh_status]] by (simp add: sync_loop_def)
qed

end
