(* ===== verification/TursoMigrate.thy ===== *)
theory TursoMigrate
  imports ServerSchema
begin

text \<open>
  The tool that moves a SQLite database into Turso (server/internal/database/migrate/migrate.go
  and its command): the checks before it starts, the import into the remote database table by
  table, and the bootstrap of the local copy.
\<close>

section \<open>Tables and constraints\<close>

text \<open>Parents before children.\<close>

definition copy_tables :: "string list" where
  "copy_tables = [''agents'', ''repositories'', ''settings'', ''scripts'', ''backup_plans'', ''backup_plan_repositories'',
     ''plan_hooks'', ''jobs'', ''job_repository_results'', ''job_hook_results'']"

text \<open>
  The foreign keys of the schema (table, column, parent, whose key is \<open>id\<close>) and its keys; NOT
  NULL and CHECK constraints, which are the same in the source, are left out.
\<close>

definition references :: "(string \<times> string \<times> string) list" where
  "references =
    [(''repositories'', ''agent_id'', ''agents''), (''backup_plans'', ''agent_id'', ''agents''),
     (''backup_plan_repositories'', ''backup_plan_id'', ''backup_plans''),
     (''backup_plan_repositories'', ''repository_id'', ''repositories''),
     (''plan_hooks'', ''backup_plan_id'', ''backup_plans''), (''plan_hooks'', ''script_id'', ''scripts''),
     (''jobs'', ''agent_id'', ''agents''), (''jobs'', ''plan_id'', ''backup_plans''),
     (''job_repository_results'', ''job_id'', ''jobs''), (''job_repository_results'', ''repository_id'', ''repositories''),
     (''job_hook_results'', ''job_id'', ''jobs'')]"

definition unique_keys :: "(string \<times> string list) list" where
  "unique_keys =
    [(''agents'', [''id'']), (''repositories'', [''id'']), (''repositories'', [''name'']), (''settings'', [''key'']),
     (''scripts'', [''id'']), (''scripts'', [''name'']), (''backup_plans'', [''id'']), (''backup_plans'', [''name'', ''agent_id'']),
     (''backup_plan_repositories'', [''backup_plan_id'', ''repository_id'']), (''plan_hooks'', [''id'']), (''jobs'', [''id'']),
     (''job_repository_results'', [''id'']), (''job_hook_results'', [''id''])]"

definition cell :: "string list \<Rightarrow> sql_value list \<Rightarrow> string \<Rightarrow> sql_value" where
  "cell cols r col = (case map_of (zip cols r) col of None \<Rightarrow> Sql_null | Some v \<Rightarrow> v)"

definition column_values :: "string \<Rightarrow> rel_db \<Rightarrow> string \<Rightarrow> sql_value list" where
  "column_values t db col = (case table_of t db of None \<Rightarrow> [] | Some tb \<Rightarrow> map (\<lambda>r. cell (tb_columns tb) r col) (tb_rows tb))"

definition references_ok :: "string \<Rightarrow> table \<Rightarrow> sql_value list \<Rightarrow> rel_db \<Rightarrow> bool" where
  "references_ok t tb r db = list_all (\<lambda>(t', col, p). t' = t \<longrightarrow>
     cell (tb_columns tb) r col = Sql_null \<or> cell (tb_columns tb) r col \<in> set (column_values p db ''id'')) references"

definition keys_free :: "string \<Rightarrow> table \<Rightarrow> sql_value list \<Rightarrow> bool" where
  "keys_free t tb r = list_all (\<lambda>(t', ks). t' = t \<longrightarrow>
     map (cell (tb_columns tb) r) ks \<notin> set (map (\<lambda>r'. map (cell (tb_columns tb) r') ks) (tb_rows tb))) unique_keys"

text \<open>
  The remote engine: whether it enforces foreign keys (the tool does not turn them on), and
  the default of a column that an insert does not name.
\<close>

record remote =
  re_foreign_keys :: bool
  re_default :: "string \<Rightarrow> string \<Rightarrow> sql_value"

definition fill :: "remote \<Rightarrow> string \<Rightarrow> string list \<Rightarrow> string list \<Rightarrow> sql_value list \<Rightarrow> sql_value list" where
  "fill rm t dst cols r = map (\<lambda>col. case map_of (zip cols r) col of Some v \<Rightarrow> v | None \<Rightarrow> re_default rm t col) dst"

definition insert_row :: "remote \<Rightarrow> string \<Rightarrow> string list \<Rightarrow> sql_value list \<Rightarrow> rel_db \<Rightarrow> rel_db result" where
  "insert_row rm t cols r db =
    (case table_of t db of
       None \<Rightarrow> Inl (Msg (''no such table: '' @ t))
     | Some tb \<Rightarrow>
       (let row = fill rm t (tb_columns tb) cols r
        in if \<not> set cols \<subseteq> set (tb_columns tb) then Inl (Msg (''table '' @ t @ '' has no such column''))
           else if \<not> keys_free t tb row then Inl (Msg ''UNIQUE constraint failed'')
           else if re_foreign_keys rm \<and> \<not> references_ok t tb row db then Inl (Msg ''FOREIGN KEY constraint failed'')
           else Inr (db\<lparr>rd_tables := map (\<lambda>(n, x). (n, if n = t then x\<lparr>tb_rows := tb_rows x @ [row]\<rparr> else x)) (rd_tables db)\<rparr>)))"

section \<open>Copying\<close>

text \<open>Both databases and their environments, which fail on their own.\<close>

record ends =
  en_src :: env
  en_dst :: env
  en_ctx :: ctx
  en_remote :: remote

fun copy_rows :: "ends \<Rightarrow> string \<Rightarrow> string list \<Rightarrow> sql_value list list \<Rightarrow> nat \<Rightarrow> rel_db \<Rightarrow> nat result \<times> rel_db" where
  "copy_rows n t cols [] k db = (Inr k, db)"
| "copy_rows n t cols (r # rs) k db =
    (case rd_exec (en_dst n) (en_ctx n) (insert_row (en_remote n) t cols r) db of
       (Inl er, db1) \<Rightarrow> (Inl (Wrap ''insert'' er), db1)
     | (Inr _, db1) \<Rightarrow> copy_rows n t cols rs (Suc k) db1)"

definition query_rd :: "env \<Rightarrow> ctx \<Rightarrow> 'a \<Rightarrow> rel_db \<Rightarrow> 'a result \<times> rel_db" where
  "query_rd e c x db = ((case sql_outcome e c (rd_tick db) of Some er \<Rightarrow> Inl er | None \<Rightarrow> Inr x), rd_next db)"

definition table_exists :: "env \<Rightarrow> ctx \<Rightarrow> string \<Rightarrow> rel_db \<Rightarrow> bool result \<times> rel_db" where
  "table_exists e c t db = query_rd e c (table_of t db \<noteq> None) db"

definition copy_table :: "ends \<Rightarrow> string \<Rightarrow> rel_db \<times> rel_db \<Rightarrow> nat result \<times> rel_db \<times> rel_db" where
  "copy_table n t = (\<lambda>(src, dst).
    case table_exists (en_src n) (en_ctx n) t src of
      (Inl er, src1) \<Rightarrow> (Inl er, src1, dst)
    | (Inr False, src1) \<Rightarrow> (Inr 0, src1, dst)
    | (Inr True, src1) \<Rightarrow>
      (case query_rd (en_src n) (en_ctx n) (the (table_of t src1)) src1 of
         (Inl er, src2) \<Rightarrow> (Inl er, src2, dst)
       | (Inr tb, src2) \<Rightarrow>
         (if tb_columns tb = [] then (Inr 0, src2, dst)
          else case copy_rows n t (tb_columns tb) (tb_rows tb) 0 dst of (r, dst1) \<Rightarrow> (r, src2, dst1))))"

fun copy_all :: "ends \<Rightarrow> string list \<Rightarrow> rel_db \<times> rel_db \<Rightarrow> unit result \<times> rel_db \<times> rel_db" where
  "copy_all n [] s = (Inr (), s)"
| "copy_all n (t # ts) s = res_bind (wrapped (''copy table '' @ t) (copy_table n t s)) (\<lambda>_. copy_all n ts)"

fun remote_app_tables :: "env \<Rightarrow> ctx \<Rightarrow> string list \<Rightarrow> rel_db \<Rightarrow> string list result \<times> rel_db" where
  "remote_app_tables e c [] db = (Inr [], db)"
| "remote_app_tables e c (t # ts) db =
    (case table_exists e c t db of
       (Inl er, db1) \<Rightarrow> (Inl er, db1)
     | (Inr ok, db1) \<Rightarrow>
       (case remote_app_tables e c ts db1 of
          (Inl er, db2) \<Rightarrow> (Inl er, db2)
        | (Inr found, db2) \<Rightarrow> (Inr (if ok then t # found else found), db2)))"

definition drop_table :: "string \<Rightarrow> rel_db \<Rightarrow> rel_db result" where
  "drop_table t db = Inr (db\<lparr>rd_tables := filter (\<lambda>p. fst p \<noteq> t) (rd_tables db)\<rparr>)"

fun drop_tables :: "env \<Rightarrow> ctx \<Rightarrow> string list \<Rightarrow> rel_db \<Rightarrow> unit result \<times> rel_db" where
  "drop_tables e c [] db = (Inr (), db)"
| "drop_tables e c (t # ts) db = res_bind (wrapped (''drop remote '' @ t) (rd_exec e c (drop_table t) db)) (\<lambda>_. drop_tables e c ts)"

definition on_dst :: "(rel_db \<Rightarrow> 'a result \<times> rel_db) \<Rightarrow> rel_db \<times> rel_db \<Rightarrow> 'a result \<times> rel_db \<times> rel_db" where
  "on_dst f = (\<lambda>(src, dst). case f dst of (r, dst1) \<Rightarrow> (r, src, dst1))"

definition import_to_remote :: "ends \<Rightarrow> bool \<Rightarrow> rel_db \<times> rel_db \<Rightarrow> unit result \<times> rel_db \<times> rel_db" where
  "import_to_remote n force s =
    (let e = en_dst n; c = en_ctx n in
     res_bind (wrapped ''ping turso remote'' (on_dst (query_rd e c ()) s)) (\<lambda>_ s1.
     res_bind (wrapped ''inspect remote tables'' (on_dst (remote_app_tables e c copy_tables) s1)) (\<lambda>existing s2.
     if existing \<noteq> [] \<and> \<not> force then (Inl (Msg ''remote already has app tables; refusing to DROP without -force''), s2)
     else res_bind (on_dst (drop_tables e c (rev copy_tables)) s2) (\<lambda>_ s3.
          res_bind (wrapped ''migrate remote schema'' (on_dst (migrate e c) s3)) (\<lambda>_ s4.
          copy_all n copy_tables s4)))))"

section \<open>The tool\<close>

record migrate_options =
  mo_from :: string
  mo_to :: string
  mo_url :: string
  mo_token :: string
  mo_force :: bool

text \<open>Files by their size; what the file system lacks, \<open>Stat\<close> does not find.\<close>

definition sidecars :: "string list" where
  "sidecars = ['''', ''-wal'', ''-shm'', ''-changes'', ''-info'', ''-log'', ''-wal-revert'']"

definition remove_sync_sidecars :: "string \<Rightarrow> (string \<Rightarrow> nat option) \<Rightarrow> string \<Rightarrow> nat option" where
  "remove_sync_sidecars path files = fold (\<lambda>suffix f. f(path @ suffix := None)) sidecars files"

text \<open>The calls of the library that fills the local copy, by number.\<close>

definition bootstrap_sync_local :: "(nat \<Rightarrow> go_error option) \<Rightarrow> unit result" where
  "bootstrap_sync_local calls =
    (case calls 0 of
       Some er \<Rightarrow> Inl (Wrap ''open turso-sync destination'' er)
     | None \<Rightarrow>
    (case calls 1 of
       Some er \<Rightarrow> Inl (Wrap ''connect turso-sync destination'' er)
     | None \<Rightarrow>
    (case calls 2 of
       Some er \<Rightarrow> Inl (Wrap ''pull bootstrap'' er)
     | None \<Rightarrow>
    (case calls 3 of
       Some er \<Rightarrow> Inl (Wrap ''verify local agents after pull'' er)
     | None \<Rightarrow> Inr ()))))"

definition check_options :: "migrate_options \<Rightarrow> (string \<Rightarrow> nat option) \<Rightarrow> unit result" where
  "check_options o' files =
    (if mo_from o' = '''' \<or> mo_to o' = '''' then Inl (Msg ''from and to paths are required'')
     else if mo_from o' = mo_to o' then Inl (Msg ''from and to paths must differ (move the old file aside first)'')
     else if mo_url o' = '''' \<or> mo_token o' = '''' then Inl (Msg ''url and auth token are required'')
     else case files (mo_from o') of
            None \<Rightarrow> Inl (Wrap ''source database'' (Msg ''file does not exist''))
          | Some _ \<Rightarrow>
            (case files (mo_to o') of
               Some k \<Rightarrow> (if k > 0 then Inl (Msg ''destination already exists and is non-empty; refuse to overwrite'') else Inr ())
             | None \<Rightarrow> Inr ()))"

definition sqlite_to_turso_sync ::
  "ends \<Rightarrow> migrate_options \<Rightarrow> unit result \<Rightarrow> (nat \<Rightarrow> go_error option) \<Rightarrow> (string \<Rightarrow> nat option) \<Rightarrow> rel_db \<times> rel_db
     \<Rightarrow> unit result \<times> (string \<Rightarrow> nat option) \<times> rel_db \<times> rel_db" where
  "sqlite_to_turso_sync n o' open_src calls files s =
    (case check_options o' files of
       Inl er \<Rightarrow> (Inl er, files, s)
     | Inr _ \<Rightarrow>
       (let files1 = remove_sync_sidecars (mo_to o') files
        in case open_src of
             Inl er \<Rightarrow> (Inl (Wrap ''open source'' er), files1, s)
           | Inr _ \<Rightarrow>
             (case import_to_remote n (mo_force o') s of
                (Inl er, s1) \<Rightarrow> (Inl er, files1, s1)
              | (Inr _, s1) \<Rightarrow> (bootstrap_sync_local calls, files1, s1))))"

section \<open>What a copy does\<close>

definition schema_cols :: "string \<Rightarrow> string list" where
  "schema_cols t = (case map_of server_schema t of None \<Rightarrow> [] | Some cs \<Rightarrow> cs)"

text \<open>A table of the source as it looks after the copy.\<close>

definition imported :: "remote \<Rightarrow> rel_db \<Rightarrow> string \<Rightarrow> sql_value list list" where
  "imported rm src t = (case table_of t src of None \<Rightarrow> []
     | Some tb \<Rightarrow> if tb_columns tb = [] then [] else map (fill rm t (schema_cols t) (tb_columns tb)) (tb_rows tb))"

definition same_tables :: "rel_db \<Rightarrow> rel_db \<Rightarrow> bool" where
  "same_tables a b \<longleftrightarrow> (\<forall>t. table_of t b = table_of t a)"

lemma same_tables_simps [simp]: "same_tables a a" "same_tables a (rd_next a)"
  by (simp_all add: same_tables_def)

lemma same_tables_trans: "same_tables a b \<Longrightarrow> same_tables b d \<Longrightarrow> same_tables a d"
  by (simp add: same_tables_def)

lemma query_rd_cases: "query_rd e c x db = (r, db') \<Longrightarrow> db' = rd_next db \<and> (\<forall>y. r = Inr y \<longrightarrow> y = x)"
  by (auto simp: query_rd_def split: option.splits)

lemma map_of_map_snd: "map_of (map (\<lambda>(n, x). (n, if n = t then f x else x)) xs) k = (if k = t then map_option f (map_of xs k) else map_of xs k)"
  by (induction xs) auto

lemma insert_row_table:
  assumes "insert_row rm t cols r db = Inr db'"
  shows "\<exists>tb. table_of t db = Some tb \<and> table_of t db' = Some (tb\<lparr>tb_rows := tb_rows tb @ [fill rm t (tb_columns tb) cols r]\<rparr>)
    \<and> (\<forall>k. k \<noteq> t \<longrightarrow> table_of k db' = table_of k db)"
  using assms by (auto simp: insert_row_def Let_def table_of_def map_of_map_snd split: option.splits if_splits)

lemma copy_rows_table:
  assumes "copy_rows n t cols rs k db = (Inr j, db')" and "table_of t db = Some tb"
  shows "table_of t db' = Some (tb\<lparr>tb_rows := tb_rows tb @ map (fill (en_remote n) t (tb_columns tb) cols) rs\<rparr>)
    \<and> (\<forall>m. m \<noteq> t \<longrightarrow> table_of m db' = table_of m db)"
  using assms
proof (induction rs arbitrary: k db tb)
  case (Cons r rs)
  obtain q db1 where x: "rd_exec (en_dst n) (en_ctx n) (insert_row (en_remote n) t cols r) db = (q, db1)" by fastforce
  then have q: "q = Inr ()" "copy_rows n t cols rs (Suc k) db1 = (Inr j, db')" using Cons.prems(1) by (auto split: sum.splits)
  from rd_exec_cases[OF x] q obtain d where d: "insert_row (en_remote n) t cols r db = Inr d" "db1 = d\<lparr>rd_tick := Suc (rd_tick db)\<rparr>" by auto
  from insert_row_table[OF d(1)] Cons.prems(2) d(2) have t:
    "table_of t db1 = Some (tb\<lparr>tb_rows := tb_rows tb @ [fill (en_remote n) t (tb_columns tb) cols r]\<rparr>)"
    "m \<noteq> t \<Longrightarrow> table_of m db1 = table_of m db" for m by auto
  from Cons.IH[OF q(2) t(1)] t(2) show ?case by simp
qed simp

lemma copy_table_effect:
  assumes "copy_table n t (src, dst) = (Inr j, src', dst')" and "table_of t dst = Some \<lparr>tb_columns = schema_cols t, tb_rows = []\<rparr>"
  shows "same_tables src src' \<and> table_of t dst' = Some \<lparr>tb_columns = schema_cols t, tb_rows = imported (en_remote n) src t\<rparr>
    \<and> (\<forall>m. m \<noteq> t \<longrightarrow> table_of m dst' = table_of m dst)"
proof -
  obtain ex src1 where ex: "table_exists (en_src n) (en_ctx n) t src = (ex, src1)" by fastforce
  from query_rd_cases[OF ex[unfolded table_exists_def]] have s1: "src1 = rd_next src" "\<forall>y. ex = Inr y \<longrightarrow> y = (table_of t src \<noteq> None)" by auto
  show ?thesis
  proof (cases "table_of t src")
    case None
    then have "src' = src1 \<and> dst' = dst" using assms(1) ex s1 by (auto simp: copy_table_def split: sum.splits bool.splits)
    then show ?thesis using assms(2) s1 None by (simp add: imported_def)
  next
    case (Some tb)
    obtain q src2 where q: "query_rd (en_src n) (en_ctx n) (the (table_of t src1)) src1 = (q, src2)" by fastforce
    from query_rd_cases[OF q] have s2: "src2 = rd_next src1" "\<forall>y. q = Inr y \<longrightarrow> y = tb" using s1 Some by auto
    have same: "same_tables src src2" using s1(1) s2(1) by (simp add: same_tables_def)
    have res: "(if tb_columns tb = [] then (Inr 0, src2, dst)
        else case copy_rows n t (tb_columns tb) (tb_rows tb) 0 dst of (r, dst1) \<Rightarrow> (r, src2, dst1)) = (Inr j, src', dst')"
      using assms(1) ex s1(2) q s2(2) Some by (auto simp: copy_table_def split: sum.splits bool.splits)
    show ?thesis
    proof (cases "tb_columns tb = []")
      case True
      then show ?thesis using res same assms(2) Some by (simp add: imported_def)
    next
      case False
      then have "copy_rows n t (tb_columns tb) (tb_rows tb) 0 dst = (Inr j, dst')" "src' = src2"
        using res by (auto split: prod.splits)
      with copy_rows_table[OF this(1) assms(2)] show ?thesis using same Some False by (simp add: imported_def)
    qed
  qed
qed

lemma imported_same: "same_tables a b \<Longrightarrow> imported rm b t = imported rm a t"
  by (simp add: imported_def same_tables_def)

lemma copy_all_effect:
  assumes "copy_all n ts (src, dst) = (Inr u, src', dst')" and "distinct ts"
    and "\<forall>t \<in> set ts. table_of t dst = Some \<lparr>tb_columns = schema_cols t, tb_rows = []\<rparr>"
  shows "same_tables src src' \<and> (\<forall>t \<in> set ts. table_of t dst' = Some \<lparr>tb_columns = schema_cols t, tb_rows = imported (en_remote n) src t\<rparr>)
    \<and> (\<forall>t. t \<notin> set ts \<longrightarrow> table_of t dst' = table_of t dst)"
  using assms
proof (induction ts arbitrary: src dst)
  case (Cons t ts)
  obtain q src1 dst1 where c: "copy_table n t (src, dst) = (q, src1, dst1)" by (metis prod.exhaust)
  then obtain j where j: "q = Inr j" "copy_all n ts (src1, dst1) = (Inr u, src', dst')"
    using Cons.prems(1) by (cases q) (auto simp: wrapped_def)
  from copy_table_effect[OF c[unfolded j(1)]] Cons.prems(3) have e: "same_tables src src1"
    "table_of t dst1 = Some \<lparr>tb_columns = schema_cols t, tb_rows = imported (en_remote n) src t\<rparr>"
    "\<And>m. m \<noteq> t \<Longrightarrow> table_of m dst1 = table_of m dst" by auto
  have "\<forall>m \<in> set ts. table_of m dst1 = Some \<lparr>tb_columns = schema_cols m, tb_rows = []\<rparr>"
    using e(3) Cons.prems(2,3) by (metis distinct.simps(2) list.set_intros(2))
  from Cons.IH[OF j(2) _ this] Cons.prems(2) have ih: "same_tables src1 src'"
    "\<And>m. m \<in> set ts \<Longrightarrow> table_of m dst' = Some \<lparr>tb_columns = schema_cols m, tb_rows = imported (en_remote n) src1 m\<rparr>"
    "\<And>m. m \<notin> set ts \<Longrightarrow> table_of m dst' = table_of m dst1" by auto
  show ?case using ih e same_tables_trans[OF e(1) ih(1)] imported_same[OF e(1)] Cons.prems(2) by auto
qed simp


lemma map_of_drop: "map_of (filter (\<lambda>p. fst p \<noteq> t) xs) m = (if m = t then None else map_of xs m)"
  by (induction xs) auto

lemma drop_tables_effect:
  "drop_tables e c ts db = (Inr u, db') \<Longrightarrow> \<forall>t \<in> set ts. table_of t db' = None"
proof -
  have drop: "table_of m (the_db :: rel_db) = (if m = t then None else table_of m db)"
    if "drop_table t db = Inr the_db" for t m db the_db
    using that by (auto simp: drop_table_def table_of_def map_of_drop)
  have keep: "drop_tables e c ts db = (Inr u, db') \<Longrightarrow> (\<forall>t \<in> set ts. table_of t db' = None) \<and> (\<forall>m. table_of m db = None \<longrightarrow> table_of m db' = None)"
    for ts db db'
  proof (induction ts arbitrary: db)
    case (Cons t ts)
    obtain q db1 where x: "rd_exec e c (drop_table t) db = (q, db1)" by fastforce
    then have q: "q = Inr ()" "drop_tables e c ts db1 = (Inr u, db')" using Cons.prems by (cases q; auto simp: wrapped_def)+
    from rd_exec_cases[OF x] q obtain d where d: "drop_table t db = Inr d" "db1 = d\<lparr>rd_tick := Suc (rd_tick db)\<rparr>" by auto
    have "table_of m db1 = (if m = t then None else table_of m db)" for m using drop[OF d(1)] d(2) by simp
    then show ?case using Cons.IH[OF q(2)] by auto
  qed simp
  then show "drop_tables e c ts db = (Inr u, db') \<Longrightarrow> \<forall>t \<in> set ts. table_of t db' = None" by blast
qed

lemma add_column_present:
  assumes "add_column_if_missing e c t col db = (r, db')" and "col \<in> set (columns_of t db)" and "table_of t db \<noteq> None"
  shows "same_tables db db'"
proof -
  obtain q db1 where h: "has_column e c t col db = (q, db1)" by fastforce
  have s1: "same_tables db db1" using has_column_db[OF h] by (simp add: same_tables_def)
  show ?thesis
  proof (cases "q = Inr False")
    case False
    then have "db' = db1" using assms(1) h by (auto simp: add_column_if_missing_def split: sum.splits bool.splits)
    then show ?thesis using s1 by simp
  next
    case True
    obtain x db2 where x: "rd_exec e c (add_column t col) db1 = (x, db2)" by fastforce
    have "columns_of t db1 = columns_of t db" using s1 by (simp add: columns_of_def same_tables_def)
    then have "\<And>d. add_column t col db1 \<noteq> Inr d" using assms(2) by (simp add: add_column_def)
    then obtain er where er: "x = Inl er" "db2 = rd_next db1" using rd_exec_cases[OF x] by auto
    obtain y db3 where y: "has_column e c t col db2 = (y, db3)" by fastforce
    have "db' = db3" using assms(1) h True x er(1) y by (auto simp: add_column_if_missing_def split: sum.splits bool.splits)
    then show ?thesis using s1 has_column_db[OF y] er(2) by (simp add: same_tables_def)
  qed
qed

lemma schema_cols_in: "(t, cs) \<in> set server_schema \<Longrightarrow> schema_cols t = cs"
proof -
  have "distinct (map fst server_schema)" by (simp add: server_schema_def)
  then show "(t, cs) \<in> set server_schema \<Longrightarrow> schema_cols t = cs" by (simp add: schema_cols_def)
qed

lemma schema_of_copy: "t \<in> set copy_tables \<Longrightarrow> (t, schema_cols t) \<in> set server_schema"
proof -
  have "\<forall>t \<in> set copy_tables. map_of server_schema t = Some (schema_cols t)"
    by (simp add: copy_tables_def server_schema_def schema_cols_def)
  then show "t \<in> set copy_tables \<Longrightarrow> (t, schema_cols t) \<in> set server_schema" by (blast intro: map_of_SomeD)
qed

lemma migrate_fresh:
  assumes "migrate e c db = (Inr u, db')" and "\<forall>t \<in> set copy_tables. table_of t db = None"
  shows "\<forall>t \<in> set copy_tables. table_of t db' = Some \<lparr>tb_columns = schema_cols t, tb_rows = []\<rparr>"
proof -
  obtain r1 db1 where s: "run_script e c server_schema db = (r1, db1)" by fastforce
  have d: "distinct (map fst server_schema)" by (simp add: server_schema_def)
  have r1: "r1 = Inr ()" using assms(1) s by (cases r1) (auto simp: migrate_def wrapped_def)
  have t1: "table_of t db1 = Some \<lparr>tb_columns = schema_cols t, tb_rows = []\<rparr>" if "t \<in> set copy_tables" for t
    using run_script_keeps[OF s d] r1 schema_of_copy[OF that] assms(2) that by fastforce
  obtain r2 db2 where a: "add_column_if_missing e c ''agents'' ''command_timeouts'' db1 = (r2, db2)" by fastforce
  have r2: "r2 = Inr ()" using assms(1) s r1 a by (cases r2) (auto simp: migrate_def wrapped_def)
  obtain r3 db3 where b: "add_column_if_missing e c ''agents'' ''outbox_overrides'' db2 = (r3, db3)" by fastforce
  have d3: "db' = db3" using assms(1) s r1 a r2 b by (auto simp: migrate_def wrapped_def split: sum.splits)
  have ag: "table_of ''agents'' db1 = Some \<lparr>tb_columns = schema_cols ''agents'', tb_rows = []\<rparr>" using t1 by (simp add: copy_tables_def)
  have cols: "{''command_timeouts'', ''outbox_overrides''} \<subseteq> set (schema_cols ''agents'')" by (simp add: schema_cols_def server_schema_def)
  have s2: "same_tables db1 db2" using add_column_present[OF a] ag cols by (simp add: columns_of_def)
  then have "table_of ''agents'' db2 = Some \<lparr>tb_columns = schema_cols ''agents'', tb_rows = []\<rparr>" using ag by (simp add: same_tables_def)
  then have "same_tables db2 db3" using add_column_present[OF b] cols by (simp add: columns_of_def)
  then show ?thesis using s2 t1 d3 by (simp add: same_tables_def)
qed

lemma on_dst_cases: "on_dst f (src, dst) = (r, s') \<Longrightarrow> \<exists>dst'. f dst = (r, dst') \<and> s' = (src, dst')"
  by (auto simp: on_dst_def split: prod.splits)

lemma wrapped_Inr: "wrapped w m = (Inr x, s) \<longleftrightarrow> m = (Inr x, s)"
  by (cases m) (auto simp: wrapped_def split: sum.splits)

lemma bind_Inr: "res_bind m k = (Inr y, s') \<longleftrightarrow> (\<exists>x s. m = (Inr x, s) \<and> k x s = (Inr y, s'))"
  by (cases m) (auto simp: res_bind_def split: sum.splits)

lemma on_dst_Inr: "on_dst f s = (Inr x, s') \<longleftrightarrow> (\<exists>dst'. f (snd s) = (Inr x, dst') \<and> s' = (fst s, dst'))"
  by (cases s) (auto simp: on_dst_def split: prod.splits)


lemma remote_app_tables_cases:
  "remote_app_tables e c ts db = (r, db') \<Longrightarrow> same_tables db db' \<and> (\<forall>found. r = Inr found \<longrightarrow> found = filter (\<lambda>t. table_of t db \<noteq> None) ts)"
proof (induction ts arbitrary: db r db')
  case (Cons t ts)
  obtain x db1 where x: "table_exists e c t db = (x, db1)" by fastforce
  from query_rd_cases[OF x[unfolded table_exists_def]] have db1: "db1 = rd_next db" "\<forall>y. x = Inr y \<longrightarrow> y = (table_of t db \<noteq> None)" by auto
  obtain y db2 where y: "remote_app_tables e c ts db1 = (y, db2)" by fastforce
  from Cons.IH[OF y] have ih: "same_tables db db2" "\<forall>f. y = Inr f \<longrightarrow> f = filter (\<lambda>t. table_of t db \<noteq> None) ts"
    using db1(1) by (simp_all add: same_tables_def)
  show ?case using Cons.prems x y db1 ih by (cases x; cases y) auto
qed simp

text \<open>
  A remote database that holds any table of the program is not touched without \<open>-force\<close>,
  whatever fails: the import ends with an error and every table is as it was.
\<close>

theorem import_refuses_used_remote:
  assumes "import_to_remote n False (src, dst) = (r, src', dst')" and "t \<in> set copy_tables" and "table_of t dst \<noteq> None"
  shows "(\<exists>er. r = Inl er) \<and> (\<forall>m. table_of m dst' = table_of m dst) \<and> src' = src"
proof -
  obtain p dst1 where p: "query_rd (en_dst n) (en_ctx n) () dst = (p, dst1)" by fastforce
  from query_rd_cases[OF p] have d1: "dst1 = rd_next dst" by simp
  obtain q dst2 where q: "remote_app_tables (en_dst n) (en_ctx n) copy_tables dst1 = (q, dst2)" by fastforce
  from remote_app_tables_cases[OF q] have s: "same_tables dst dst2"
    and f: "\<forall>found. q = Inr found \<longrightarrow> found = filter (\<lambda>t. table_of t dst \<noteq> None) copy_tables"
    using d1 by (simp_all add: same_tables_def)
  have ne: "filter (\<lambda>t. table_of t dst \<noteq> None) copy_tables \<noteq> []" using assms(2,3) by (auto simp: filter_empty_conv)
  show ?thesis
    using assms(1) p q d1 s f ne by (cases p; cases q) (auto simp: import_to_remote_def on_dst_def wrapped_def same_tables_def)
qed


section \<open>A consistent source can be imported\<close>

definition calm_ends :: "ends \<Rightarrow> bool" where
  "calm_ends n \<longleftrightarrow> fault_free (en_src n) \<and> fault_free (en_dst n) \<and> en_ctx n = background"

text \<open>The source has no column the schema lacks, and keys and references hold among its rows.\<close>

definition conforms :: "remote \<Rightarrow> rel_db \<Rightarrow> bool" where
  "conforms rm src \<longleftrightarrow>
    (\<forall>t \<in> set copy_tables. case table_of t src of None \<Rightarrow> True | Some tb \<Rightarrow> set (tb_columns tb) \<subseteq> set (schema_cols t))
    \<and> (\<forall>(t, ks) \<in> set unique_keys. distinct (map (\<lambda>r. map (cell (schema_cols t) r) ks) (imported rm src t)))
    \<and> (\<forall>(t, col, p) \<in> set references. \<forall>r \<in> set (imported rm src t). cell (schema_cols t) r col = Sql_null
         \<or> cell (schema_cols t) r col \<in> (\<lambda>r. cell (schema_cols p) r ''id'') ` set (imported rm src p))"

lemma query_rd_ok: "fault_free e \<Longrightarrow> query_rd e background x db = (Inr x, rd_next db)"
  by (simp add: query_rd_def)

lemma insert_row_ok:
  assumes "table_of t db = Some tb" and "set cols \<subseteq> set (tb_columns tb)"
    and "keys_free t tb (fill rm t (tb_columns tb) cols r)" and "references_ok t tb (fill rm t (tb_columns tb) cols r) db"
  shows "\<exists>d. insert_row rm t cols r db = Inr d"
  using assms by (simp add: insert_row_def Let_def)

lemma copy_rows_ok:
  assumes "calm_ends n" and "set cols \<subseteq> set (schema_cols t)"
    and "table_of t db = Some \<lparr>tb_columns = schema_cols t, tb_rows = pre\<rparr>"
    and "\<And>ks. (t, ks) \<in> set unique_keys \<Longrightarrow>
        distinct (map (\<lambda>r. map (cell (schema_cols t) r) ks) (pre @ map (fill (en_remote n) t (schema_cols t) cols) rs))"
    and "\<And>col p r. (t, col, p) \<in> set references \<Longrightarrow> r \<in> set rs \<Longrightarrow> p \<noteq> t
        \<and> (cell (schema_cols t) (fill (en_remote n) t (schema_cols t) cols r) col = Sql_null
        \<or> cell (schema_cols t) (fill (en_remote n) t (schema_cols t) cols r) col \<in> set (column_values p db ''id''))"
  shows "\<exists>j db'. copy_rows n t cols rs k db = (Inr j, db')"
  using assms(3-5)
proof (induction rs arbitrary: pre db k)
  case (Cons r rs)
  let ?tb = "\<lparr>tb_columns = schema_cols t, tb_rows = pre\<rparr>" and ?row = "fill (en_remote n) t (schema_cols t) cols r"
  have key: "map (cell (schema_cols t) ?row) ks \<notin> set (map (\<lambda>r'. map (cell (schema_cols t) r') ks) pre)"
    if "(t, ks) \<in> set unique_keys" for ks
    using Cons.prems(2)[OF that] by auto
  have "keys_free t ?tb ?row" unfolding keys_free_def list_all_iff
  proof (clarsimp simp del: set_map)
    fix ks assume "(t, ks) \<in> set unique_keys"
      and "map (cell (schema_cols t) ?row) ks \<in> set (map (\<lambda>r'. map (cell (schema_cols t) r') ks) pre)"
    then show False using key by blast
  qed
  moreover have "references_ok t ?tb ?row db" unfolding references_ok_def list_all_iff
  proof clarsimp
    fix col p assume "(t, col, p) \<in> set references" and "cell (schema_cols t) ?row col \<notin> set (column_values p db ''id'')"
    then show "cell (schema_cols t) ?row col = Sql_null" using Cons.prems(3)[of col p r] by simp
  qed
  ultimately obtain d where d: "insert_row (en_remote n) t cols r db = Inr d"
    using insert_row_ok[OF Cons.prems(1), of cols "en_remote n" r] assms(2) by auto
  let ?db1 = "d\<lparr>rd_tick := Suc (rd_tick db)\<rparr>"
  have x: "rd_exec (en_dst n) (en_ctx n) (insert_row (en_remote n) t cols r) db = (Inr (), ?db1)"
    using rd_exec_ok[of "en_dst n"] d assms(1) by (simp add: calm_ends_def)
  from insert_row_table[OF d] Cons.prems(1) have t: "table_of t ?db1 = Some \<lparr>tb_columns = schema_cols t, tb_rows = pre @ [?row]\<rparr>"
    "\<And>m. m \<noteq> t \<Longrightarrow> table_of m ?db1 = table_of m db" by auto
  have k1: "distinct (map (\<lambda>r. map (cell (schema_cols t) r) ks) ((pre @ [?row]) @ map (fill (en_remote n) t (schema_cols t) cols) rs))"
    if "(t, ks) \<in> set unique_keys" for ks
    using Cons.prems(2)[OF that] by simp
  have r1: "p \<noteq> t \<and> (cell (schema_cols t) (fill (en_remote n) t (schema_cols t) cols r) col = Sql_null
        \<or> cell (schema_cols t) (fill (en_remote n) t (schema_cols t) cols r) col \<in> set (column_values p ?db1 ''id''))"
    if "(t, col, p) \<in> set references" "r \<in> set rs" for col p r
    using Cons.prems(3)[OF that(1), of r] that(2) t(2)[of p] by (simp add: column_values_def)
  from Cons.IH[OF t(1) k1 r1] show ?case by (simp add: x)
qed simp

lemma parents_first:
  assumes "(t, col, p) \<in> set references" and "dn @ t # ts = copy_tables"
  shows "p \<in> set dn"
proof -
  have "\<forall>(t, col, p) \<in> set references. p \<in> set (takeWhile (\<lambda>x. x \<noteq> t) copy_tables)"
    by (simp add: references_def copy_tables_def)
  then have "p \<in> set (takeWhile (\<lambda>x. x \<noteq> t) (dn @ t # ts))" using assms by auto
  moreover have "t \<notin> set dn"
  proof -
    have "distinct (dn @ t # ts)" unfolding assms(2) by (simp add: copy_tables_def)
    then show ?thesis by simp
  qed
  then have "takeWhile (\<lambda>x. x \<noteq> t) (dn @ t # ts) = dn" by (subst takeWhile_append2) auto
  ultimately show ?thesis by simp
qed

lemma copy_all_ok:
  assumes "calm_ends n" and "conforms (en_remote n) src" and "dn @ ts = copy_tables"
    and "\<forall>t \<in> set dn. table_of t dst = Some \<lparr>tb_columns = schema_cols t, tb_rows = imported (en_remote n) src t\<rparr>"
    and "\<forall>t \<in> set ts. table_of t dst = Some \<lparr>tb_columns = schema_cols t, tb_rows = []\<rparr>"
  shows "\<exists>s'. copy_all n ts (src, dst) = (Inr (), s')"
  using assms(2-5)
proof (induction ts arbitrary: dn src dst)
  case (Cons t ts)
  have calm: "fault_free (en_src n)" "fault_free (en_dst n)" "en_ctx n = background" using assms(1) by (auto simp: calm_ends_def)
  have dist: "distinct (dn @ t # ts)" unfolding Cons.prems(2) by (simp add: copy_tables_def)
  have t0: "table_of t dst = Some \<lparr>tb_columns = schema_cols t, tb_rows = []\<rparr>" using Cons.prems(4) by simp
  have "\<exists>j s1. copy_table n t (src, dst) = (Inr j, s1)"
  proof (cases "table_of t src")
    case None
    then show ?thesis by (simp add: copy_table_def table_exists_def query_rd_ok calm)
  next
    case (Some tb)
    show ?thesis
    proof (cases "tb_columns tb = []")
      case True
      then show ?thesis by (simp add: copy_table_def table_exists_def query_rd_ok calm Some)
    next
      case False
      let ?im = "map (fill (en_remote n) t (schema_cols t) (tb_columns tb)) (tb_rows tb)"
      have im: "imported (en_remote n) src t = ?im" using Some False by (simp add: imported_def)
      have cols: "set (tb_columns tb) \<subseteq> set (schema_cols t)"
      proof -
        have "t \<in> set copy_tables" unfolding Cons.prems(2)[symmetric] by simp
        then have "case table_of t src of None \<Rightarrow> True | Some tb \<Rightarrow> set (tb_columns tb) \<subseteq> set (schema_cols t)"
          using Cons.prems(1) unfolding conforms_def by blast
        then show ?thesis using Some by simp
      qed
      have keys: "distinct (map (\<lambda>r. map (cell (schema_cols t) r) ks) ([] @ ?im))" if "(t, ks) \<in> set unique_keys" for ks
        using Cons.prems(1) that unfolding conforms_def im[symmetric] by auto
      have refs: "p \<noteq> t \<and> (cell (schema_cols t) (fill (en_remote n) t (schema_cols t) (tb_columns tb) r) col = Sql_null
          \<or> cell (schema_cols t) (fill (en_remote n) t (schema_cols t) (tb_columns tb) r) col \<in> set (column_values p dst ''id''))"
        if r: "(t, col, p) \<in> set references" "r \<in> set (tb_rows tb)" for col p r
      proof -
        have p: "p \<in> set dn" by (rule parents_first[OF r(1) Cons.prems(2)])
        let ?row = "fill (en_remote n) t (schema_cols t) (tb_columns tb) r"
        have "?row \<in> set (imported (en_remote n) src t)" using r(2) by (simp add: im)
        then have "cell (schema_cols t) ?row col = Sql_null
            \<or> cell (schema_cols t) ?row col \<in> (\<lambda>r. cell (schema_cols p) r ''id'') ` set (imported (en_remote n) src p)"
          using Cons.prems(1) r(1) unfolding conforms_def by fastforce
        moreover have "table_of p dst = Some \<lparr>tb_columns = schema_cols p, tb_rows = imported (en_remote n) src p\<rparr>"
          using Cons.prems(3) p by blast
        ultimately show ?thesis using p dist by (auto simp: column_values_def)
      qed
      from copy_rows_ok[OF assms(1) cols t0 keys refs, of 0] obtain j db'
        where "copy_rows n t (tb_columns tb) (tb_rows tb) 0 dst = (Inr j, db')" by blast
      then show ?thesis by (simp add: copy_table_def table_exists_def query_rd_ok calm Some False)
    qed
  qed
  then obtain j src1 dst1 where c: "copy_table n t (src, dst) = (Inr j, src1, dst1)" by (metis prod.exhaust)
  from copy_table_effect[OF c t0] have e: "same_tables src src1"
    "table_of t dst1 = Some \<lparr>tb_columns = schema_cols t, tb_rows = imported (en_remote n) src t\<rparr>"
    "\<And>m. m \<noteq> t \<Longrightarrow> table_of m dst1 = table_of m dst" by auto
  have conf: "conforms (en_remote n) src1"
    using Cons.prems(1) imported_same[OF e(1)] e(1) by (simp add: conforms_def same_tables_def)
  have copied: "\<forall>m \<in> set (dn @ [t]). table_of m dst1 = Some \<lparr>tb_columns = schema_cols m, tb_rows = imported (en_remote n) src1 m\<rparr>"
  proof
    fix m assume "m \<in> set (dn @ [t])"
    then show "table_of m dst1 = Some \<lparr>tb_columns = schema_cols m, tb_rows = imported (en_remote n) src1 m\<rparr>"
      using Cons.prems(3) e(2,3) imported_same[OF e(1)] by (cases "m = t") auto
  qed
  have todo: "\<forall>m \<in> set ts. table_of m dst1 = Some \<lparr>tb_columns = schema_cols m, tb_rows = []\<rparr>"
  proof
    fix m assume m: "m \<in> set ts"
    then have "m \<noteq> t" using dist by auto
    then show "table_of m dst1 = Some \<lparr>tb_columns = schema_cols m, tb_rows = []\<rparr>" using Cons.prems(4) e(3) m by simp
  qed
  have "(dn @ [t]) @ ts = copy_tables" using Cons.prems(2) by simp
  from Cons.IH[OF conf this copied todo] show ?case by (simp add: c wrapped_def)
qed simp


lemma remote_app_tables_ok: "fault_free e \<Longrightarrow> \<exists>f d. remote_app_tables e background ts db = (Inr f, d)"
proof (induction ts arbitrary: db)
  case (Cons t ts)
  from Cons.IH[OF Cons.prems, of "rd_next db"] Cons.prems show ?case by (auto simp: table_exists_def query_rd_ok)
qed simp

lemma drop_tables_ok: "fault_free e \<Longrightarrow> \<exists>d. drop_tables e background ts db = (Inr (), d)"
proof (induction ts arbitrary: db)
  case (Cons t ts)
  have "rd_exec e background (drop_table t) db = (Inr (), db\<lparr>rd_tables := filter (\<lambda>p. fst p \<noteq> t) (rd_tables db), rd_tick := Suc (rd_tick db)\<rparr>)"
    using rd_exec_ok[OF Cons.prems, of "drop_table t" db] by (simp add: drop_table_def)
  then show ?case using Cons.IH[OF Cons.prems] by (simp add: wrapped_def)
qed simp

lemma import_ok:
  assumes "calm_ends n" and "conforms (en_remote n) src"
    and "force \<or> (\<forall>t \<in> set copy_tables. table_of t dst = None)"
  shows "\<exists>s'. import_to_remote n force (src, dst) = (Inr (), s')"
proof -
  have calm: "fault_free (en_dst n)" "en_ctx n = background" using assms(1) by (auto simp: calm_ends_def)
  obtain found dst1 where a: "remote_app_tables (en_dst n) background copy_tables (rd_next dst) = (Inr found, dst1)"
    using remote_app_tables_ok[OF calm(1)] by blast
  have f: "found = filter (\<lambda>t. table_of t dst \<noteq> None) copy_tables" using remote_app_tables_cases[OF a] by simp
  have go: "found = [] \<or> force" using assms(3) f by (auto simp: filter_empty_conv)
  obtain dst2 where d: "drop_tables (en_dst n) background (rev copy_tables) dst1 = (Inr (), dst2)" using drop_tables_ok[OF calm(1)] by blast
  have none: "\<forall>t \<in> set copy_tables. table_of t dst2 = None" using drop_tables_effect[OF d] by simp
  obtain dst3 where m: "migrate (en_dst n) background dst2 = (Inr (), dst3)" using migrate_ok[OF calm(1)] by blast
  from migrate_fresh[OF m none] have fresh: "\<forall>t \<in> set copy_tables. table_of t dst3 = Some \<lparr>tb_columns = schema_cols t, tb_rows = []\<rparr>" .
  have "\<exists>s'. copy_all n copy_tables (src, dst3) = (Inr (), s')"
    by (rule copy_all_ok[OF assms(1,2), of "[]"]) (use fresh in simp_all)
  then show ?thesis
    using go by (auto simp: import_to_remote_def Let_def calm query_rd_ok wrapped_def on_dst_def a d m)
qed

definition demo_source :: rel_db where
  "demo_source = \<lparr>rd_tables =
     [(''agents'', \<lparr>tb_columns = [''id'', ''name''], tb_rows = [[Sql_text ''a'', Sql_text ''web'']]\<rparr>),
      (''jobs'', \<lparr>tb_columns = [''id'', ''agent_id'', ''plan_id''], tb_rows = [[Sql_text ''j'', Sql_text ''a'', Sql_null]]\<rparr>)], rd_tick = 0\<rparr>"

definition demo_ends :: ends where
  "demo_ends = \<lparr>en_src = calm, en_dst = calm, en_ctx = background,
     en_remote = \<lparr>re_foreign_keys = True, re_default = \<lambda>_ _. Sql_null\<rparr>\<rparr>"

lemma demo_conforms: "conforms (en_remote demo_ends) demo_source"
  by code_simp


definition empty_rel :: rel_db where "empty_rel = \<lparr>rd_tables = [], rd_tick = 0\<rparr>"

lemma demo_calm: "calm_ends demo_ends"
  by (simp add: calm_ends_def demo_ends_def)



theorem import_refuses_used_remote_witness:
  "table_of ''agents'' (snd (snd (import_to_remote demo_ends False (empty_rel, demo_source)))) = table_of ''agents'' demo_source"
proof -
  obtain r src' dst' where i: "import_to_remote demo_ends False (empty_rel, demo_source) = (r, src', dst')" by (metis prod.exhaust)
  have "''agents'' \<in> set copy_tables" "table_of ''agents'' demo_source \<noteq> None"
    by (simp_all add: copy_tables_def demo_source_def table_of_def)
  from import_refuses_used_remote[OF i this] show ?thesis unfolding i snd_conv by blast
qed


section \<open>Rows fit their columns\<close>

definition fits :: "rel_db \<Rightarrow> bool" where
  "fits db \<longleftrightarrow> (\<forall>t tb. table_of t db = Some tb \<longrightarrow> (\<forall>r \<in> set (tb_rows tb). length r = length (tb_columns tb)))"

lemma fits_next [simp]: "fits (rd_next db) = fits db" "fits (db\<lparr>rd_tick := k\<rparr>) = fits db"
  by (simp_all add: fits_def)

lemma fits_exec: "(\<And>d. f db = Inr d \<Longrightarrow> fits d) \<Longrightarrow> fits db \<Longrightarrow> fits (snd (rd_exec e c f db))"
  by (simp add: rd_exec_def split: option.split sum.split)

lemma fits_create: "fits db \<Longrightarrow> create_table d db = Inr db' \<Longrightarrow> fits db'"
  using table_of_create[of d db db'] by (auto simp: fits_def split: option.splits if_splits)

lemma fits_add: "fits db \<Longrightarrow> add_column t col db = Inr db' \<Longrightarrow> fits db'"
  using table_of_add[of t col db db'] by (auto simp: fits_def widen_def split: if_splits)

lemma fits_insert:
  assumes "fits db" and "insert_row rm t cols r db = Inr db'"
  shows "fits db'"
proof -
  obtain tb where t: "table_of t db = Some tb" "table_of t db' = Some (tb\<lparr>tb_rows := tb_rows tb @ [fill rm t (tb_columns tb) cols r]\<rparr>)"
    "\<And>k. k \<noteq> t \<Longrightarrow> table_of k db' = table_of k db" using insert_row_table[OF assms(2)] by auto
  have "length (fill rm t (tb_columns tb) cols r) = length (tb_columns tb)" by (simp add: fill_def)
  then show ?thesis
    using assms(1) t unfolding fits_def by (metis Un_iff empty_iff insert_iff list.set(1) list.set(2) option.inject set_append
        table.select_convs(1) table.select_convs(2) table.surjective table.update_convs(2))
qed

lemma fits_drop: "fits db \<Longrightarrow> drop_table t db = Inr db' \<Longrightarrow> fits db'"
  by (auto simp: fits_def drop_table_def table_of_def map_of_drop split: if_splits)

lemma fits_script: "fits db \<Longrightarrow> fits (snd (run_script e c ds db))"
proof (induction ds arbitrary: db)
  case (Cons d ds)
  have "fits (snd (rd_exec e c (create_table d) db))" by (rule fits_exec[OF fits_create[OF Cons.prems] Cons.prems])
  then show ?case using Cons.IH by (cases "rd_exec e c (create_table d) db") (auto simp: res_bind_def split: sum.split)
qed simp

lemma fits_has_column: "fits db \<Longrightarrow> fits (snd (has_column e c t col db))"
  by (simp add: has_column_def Let_def split: option.split)

lemma fits_add_missing: "fits db \<Longrightarrow> fits (snd (add_column_if_missing e c t col db))"
proof -
  assume f: "fits db"
  obtain q db1 where h: "has_column e c t col db = (q, db1)" by fastforce
  have f1: "fits db1" using fits_has_column[OF f, of e c t col] h by simp
  obtain x db2 where x: "rd_exec e c (add_column t col) db1 = (x, db2)" by fastforce
  have f2: "fits db2" using fits_exec[OF fits_add[OF f1] f1, where f = "add_column t col" and e = e and c = c] x by simp
  obtain y db3 where y: "has_column e c t col db2 = (y, db3)" by fastforce
  have f3: "fits db3" using fits_has_column[OF f2, of e c t col] y by simp
  show "fits (snd (add_column_if_missing e c t col db))"
    using h x y f1 f2 f3 by (auto simp: add_column_if_missing_def split: sum.split bool.split)
qed

lemma snd_wrapped [simp]: "snd (wrapped w m) = snd m"
  by (cases m) (simp add: wrapped_def split: sum.split)

lemma bind_keeps: "P (snd m) \<Longrightarrow> (\<And>x s. m = (Inr x, s) \<Longrightarrow> P s \<Longrightarrow> P (snd (k x s))) \<Longrightarrow> P (snd (res_bind m k))"
  by (cases m) (auto simp: res_bind_def split: sum.split)

lemma fits_migrate: "fits db \<Longrightarrow> fits (snd (migrate e c db))"
  unfolding migrate_def
  by (rule bind_keeps[where P = fits], simp add: fits_script, rule bind_keeps[where P = fits])
    (simp_all add: fits_add_missing)

lemma fits_rows: "fits db \<Longrightarrow> fits (snd (copy_rows n t cols rs k db))"
proof (induction rs arbitrary: k db)
  case (Cons r rs)
  have "fits (snd (rd_exec (en_dst n) (en_ctx n) (insert_row (en_remote n) t cols r) db))"
    by (rule fits_exec[OF fits_insert[OF Cons.prems] Cons.prems])
  then show ?case using Cons.IH
    by (cases "rd_exec (en_dst n) (en_ctx n) (insert_row (en_remote n) t cols r) db") (auto split: sum.split)
qed simp

lemma fits_table: "fits (snd s) \<Longrightarrow> fits (snd (snd (copy_table n t s)))"
proof -
  assume f: "fits (snd s)"
  obtain src dst where s: "s = (src, dst)" by fastforce
  have "fits d" if "copy_rows n t cols rs k dst = (x, d)" for cols rs k x d
    using fits_rows[of dst n t cols rs k] f s that by simp
  then show "fits (snd (snd (copy_table n t s)))"
    using f s by (auto simp: copy_table_def split: prod.split sum.split bool.split)
qed

lemma fits_all: "fits (snd s) \<Longrightarrow> fits (snd (snd (copy_all n ts s)))"
proof (induction ts arbitrary: s)
  case (Cons t ts)
  then show ?case by (simp del: snd_wrapped, intro bind_keeps[where P = "\<lambda>s. fits (snd s)"]) (simp_all add: fits_table)
qed simp

lemma fits_tables_list: "fits db \<Longrightarrow> fits (snd (remote_app_tables e c ts db))"
proof -
  assume f: "fits db"
  obtain r d where r: "remote_app_tables e c ts db = (r, d)" by fastforce
  from remote_app_tables_cases[OF r] f show "fits (snd (remote_app_tables e c ts db))" by (simp add: r fits_def same_tables_def)
qed

lemma fits_drops: "fits db \<Longrightarrow> fits (snd (drop_tables e c ts db))"
proof (induction ts arbitrary: db)
  case (Cons t ts)
  have "fits (snd (rd_exec e c (drop_table t) db))" by (rule fits_exec[OF fits_drop[OF Cons.prems] Cons.prems])
  then show ?case using Cons.IH by (simp del: snd_wrapped, intro bind_keeps[where P = fits]) simp_all
qed simp

lemma fits_on_dst: "(\<And>d. fits d \<Longrightarrow> fits (snd (f d))) \<Longrightarrow> fits (snd s) \<Longrightarrow> fits (snd (snd (on_dst f s)))"
  by (cases s) (force simp: on_dst_def split: prod.split)



end
