(* ===== verification/Spec2Isabelle.thy ===== *)
theory Spec2Isabelle
  imports SpillMigrate Outbox Redact Restic ShellQuote Hooks Backup Scheduler Channels Messages
    AgentMgr ServerDB JobStore EventHub JobReports Crypto ConfigPush CatalogLife AgentBoot ServerStartup TursoMigrate
begin

text \<open>
  A verification development for the backup orchestrator: a server (src/server) that keeps
  agents, repositories, backup plans, hooks, scripts and settings in a database, and agents
  (src/agent) that receive their configuration over a gRPC stream, run restic on a schedule,
  and report every job back. The model covers the Go code of both programs and of the tool that
  moves the server's database; definitions keep the names of the code.

  \<^bold>\<open>How the parts interact.\<close> An agent starts (AgentBoot), registers once (Enrollment on the server),
  and keeps a stream open (AgentStream) whose loss is answered with a backoff (AgentBoot). The
  server admits a stream by the agent's key (Enrollment), keeps a connection object per agent
  (AgentMgr) and pushes a configuration computed from its tables (ConfigPush) whenever an HTTP
  handler changes them (AgentApi, CatalogApi). The agent stores the configuration (AgentFiles),
  puts the plans into its scheduler (Scheduler) and applies the tunables to its outbox
  (AgentCommands). A job runs hooks (Hooks, ShellQuote) and restic (Restic) over the plan's
  repositories (Backup) and writes its log into a buffer and to the stream (AgentLogs). Its
  report goes through the outbox (Outbox, SpillDB) to the server, which stores it (JobReports,
  JobStore) and broadcasts an event (EventHub). Commands go the other way: a handler sends one
  and waits for its result (CommandApi, AgentMgr), the agent answers it (AgentCommands).

  \<^bold>\<open>Conventions.\<close> Strings are byte strings. Errors are values of \<open>go_error\<close>, results are
  \<open>go_error + 'a\<close>, and every early return of the code is a branch. What the programs call and
  this repository does not contain is a parameter: the outcome of SQL statements and remote
  calls by tick (\<open>env\<close>), of system calls by number (\<open>io_outcome\<close>, with the machine stopping as
  one outcome), what processes print (\<open>machine\<close>), JSON encoders and decoders (codecs), AES-GCM
  (\<open>aead\<close>), the clock, uuids and the order of map iterations. A theorem over all environments
  covers every pattern of failures. Goroutines that share state are threads of a step relation
  whose steps are the critical sections (Outbox, Scheduler, AgentMgr, EventHub, AgentStream);
  locks are therefore implicit. Loops that the code bounds are structural recursions; loops
  that wait for events are step relations or folds over the list of events, so no fuel is used
  except the number of list elements at hand.

  \<^bold>\<open>Shared theories.\<close>
  \<^item> Prelude: errors, results, environments, integer conversions. GoStrings: the functions of
    \<open>strings\<close> and \<open>strconv\<close> that are used. Paths: \<open>path.Clean\<close> and what clean paths satisfy.
  \<^item> Channels: Go's maps and buffered channels. Messages: the messages of the stream
    (proto/backup/v1).
  \<^item> Mailbox: the contract of sending to connected agents (locale \<open>mailbox\<close>), interpreted on
    the registry in AgentMgr. StoreSpec: the contract of the bounded spill table (locale
    \<open>bounded_spill\<close> and the best-effort store), interpreted on SpillDB's statements.
    SecretsMigration has a locale for a column of secrets with two interpretations, the
    passwords of repositories and the rclone configurations of agents.

  \<^bold>\<open>The agent\<close> (src/agent).
  \<^item> SpillDB, SpillMigrate (internal/database/db.go): every operation on \<open>outbox_spill\<close>; the
    upgrade of an old file statement by statement. The upgrade loses no report wherever it fails.
  \<^item> Outbox (internal/outbox/outbox.go): the queue in memory, the spill, the worker as a small-step
    machine, pruning, reloading. Every submitted report is accounted for over every run, the
    caps hold, a drain ends.
  \<^item> Redact (internal/redact), Restic (internal/executor/restic.go): masking, the command lines and
    what is made of their output; the password is never returned.
  \<^item> ShellQuote, Hooks (internal/executor/hooks.go): quoting is read back literally by a shell
    scanner; hooks run in order up to the first that aborts.
  \<^item> Backup (internal/executor/backup.go): a whole job, its aggregate status and report.
  \<^item> Scheduler (internal/scheduler/scheduler.go): one job per plan, one report per trigger, and no
    thread gets stuck.
  \<^item> AgentFiles (internal/atomicfile, identity, localconfig, executor/rclone.go): file replacement
    call by call; the identity survives crashes.
  \<^item> AgentCommands (cmd/agent/main.go): the callbacks for configurations and commands and the file
    browser; blocked directories stay out of reach, a restart resumes the configuration.
  \<^item> AgentStream (internal/grpcclient/stream.go): one attempt of \<open>Run\<close> as a step relation between
    the main, sending and receiving goroutines and the handlers. A cancelled attempt can always
    be brought to its end, up to the two exceptions the theorem names.
  \<^item> AgentLogs (internal/logging): the log of a job is the bounded list of its first records.
  \<^item> AgentBoot (internal/config, internal/versions, grpcclient/register.go, cmd/agent): the start
    of the agent, registration, and the reconnect loop with its closed form.

  \<^bold>\<open>The server\<close> (src/server).
  \<^item> ServerDB, AgentStore, CatalogStore, HookStore, JobStore (internal/database): rows, statements,
    transactions and every operation on agents, repositories, plans, hooks, scripts, settings
    and jobs. StoreInv: any sequence of operations, failures included, keeps keys unique and
    references pointing to rows.
  \<^item> Crypto (internal/crypto), SecretsMigration (database/db.go): encryption of stored secrets and
    the pass that encrypts what was stored before.
  \<^item> ServerSchema (database/migrations.go), ServerStartup (database/options.go, pragma.go,
    backend_turso.go, sync.go), ServerConfig (internal/config): the schema and its migration,
    opening with every driver, synchronisation, the configuration and the key file.
  \<^item> TursoMigrate (database/migrate, cmd/migrate-turso-sync): the import table by table with the
    keys and references of the schema.
  \<^item> Settings (internal/settings): the registry, validation and update. ConfigPush
    (internal/configpush/resolver.go): what an agent is sent; a refinement of a specification
    read off the tables, independent of iteration orders.
  \<^item> AgentMgr (internal/agentmgr/manager.go): the registry with its heap of connection objects;
    a result reaches the caller that asked. EventHub (internal/events/hub.go).
  \<^item> Enrollment (internal/grpcserver/auth.go, register.go, connect.go, report.go), JobReports: who
    is let in, and what heartbeats, logs and reports do to the tables.
  \<^item> AgentApi, CatalogApi, CommandApi (internal/api): every HTTP handler. AgentLife and CatalogLife
    state what endpoints, registry and push achieve together.

  \<^bold>\<open>Kinds of lemmas.\<close> Each theory has its operations first, then their invariants or case lemmas
  (\<open>..._cases\<close>, \<open>..._step\<close>, \<open>..._reach\<close>), then the properties, each with a witness on concrete
  data where it has hypotheses. Properties that a team would rather not have, because the code
  behaves in a surprising way, are stated as theorems too (for instance
  \<open>offline_approval_locks_out\<close>, \<open>unreadable_key_is_replaced\<close>, \<open>late_configuration_panics\<close>).

  \<^bold>\<open>Bounds.\<close> Channels have the capacities of the code (32 outbound messages, 64 events, one result
  per command, the outbox's own caps), a job's log 1000 entries. Integers that come from the
  database or the wire are converted to their width where the code does it (\<open>to_int32\<close>,
  \<open>to_int64\<close>); counters and durations that cannot overflow in the code are integers.

  \<^bold>\<open>Not modelled.\<close> The wiring of the two processes around these parts (listeners, signals, the order
  of shutdown), the websocket library and its pump, the embedded web frontend and its
  TypeScript code, the generated protobuf code, log output outside a job's log, file modes,
  and the texts of some library errors. SQL is modelled by what each statement does to the
  rows; indexes, column defaults that no statement relies on, and the timing of statements are
  left out. Letter case is ASCII. Pushes that a handler starts in a goroutine run at once in
  the model of the endpoints; their interleaving with other goroutines is the subject of
  AgentMgr and AgentStream.
\<close>

end
